(* ===== verification/Prelude.thy ===== *)
theory Prelude
  imports Main "HOL-Library.Word" "HOL-Library.Char_ord" "HOL-Library.List_Lexorder"
    "HOL-Library.AList"
begin

text \<open>
  Shared vocabulary of the development: the types that stand for Rust's machine integers,
  strings and byte buffers, the functions of Rust's standard library the gateway calls on
  them, and the generic lemmas the components use.

  A Rust \<open>String\<close> is a UTF-8 byte sequence and \<open>Bytes\<close>/\<open>Vec<u8>\<close> is a byte
  sequence; both are Isabelle's \<open>string\<close>, a list of 8-bit characters, so lengths and slice
  positions count bytes as they do in Rust.
\<close>

section \<open>Types\<close>

type_synonym bytes = string
type_synonym u8 = "8 word"
type_synonym u16 = "16 word"
type_synonym u32 = "32 word"
type_synonym u64 = "64 word"

text \<open>Collections that carry the component proofs.\<close>

named_theorems std_simps \<open>equations of the standard-library functions\<close>
named_theorems handler_defs \<open>definitions unfolded when a request handler is analysed\<close>

section \<open>Strings\<close>

text \<open>\<open>str::strip_prefix\<close>, \<open>str::starts_with\<close>, \<open>str::strip_suffix\<close>.\<close>

fun strip_prefix :: "string \<Rightarrow> string \<Rightarrow> string option" where
  "strip_prefix [] s = Some s"
| "strip_prefix (p # ps) [] = None"
| "strip_prefix (p # ps) (c # cs) = (if p = c then strip_prefix ps cs else None)"

definition starts_with :: "string \<Rightarrow> string \<Rightarrow> bool" where
  "starts_with p s = (strip_prefix p s \<noteq> None)"

lemma strip_prefix_append [simp]: "strip_prefix p (p @ s) = Some s"
  by (induction p) auto

lemma strip_prefix_Some_iff: "strip_prefix p s = Some r \<longleftrightarrow> s = p @ r"
  by (induction p s rule: strip_prefix.induct) auto

lemma starts_with_iff: "starts_with p s \<longleftrightarrow> (\<exists>r. s = p @ r)"
  by (auto simp: starts_with_def strip_prefix_Some_iff [symmetric])

text \<open>\<open>str::trim_end_matches\<close> with a single character.\<close>

definition trim_end_matches :: "char \<Rightarrow> string \<Rightarrow> string" where
  "trim_end_matches c s = rev (dropWhile (\<lambda>x. x = c) (rev s))"

lemma trim_end_matches_not_last:
  "trim_end_matches c s \<noteq> [] \<Longrightarrow> last (trim_end_matches c s) \<noteq> c"
proof -
  assume "trim_end_matches c s \<noteq> []"
  then have ne: "dropWhile (\<lambda>x. x = c) (rev s) \<noteq> []"
    by (simp add: trim_end_matches_def)
  from hd_dropWhile [OF ne] show ?thesis
    by (simp add: trim_end_matches_def last_rev)
qed

text \<open>Decimal rendering of an unsigned integer, the \<open>Display\<close> of the integer types.\<close>

definition digit_char :: "nat \<Rightarrow> char" where
  "digit_char d = char_of (48 + d)"

fun show_nat :: "nat \<Rightarrow> string" where
  "show_nat n = (if n < 10 then [digit_char n] else show_nat (n div 10) @ [digit_char (n mod 10)])"

declare show_nat.simps [simp del]

text \<open>
  \<open>&s[..n]\<close>: the slice panics (here \<open>None\<close>) when \<open>n\<close> is past the end or not on a UTF-8
  character boundary, that is, when the byte at \<open>n\<close> is a continuation byte \<open>10xxxxxx\<close>.
\<close>

abbreviation byte_val :: "char \<Rightarrow> nat" where "byte_val c \<equiv> of_char c"

definition is_char_boundary :: "string \<Rightarrow> nat \<Rightarrow> bool" where
  "is_char_boundary s n =
     (n = length s \<or> n < length s \<and> \<not> (128 \<le> byte_val (s ! n) \<and> byte_val (s ! n) < 192))"

definition str_slice_to :: "string \<Rightarrow> nat \<Rightarrow> string option" where
  "str_slice_to s n = (if is_char_boundary s n then Some (take n s) else None)"

text \<open>The bytes below are named where a literal cannot hold them.\<close>

abbreviation NL :: char where "NL \<equiv> CHR 0x0A"
abbreviation CR :: char where "CR \<equiv> CHR 0x0D"
abbreviation SP :: char where "SP \<equiv> CHR 0x20"
abbreviation NUL :: char where "NUL \<equiv> CHR 0x00"
abbreviation DQ :: char where "DQ \<equiv> CHR 0x22"

section \<open>Results\<close>

text \<open>Rust's \<open>Result<T, E>\<close> is \<open>'e + 'a\<close>, the error on the left.\<close>

definition ok_or :: "'e \<Rightarrow> 'a option \<Rightarrow> 'e + 'a" where
  "ok_or e x = (case x of None \<Rightarrow> Inl e | Some v \<Rightarrow> Inr v)"

definition result_ok :: "'e + 'a \<Rightarrow> 'a option" where
  "result_ok r = (case r of Inl e \<Rightarrow> None | Inr v \<Rightarrow> Some v)"

definition unwrap_or :: "'a option \<Rightarrow> 'a \<Rightarrow> 'a" where
  "unwrap_or x d = (case x of None \<Rightarrow> d | Some v \<Rightarrow> v)"

lemma unwrap_or_simps [simp]: "unwrap_or None d = d" "unwrap_or (Some v) d = v"
  by (simp_all add: unwrap_or_def)

lemma ok_or_simps [simp]: "ok_or e None = Inl e" "ok_or e (Some v) = Inr v"
  by (simp_all add: ok_or_def)

lemma find_append: "find P (xs @ ys) = (case find P xs of Some x \<Rightarrow> Some x | None \<Rightarrow> find P ys)"
  by (induction xs) auto

lemma result_ok_simps [simp]: "result_ok (Inl e) = None" "result_ok (Inr v) = Some v"
  by (simp_all add: result_ok_def)

text \<open>
  A computation that returns a value or panics. A panic unwinds the request's task: nothing
  that follows it in the source runs.
\<close>

datatype 'a exec = Ret 'a | Panic

section \<open>Hash tables\<close>

text \<open>
  A Rust \<open>HashMap<String, V>\<close> is an association list with distinct keys. The order of the
  list is the iteration order, which Rust leaves unspecified: the theorems about a table hold
  for every order of its entries.
\<close>

type_synonym 'v table = "(string \<times> 'v) list"

definition table_wf :: "'v table \<Rightarrow> bool" where
  "table_wf t = distinct (map fst t)"

definition tget :: "'v table \<Rightarrow> string \<Rightarrow> 'v option" where
  "tget t k = map_of t k"

definition tput :: "string \<Rightarrow> 'v \<Rightarrow> 'v table \<Rightarrow> 'v table" where
  "tput k v t = AList.update k v t"

definition tdel :: "string \<Rightarrow> 'v table \<Rightarrow> 'v table" where
  "tdel k t = AList.delete k t"

text \<open>\<open>collect()\<close> of an iterator of pairs: a later pair replaces an earlier one with its key.\<close>

definition tcollect :: "(string \<times> 'v) list \<Rightarrow> 'v table" where
  "tcollect kvs = fold (\<lambda>(k, v). tput k v) kvs []"

lemma tget_Nil [simp]: "tget [] k = None"
  by (simp add: tget_def)

lemma tget_tput [simp]: "tget (tput k v t) k' = (if k' = k then Some v else tget t k')"
  by (simp add: tget_def tput_def update_conv')

lemma tget_tdel [simp]: "tget (tdel k t) k' = (if k' = k then None else tget t k')"
  by (simp add: tget_def tdel_def delete_conv')

lemma tput_tput [simp]: "tput k v (tput k w t) = tput k v t"
  by (simp add: tput_def)

lemma table_wf_Nil [simp]: "table_wf []"
  by (simp add: table_wf_def)

lemma table_wf_tput [simp]: "table_wf t \<Longrightarrow> table_wf (tput k v t)"
  by (simp add: table_wf_def tput_def distinct_update)

lemma table_wf_tdel [simp]: "table_wf t \<Longrightarrow> table_wf (tdel k t)"
  by (simp add: table_wf_def tdel_def distinct_delete)

lemma table_wf_fold_tput: "table_wf t \<Longrightarrow> table_wf (fold (\<lambda>(k, v). tput k v) kvs t)"
  by (induction kvs arbitrary: t) auto

lemma table_wf_tcollect [simp]: "table_wf (tcollect kvs)"
  by (simp add: tcollect_def table_wf_fold_tput)

lemma tget_fold_tput:
  "tget (fold (\<lambda>(k, v). tput k v) kvs t) k =
     (case map_of (rev kvs) k of Some v \<Rightarrow> Some v | None \<Rightarrow> tget t k)"
  by (induction kvs arbitrary: t) (auto simp: map_add_def split: option.splits)

lemma tget_tcollect: "tget (tcollect kvs) k = map_of (rev kvs) k"
  by (simp add: tcollect_def tget_fold_tput split: option.splits)

lemma tget_in_set: "table_wf t \<Longrightarrow> tget t k = Some v \<longleftrightarrow> (k, v) \<in> set t"
  by (simp add: tget_def table_wf_def map_of_eq_Some_iff)

lemma tget_SomeD: "tget t k = Some v \<Longrightarrow> (k, v) \<in> set t"
  by (simp add: tget_def map_of_SomeD)

lemma set_tdel: "set (tdel k t) = {(k', v) \<in> set t. k' \<noteq> k}"
  by (auto simp: tdel_def AList.delete_eq)

lemma set_tput_subset: "set (tput k v t) \<subseteq> insert (k, v) (set t)"
  unfolding tput_def by (induction t) auto

lemma tput_not_Nil [simp]: "tput k v t \<noteq> []"
  unfolding tput_def by (cases t) auto

end
