(* ===== verification/F64.thy ===== *)
theory F64
  imports Prelude Complex_Main
begin

text \<open>
  Rust's \<open>f64\<close>: IEEE-754 binary64 with round-to-nearest, ties-to-even. A finite value is the
  rational number it denotes; every operation computes the exact result and rounds it once.
  The sign of zero and the payload of a NaN are not kept: nothing in the gateway observes
  them. The theory proves what the token bucket, the spend tracker and the cost formula rely
  on: rounding is monotone, leaves representable values alone, and is exact on the integers up
  to \<open>2^53\<close> and on \<open>x - 1\<close> for representable \<open>x \<ge> 1\<close>.
\<close>

section \<open>Rounding a rational to binary64\<close>

definition round_half_even :: "rat \<Rightarrow> int" where
  "round_half_even x =
     (let f = \<lfloor>x\<rfloor>; d = x - of_int f
      in if d < 1 / 2 then f else if 1 / 2 < d then f + 1 else if even f then f else f + 1)"

fun bit_count :: "nat \<Rightarrow> nat" where
  "bit_count n = (if n = 0 then 0 else Suc (bit_count (n div 2)))"

declare bit_count.simps [simp del]

text \<open>The exponent of the leading bit: the greatest \<open>k\<close> with \<open>2 powi k \<le> x\<close>.\<close>

definition floor_log2 :: "rat \<Rightarrow> int" where
  "floor_log2 x =
     (let (n, d) = quotient_of x; k = int (bit_count (nat n)) - int (bit_count (nat d))
      in if 2 powi k \<le> x then k else k - 1)"

definition f64_exponent :: "rat \<Rightarrow> int" where
  "f64_exponent x = max (floor_log2 x - 52) (- 1074)"

definition f64_round_pos :: "rat \<Rightarrow> rat" where
  "f64_round_pos x =
     (let e = f64_exponent x in of_int (round_half_even (x / 2 powi e)) * 2 powi e)"

definition f64_round :: "rat \<Rightarrow> rat" where
  "f64_round x =
     (if x = 0 then 0 else if 0 < x then f64_round_pos x else - f64_round_pos (- x))"

section \<open>The type and its operations\<close>

datatype f64 = NaN | PInf | NInf | Fin rat

definition f64_max_exclusive :: rat where
  "f64_max_exclusive = 2 ^ 1024"

definition f64_of_rat :: "rat \<Rightarrow> f64" where
  "f64_of_rat q =
     (let r = f64_round q
      in if f64_max_exclusive \<le> r then PInf
         else if r \<le> - f64_max_exclusive then NInf else Fin r)"

definition f64_of_nat :: "nat \<Rightarrow> f64" where
  "f64_of_nat n = f64_of_rat (of_nat n)"

fun f64_neg :: "f64 \<Rightarrow> f64" where
  "f64_neg NaN = NaN"
| "f64_neg PInf = NInf"
| "f64_neg NInf = PInf"
| "f64_neg (Fin a) = Fin (- a)"

fun f64_add :: "f64 \<Rightarrow> f64 \<Rightarrow> f64" where
  "f64_add (Fin a) (Fin b) = f64_of_rat (a + b)"
| "f64_add NaN _ = NaN"
| "f64_add _ NaN = NaN"
| "f64_add PInf NInf = NaN"
| "f64_add NInf PInf = NaN"
| "f64_add PInf _ = PInf"
| "f64_add NInf _ = NInf"
| "f64_add _ PInf = PInf"
| "f64_add _ NInf = NInf"

definition f64_sub :: "f64 \<Rightarrow> f64 \<Rightarrow> f64" where
  "f64_sub a b = f64_add a (f64_neg b)"

fun f64_signum :: "f64 \<Rightarrow> int" where
  "f64_signum NaN = 0"
| "f64_signum PInf = 1"
| "f64_signum NInf = - 1"
| "f64_signum (Fin a) = (if 0 < a then 1 else if a < 0 then - 1 else 0)"

definition f64_inf_of_sign :: "int \<Rightarrow> f64" where
  "f64_inf_of_sign s = (if s = 0 then NaN else if 0 < s then PInf else NInf)"

fun f64_mul :: "f64 \<Rightarrow> f64 \<Rightarrow> f64" where
  "f64_mul (Fin a) (Fin b) = f64_of_rat (a * b)"
| "f64_mul a b = f64_inf_of_sign (f64_signum a * f64_signum b)"

fun f64_div :: "f64 \<Rightarrow> f64 \<Rightarrow> f64" where
  "f64_div (Fin a) (Fin b) =
     (if b = 0 then f64_inf_of_sign (f64_signum (Fin a)) else f64_of_rat (a / b))"
| "f64_div NaN _ = NaN"
| "f64_div _ NaN = NaN"
| "f64_div (Fin a) _ = Fin 0"
| "f64_div a (Fin b) = f64_inf_of_sign (f64_signum a * (if b = 0 then 1 else f64_signum (Fin b)))"
| "f64_div _ _ = NaN"

fun f64_lt :: "f64 \<Rightarrow> f64 \<Rightarrow> bool" where
  "f64_lt (Fin a) (Fin b) = (a < b)"
| "f64_lt NInf (Fin _) = True"
| "f64_lt NInf PInf = True"
| "f64_lt (Fin _) PInf = True"
| "f64_lt _ _ = False"

fun f64_le :: "f64 \<Rightarrow> f64 \<Rightarrow> bool" where
  "f64_le (Fin a) (Fin b) = (a \<le> b)"
| "f64_le NaN _ = False"
| "f64_le _ NaN = False"
| "f64_le NInf _ = True"
| "f64_le _ PInf = True"
| "f64_le _ _ = False"

text \<open>\<open>f64::min\<close> and \<open>f64::max\<close> return the other operand when one is a NaN.\<close>

definition f64_min :: "f64 \<Rightarrow> f64 \<Rightarrow> f64" where
  "f64_min a b = (if a = NaN then b else if b = NaN then a else if f64_le a b then a else b)"

definition f64_max :: "f64 \<Rightarrow> f64 \<Rightarrow> f64" where
  "f64_max a b = (if a = NaN then b else if b = NaN then a else if f64_le a b then b else a)"

definition f64_is_finite :: "f64 \<Rightarrow> bool" where
  "f64_is_finite a = (case a of Fin _ \<Rightarrow> True | _ \<Rightarrow> False)"

text \<open>\<open>f64::round\<close> (half away from zero) and the saturating cast \<open>as u64\<close>.\<close>

definition round_half_away :: "rat \<Rightarrow> int" where
  "round_half_away x = (if 0 \<le> x then \<lfloor>x + 1 / 2\<rfloor> else - \<lfloor>- x + 1 / 2\<rfloor>)"

fun f64_round_int :: "f64 \<Rightarrow> f64" where
  "f64_round_int (Fin a) = Fin (of_int (round_half_away a))"
| "f64_round_int a = a"

fun f64_as_u64 :: "f64 \<Rightarrow> nat" where
  "f64_as_u64 (Fin a) =
     (if a \<le> 0 then 0 else if 2 ^ 64 \<le> a then 2 ^ 64 - 1 else nat \<lfloor>a\<rfloor>)"
| "f64_as_u64 PInf = 2 ^ 64 - 1"
| "f64_as_u64 _ = 0"

text \<open>
  \<open>Duration::as_secs_f64\<close>: whole seconds plus the nanosecond part over \<open>10^9\<close>. A duration
  is its number of nanoseconds.
\<close>

definition as_secs_f64 :: "nat \<Rightarrow> f64" where
  "as_secs_f64 nanos =
     f64_add (f64_of_nat (nanos div 10 ^ 9))
       (f64_div (f64_of_nat (nanos mod 10 ^ 9)) (f64_of_nat (10 ^ 9)))"

section \<open>Rounding to the nearest integer\<close>

lemma round_half_even_bounds: "\<lfloor>x\<rfloor> \<le> round_half_even x" "round_half_even x \<le> \<lfloor>x\<rfloor> + 1"
  by (simp_all add: round_half_even_def Let_def)

lemma round_half_even_of_int [simp]: "round_half_even (of_int n) = n"
  by (simp add: round_half_even_def)

lemma round_half_even_mono: "x \<le> y \<Longrightarrow> round_half_even x \<le> round_half_even y"
proof -
  assume le: "x \<le> y"
  then have fl: "\<lfloor>x\<rfloor> \<le> \<lfloor>y\<rfloor>" by (rule floor_mono)
  show ?thesis
  proof (cases "\<lfloor>x\<rfloor> = \<lfloor>y\<rfloor>")
    case True
    with le show ?thesis by (auto simp: round_half_even_def Let_def)
  next
    case False
    with fl have "\<lfloor>x\<rfloor> + 1 \<le> \<lfloor>y\<rfloor>" by simp
    with round_half_even_bounds(2) [of x] round_half_even_bounds(1) [of y] show ?thesis
      by linarith
  qed
qed

lemma round_half_even_le: "x \<le> of_int n \<Longrightarrow> round_half_even x \<le> n"
  using round_half_even_mono [of x "of_int n"] by simp

lemma round_half_even_ge: "of_int n \<le> x \<Longrightarrow> n \<le> round_half_even x"
  using round_half_even_mono [of "of_int n" x] by simp

section \<open>The leading bit\<close>

lemma bit_count_bounds: "0 < n \<Longrightarrow> 2 ^ (bit_count n - 1) \<le> n \<and> n < 2 ^ bit_count n"
proof (induction n rule: bit_count.induct)
  case (1 n)
  show ?case
  proof (cases "n div 2 = 0")
    case True
    with "1.prems" have "n = 1" by auto
    then show ?thesis
      by (simp add: bit_count.simps [of "Suc 0"] bit_count.simps [of 0])
  next
    case False
    with "1.IH" "1.prems"
    have ih: "2 ^ (bit_count (n div 2) - 1) \<le> n div 2 \<and> n div 2 < 2 ^ bit_count (n div 2)"
      by simp
    from False have pos: "0 < bit_count (n div 2)" by (simp add: bit_count.simps [of "n div 2"])
    from "1.prems" have eq: "bit_count n = Suc (bit_count (n div 2))"
      by (simp add: bit_count.simps [of n])
    obtain k where k: "bit_count (n div 2) = Suc k" using pos by (cases "bit_count (n div 2)") auto
    from ih show ?thesis unfolding eq k by (auto simp: less_mult_imp_div_less)
  qed
qed

lemma powi_nat_diff: "(2 :: rat) powi (int a - int b) = 2 ^ a / 2 ^ b"
  by (simp add: power_int_diff)

lemma floor_log2_bounds:
  assumes "0 < x"
  shows "2 powi floor_log2 x \<le> x" and "x < 2 powi (floor_log2 x + 1)"
proof -
  obtain n d where q: "quotient_of x = (n, d)" by (cases "quotient_of x")
  have d: "0 < d" using q by (rule quotient_of_denom_pos)
  have x: "x = of_int n / of_int d" using q by (rule quotient_of_div)
  have n: "0 < n" using assms d by (simp add: x zero_less_divide_iff)
  define a where "a = bit_count (nat n) - 1"
  define b where "b = bit_count (nat d) - 1"
  have sa: "bit_count (nat n) = Suc a" and sb: "bit_count (nat d) = Suc b"
    using n d by (simp_all add: a_def b_def bit_count.simps [of "nat n"] bit_count.simps [of "nat d"])
  have "2 ^ a \<le> nat n \<and> nat n < 2 ^ Suc a" and "2 ^ b \<le> nat d \<and> nat d < 2 ^ Suc b"
    using bit_count_bounds [of "nat n"] bit_count_bounds [of "nat d"] n d
    unfolding sa sb by simp_all
  then have ni: "2 ^ a \<le> n" "n < 2 ^ Suc a" and di: "2 ^ b \<le> d" "d < 2 ^ Suc b"
    using n d by (auto simp: nat_less_iff le_nat_iff)
  have nr: "2 ^ a \<le> (of_int n :: rat)" "(of_int n :: rat) < 2 ^ Suc a"
    and dr: "2 ^ b \<le> (of_int d :: rat)" "(of_int d :: rat) < 2 ^ Suc b"
    using ni di by (metis of_int_le_iff of_int_less_iff of_int_numeral of_int_power)+
  have up: "x < 2 powi (int a - int b + 1)"
  proof -
    have "x \<le> of_int n / 2 ^ b" unfolding x using dr(1) n d by (intro divide_left_mono) auto
    also have "\<dots> < 2 ^ Suc a / 2 ^ b" using nr(2) by (intro divide_strict_right_mono) auto
    also have "\<dots> = 2 powi (int (Suc a) - int b)" by (simp only: powi_nat_diff)
    finally show ?thesis by (simp add: algebra_simps)
  qed
  have lo: "2 powi (int a - int b - 1) < x"
  proof -
    have "(2 :: rat) powi (int a - int b - 1) = 2 ^ a / 2 ^ Suc b"
      using powi_nat_diff [of a "Suc b"] by (simp add: algebra_simps)
    also have "\<dots> \<le> of_int n / 2 ^ Suc b" using nr(1) by (intro divide_right_mono) auto
    also have "\<dots> < x" unfolding x using dr(2) n d by (intro divide_strict_left_mono) auto
    finally show ?thesis .
  qed
  have fl: "floor_log2 x = (if 2 powi (int a - int b) \<le> x then int a - int b else int a - int b - 1)"
    by (simp add: floor_log2_def q Let_def sa sb)
  show "2 powi floor_log2 x \<le> x" using lo by (simp add: fl)
  show "x < 2 powi (floor_log2 x + 1)" using up by (simp add: fl)
qed

lemma powi_le_iff: "(2 :: rat) powi i \<le> 2 powi j \<longleftrightarrow> i \<le> j"
  using power_int_increasing [of i j "2 :: rat"] power_int_strict_increasing [of j i "2 :: rat"]
  by (cases "i \<le> j") auto

lemma powi_less_iff: "(2 :: rat) powi i < 2 powi j \<longleftrightarrow> i < j"
  using powi_le_iff [of j i] by auto

lemma floor_log2_less: "0 < x \<Longrightarrow> x < 2 powi k \<Longrightarrow> floor_log2 x < k"
  using floor_log2_bounds(1) [of x] powi_less_iff [of "floor_log2 x" k] by linarith

lemma floor_log2_ge: "0 < x \<Longrightarrow> 2 powi k \<le> x \<Longrightarrow> k \<le> floor_log2 x"
  using floor_log2_bounds(2) [of x] powi_less_iff [of k "floor_log2 x + 1"] by linarith

lemma floor_log2_mono: "0 < x \<Longrightarrow> x \<le> y \<Longrightarrow> floor_log2 x \<le> floor_log2 y"
  using floor_log2_bounds(1) [of x] by (intro floor_log2_ge) auto

lemma zero_le_mult_pos2: "0 \<le> a * b \<Longrightarrow> 0 < b \<Longrightarrow> 0 \<le> (a :: rat)"
  by (simp add: zero_le_mult_iff)

section \<open>Rounding is monotone and exact on representable values\<close>

lemma f64_exponent_mono: "0 < x \<Longrightarrow> x \<le> y \<Longrightarrow> f64_exponent x \<le> f64_exponent y"
  using floor_log2_mono [of x y] by (auto simp: f64_exponent_def)

lemma scaled_upper: "0 < x \<Longrightarrow> x / 2 powi f64_exponent x < 2 ^ 53"
proof -
  assume x: "0 < x"
  have "x < 2 powi (floor_log2 x + 1)" using x by (rule floor_log2_bounds)
  also have "\<dots> \<le> 2 powi (f64_exponent x + 53)"
    by (subst powi_le_iff) (simp add: f64_exponent_def)
  also have "\<dots> = 2 powi f64_exponent x * 2 ^ 53"
    by (simp add: power_int_add)
  finally show ?thesis by (simp add: divide_less_eq mult.commute)
qed

lemma round_pos_bound: "0 < x \<Longrightarrow> f64_round_pos x \<le> 2 powi (f64_exponent x + 53)"
proof -
  assume x: "0 < x"
  have "round_half_even (x / 2 powi f64_exponent x) \<le> 2 ^ 53"
    using scaled_upper [OF x] by (intro round_half_even_le) simp
  then have "(of_int (round_half_even (x / 2 powi f64_exponent x)) :: rat) \<le> 2 ^ 53"
    by (metis of_int_le_iff of_int_numeral of_int_power)
  then show ?thesis
    by (simp add: f64_round_pos_def Let_def power_int_add mult_right_mono mult.commute)
qed

lemma round_pos_lower:
  "0 < x \<Longrightarrow> - 1074 < f64_exponent x \<Longrightarrow> 2 powi (f64_exponent x + 52) \<le> f64_round_pos x"
proof -
  assume x: "0 < x" and e: "- 1074 < f64_exponent x"
  then have "f64_exponent x + 52 = floor_log2 x" by (auto simp: f64_exponent_def max_def split: if_splits)
  then have "2 powi (f64_exponent x + 52) \<le> x" using floor_log2_bounds(1) [OF x] by simp
  then have "of_int (2 ^ 52) \<le> x / 2 powi f64_exponent x"
    by (simp add: power_int_add le_divide_eq mult.commute)
  then have "2 ^ 52 \<le> round_half_even (x / 2 powi f64_exponent x)" by (rule round_half_even_ge)
  then have "(2 :: rat) ^ 52 \<le> of_int (round_half_even (x / 2 powi f64_exponent x))"
    by (metis of_int_le_iff of_int_numeral of_int_power)
  then show ?thesis
    by (simp add: f64_round_pos_def Let_def power_int_add mult_right_mono mult.commute)
qed

lemma f64_round_pos_mono: "0 < x \<Longrightarrow> x \<le> y \<Longrightarrow> f64_round_pos x \<le> f64_round_pos y"
proof -
  assume x: "0 < x" and le: "x \<le> y"
  then have y: "0 < y" and ee: "f64_exponent x \<le> f64_exponent y"
    by (auto intro: f64_exponent_mono)
  show ?thesis
  proof (cases "f64_exponent x = f64_exponent y")
    case True
    from le have "round_half_even (x / 2 powi f64_exponent y) \<le> round_half_even (y / 2 powi f64_exponent y)"
      by (intro round_half_even_mono divide_right_mono) auto
    with True show ?thesis by (simp add: f64_round_pos_def Let_def mult_right_mono)
  next
    case False
    with ee have lt: "f64_exponent x + 53 \<le> f64_exponent y + 52" by simp
    have "- 1074 \<le> f64_exponent x" by (simp add: f64_exponent_def)
    with False ee have e: "- 1074 < f64_exponent y" by linarith
    have "f64_round_pos x \<le> 2 powi (f64_exponent x + 53)" using x by (rule round_pos_bound)
    also have "\<dots> \<le> 2 powi (f64_exponent y + 52)" using lt by (simp only: powi_le_iff)
    also have "\<dots> \<le> f64_round_pos y" using y e by (rule round_pos_lower)
    finally show ?thesis .
  qed
qed

lemma f64_round_pos_nonneg: "0 < x \<Longrightarrow> 0 \<le> f64_round_pos x"
  using round_half_even_ge [of 0 "x / 2 powi f64_exponent x"]
  by (simp add: f64_round_pos_def Let_def)

lemma f64_round_0 [simp]: "f64_round 0 = 0"
  by (simp add: f64_round_def)

lemma f64_round_minus: "f64_round (- x) = - f64_round x"
  by (simp add: f64_round_def)

lemma f64_round_nonneg: "0 \<le> x \<Longrightarrow> 0 \<le> f64_round x"
  by (auto simp: f64_round_def f64_round_pos_nonneg)

lemma f64_round_mono: "x \<le> y \<Longrightarrow> f64_round x \<le> f64_round y"
proof -
  assume le: "x \<le> y"
  consider "0 < x" | "y < 0" | "x \<le> 0" "0 \<le> y" by linarith
  then show ?thesis
  proof cases
    case 1
    with le show ?thesis by (simp add: f64_round_def f64_round_pos_mono)
  next
    case 2
    with le show ?thesis by (simp add: f64_round_def f64_round_pos_mono)
  next
    case 3
    have "f64_round x \<le> 0" using f64_round_nonneg [of "- x"] 3 by (simp add: f64_round_minus)
    also have "0 \<le> f64_round y" using 3 by (intro f64_round_nonneg)
    finally show ?thesis .
  qed
qed

text \<open>
  A number is representable when it is \<open>m * 2 powi e\<close> with a significand of at most 53 bits
  and an exponent not below the subnormal one.
\<close>

definition dyadic53 :: "rat \<Rightarrow> bool" where
  "dyadic53 x = (\<exists>m e. x = of_int m * 2 powi e \<and> \<bar>m\<bar> \<le> 2 ^ 53 \<and> - 1074 \<le> e)"

lemma f64_round_pos_integral:
  "x / 2 powi f64_exponent x = of_int n \<Longrightarrow> f64_round_pos x = x"
  by (simp add: f64_round_pos_def Let_def) (simp add: field_simps)

lemma f64_round_pos_exact:
  assumes x: "0 < x" and m: "x = of_int m * 2 powi e" "\<bar>m\<bar> \<le> 2 ^ 53" and e: "- 1074 \<le> e"
  shows "f64_round_pos x = x"
proof (cases "f64_exponent x \<le> e")
  case True
  then obtain k where k: "e = f64_exponent x + int k" using zle_iff_zadd by auto
  define p :: rat where "p = 2 powi f64_exponent x"
  have p: "p \<noteq> 0" "2 powi e = p * 2 ^ k" by (simp_all add: p_def k power_int_add)
  have "x / p = of_int m * 2 powi e / p" using m(1) by (rule arg_cong)
  then have "x / 2 powi f64_exponent x = of_int (m * 2 ^ k)"
    using p by (simp add: p_def)
  then show ?thesis by (rule f64_round_pos_integral)
next
  case False
  have mp: "0 < m"
  proof -
    have "0 < of_int m * (2 :: rat) powi e" using x m(1) by simp
    then have "(0 :: rat) < of_int m" by (rule zero_less_mult_pos2) simp
    then show ?thesis by simp
  qed
  have up: "x \<le> 2 powi (e + 53)"
  proof -
    have "(of_int m :: rat) \<le> of_int (2 ^ 53)" using m(2) mp by (simp only: of_int_le_iff)
    then show ?thesis by (simp add: m(1) power_int_add mult_right_mono mult.commute)
  qed
  have "x = 2 powi (e + 53)"
  proof (rule ccontr)
    assume "x \<noteq> 2 powi (e + 53)"
    with up have "x < 2 powi (e + 53)" by simp
    then have "floor_log2 x < e + 53" by (rule floor_log2_less [OF x])
    with False e show False by (auto simp: f64_exponent_def)
  qed
  moreover from calculation have "floor_log2 x = e + 53"
    using floor_log2_ge [OF x, of "e + 53"] floor_log2_less [OF x, of "e + 54"]
    by (simp add: powi_less_iff)
  then have "f64_exponent x = e + 1" using e by (simp add: f64_exponent_def)
  ultimately have "x / 2 powi f64_exponent x = of_int (2 ^ 52)"
    by (simp add: power_int_add)
  then show ?thesis by (rule f64_round_pos_integral)
qed

lemma f64_round_exact: "dyadic53 x \<Longrightarrow> f64_round x = x"
proof -
  assume "dyadic53 x"
  then obtain m e where m: "x = of_int m * 2 powi e" "\<bar>m\<bar> \<le> 2 ^ 53" "- 1074 \<le> e"
    by (auto simp: dyadic53_def)
  consider "x = 0" | "0 < x" | "0 < - x" by linarith
  then show ?thesis
  proof cases
    case 1 then show ?thesis by simp
  next
    case 2 with f64_round_pos_exact [OF 2 m] show ?thesis by (simp add: f64_round_def)
  next
    case 3
    have "- x = of_int (- m) * 2 powi e" using m(1) by simp
    with f64_round_pos_exact [OF 3, of "- m" e] m(2,3) 3 show ?thesis
      by (simp add: f64_round_def)
  qed
qed

lemma f64_round_pos_dyadic: "0 < x \<Longrightarrow> dyadic53 (f64_round_pos x)"
proof -
  assume x: "0 < x"
  let ?m = "round_half_even (x / 2 powi f64_exponent x)"
  have "0 \<le> ?m" using x by (intro round_half_even_ge) simp
  moreover have "?m \<le> 2 ^ 53" using scaled_upper [OF x] by (intro round_half_even_le) simp
  moreover have "- 1074 \<le> f64_exponent x" by (simp add: f64_exponent_def)
  ultimately show ?thesis unfolding dyadic53_def f64_round_pos_def Let_def
    by (intro exI [of _ ?m] exI [of _ "f64_exponent x"]) simp
qed

lemma dyadic53_minus: "dyadic53 x \<Longrightarrow> dyadic53 (- x)"
proof -
  assume "dyadic53 x"
  then obtain m e where "x = of_int m * 2 powi e" "\<bar>m\<bar> \<le> 2 ^ 53" "- 1074 \<le> e"
    by (auto simp: dyadic53_def)
  then show ?thesis unfolding dyadic53_def
    by (intro exI [of _ "- m"] exI [of _ e]) simp
qed

lemma dyadic53_0 [simp]: "dyadic53 0"
  unfolding dyadic53_def by (intro exI [of _ 0]) simp

lemma dyadic53_of_int: "\<bar>n\<bar> \<le> 2 ^ 53 \<Longrightarrow> dyadic53 (of_int n)"
  unfolding dyadic53_def by (intro exI [of _ n] exI [of _ 0]) simp

lemma dyadic53_of_nat: "n \<le> 2 ^ 53 \<Longrightarrow> dyadic53 (of_nat n)"
  using dyadic53_of_int [of "int n"] by simp

lemma f64_round_dyadic: "dyadic53 (f64_round x)"
  using f64_round_pos_dyadic [of x] f64_round_pos_dyadic [of "- x"]
  by (auto simp: f64_round_def intro: dyadic53_minus)

lemma f64_round_idem [simp]: "f64_round (f64_round x) = f64_round x"
  by (rule f64_round_exact [OF f64_round_dyadic])

text \<open>Taking one unit off a representable value between \<open>1\<close> and \<open>2^53\<close> loses nothing.\<close>

lemma dyadic53_minus_one:
  assumes d: "dyadic53 x" and lo: "1 \<le> x" and hi: "x \<le> 2 ^ 53"
  shows "dyadic53 (x - 1)"
proof -
  obtain m e where m: "x = of_int m * 2 powi e" "\<bar>m\<bar> \<le> 2 ^ 53" "- 1074 \<le> e"
    using d by (auto simp: dyadic53_def)
  show ?thesis
  proof (cases "0 \<le> e")
    case True
    then obtain k where k: "e = int k" by (metis nat_0_le)
    have "x - 1 = of_int (m * 2 ^ k - 1)" by (simp add: m(1) k)
    moreover from this have "(of_int 0 :: rat) \<le> of_int (m * 2 ^ k - 1)"
      and "(of_int (m * 2 ^ k - 1) :: rat) \<le> of_int (2 ^ 53)"
      using lo hi by simp_all
    then have "\<bar>m * 2 ^ k - 1\<bar> \<le> 2 ^ 53" by (simp only: of_int_le_iff)
    ultimately show ?thesis using dyadic53_of_int [of "m * 2 ^ k - 1"] by metis
  next
    case False
    then obtain k where k: "e = - int k" by (metis int_nat_eq minus_minus nat_0_le neg_0_le_iff_le nle_le)
    have eq: "x - 1 = of_int (m - 2 ^ k) * 2 powi e"
      by (simp add: m(1) k power_int_minus field_simps)
    have "0 \<le> (of_int (m - 2 ^ k) :: rat) * 2 powi e" using lo eq by simp
    then have "(0 :: rat) \<le> of_int (m - 2 ^ k)" by (rule zero_le_mult_pos2) simp
    then have "0 \<le> m - 2 ^ k" by (simp only: of_int_0_le_iff)
    moreover have "m - 2 ^ k \<le> 2 ^ 53" using m(2) by (smt (verit) zero_le_power)
    ultimately show ?thesis unfolding dyadic53_def
      using m(3) eq by (intro exI [of _ "m - 2 ^ k"] exI [of _ e]) simp
  qed
qed

section \<open>Finite results\<close>

text \<open>A bound under which no sum or product the gateway forms can overflow to an infinity.\<close>

definition f64_big :: rat where
  "f64_big = 2 ^ 1000"

lemma f64_big_bounds: "2 ^ 53 \<le> f64_big" "f64_big < f64_max_exclusive"
  unfolding f64_big_def f64_max_exclusive_def
  by (rule power_increasing; simp) (rule power_strict_increasing; simp)

lemma f64_round_big: "f64_round f64_big = f64_big"
  by (rule f64_round_exact, unfold dyadic53_def f64_big_def, rule exI [of _ 1], rule exI [of _ 1000]) simp

lemma f64_of_rat_Fin: "\<bar>q\<bar> \<le> f64_big \<Longrightarrow> f64_of_rat q = Fin (f64_round q)"
proof -
  assume q: "\<bar>q\<bar> \<le> f64_big"
  have "f64_round q \<le> f64_round f64_big" using q by (intro f64_round_mono) auto
  moreover have "f64_round (- f64_big) \<le> f64_round q" using q by (intro f64_round_mono) auto
  ultimately have "f64_round q < f64_max_exclusive" "- f64_max_exclusive < f64_round q"
    using f64_big_bounds by (simp_all add: f64_round_minus f64_round_big)
  then show ?thesis by (simp add: f64_of_rat_def Let_def)
qed

lemma f64_of_rat_exact: "dyadic53 q \<Longrightarrow> \<bar>q\<bar> \<le> f64_big \<Longrightarrow> f64_of_rat q = Fin q"
  by (simp add: f64_of_rat_Fin f64_round_exact)

lemma le_f64_big: "\<bar>q\<bar> \<le> 2 ^ 53 \<Longrightarrow> \<bar>q\<bar> \<le> f64_big"
  using f64_big_bounds(1) by linarith

lemma f64_of_nat_exact: "n \<le> 2 ^ 53 \<Longrightarrow> f64_of_nat n = Fin (of_nat n)"
proof -
  assume n: "n \<le> 2 ^ 53"
  then have "(of_nat n :: rat) \<le> 2 ^ 53" by (metis of_nat_le_iff of_nat_numeral of_nat_power)
  then have "\<bar>of_nat n :: rat\<bar> \<le> f64_big" by (intro le_f64_big) simp
  then show ?thesis unfolding f64_of_nat_def
    by (rule f64_of_rat_exact [OF dyadic53_of_nat [OF n]])
qed

lemma f64_of_rat_0 [simp]: "f64_of_rat 0 = Fin 0"
  by (rule f64_of_rat_exact) (simp_all add: f64_big_def)

text \<open>Whatever an operation returns, a finite result is representable.\<close>

lemma f64_of_rat_FinD: "f64_of_rat q = Fin r \<Longrightarrow> dyadic53 r \<and> r = f64_round q"
  by (auto simp: f64_of_rat_def Let_def f64_round_dyadic split: if_splits)

lemma f64_of_rat_not_NaN: "f64_of_rat q \<noteq> NaN"
  by (simp add: f64_of_rat_def Let_def)

lemma f64_of_rat_nonneg: "0 \<le> q \<Longrightarrow> f64_le (Fin 0) (f64_of_rat q)"
  using f64_round_nonneg [of q] by (simp add: f64_of_rat_def Let_def f64_max_exclusive_def)

end
