(* ===== verification/Auth.thy ===== *)
theory Auth
  imports Prelude F64
begin

text \<open>
  Virtual keys and the key store (\<open>auth.rs\<close>): the records, the token generator, the
  hash-indexed store behind its lock, and the constant-time comparison of the admin token.
  SHA-256, hexadecimal and base64 encoding and the RFC 3339 parser belong to other crates
  and are parameters.
\<close>

unbundle bit_operations_syntax

section \<open>Records\<close>

datatype period = Day | Week | Month

record spend_limit =
  amount_usd :: f64
  sl_period :: period

record virtual_key =
  vk_id :: string
  vk_hash :: string
  vk_team :: string
  vk_app :: string
  vk_env :: string
  vk_models :: "string list"
  vk_rate_limit_rps :: "u32 option"
  vk_spend_limit :: "spend_limit option"
  vk_expires_at :: "string option"

text \<open>
  The functions of the crates \<open>sha2\<close>, \<open>hmac\<close>, \<open>hex\<close> and \<open>base64\<close> the gateway calls. A hasher fed
  with several \<open>update\<close> calls digests their concatenation.
\<close>

record crypto =
  sha256 :: "bytes \<Rightarrow> bytes"
  hmac_sha256_mac :: "bytes \<Rightarrow> bytes \<Rightarrow> bytes"
  hex_encode :: "bytes \<Rightarrow> string"
  url_safe_no_pad :: "bytes \<Rightarrow> string"

text \<open>
  A reading of the UTC clock through the \<open>time\<close> crate: the instant in nanoseconds, its Unix
  timestamp, and its calendar year, month and ISO 8601 week number.
\<close>

record utc =
  utc_instant :: int
  unix_timestamp :: int
  utc_year :: int
  utc_month :: nat
  utc_iso_week :: nat

definition anonymous :: virtual_key where
  "anonymous = \<lparr>vk_id = [], vk_hash = [], vk_team = [], vk_app = [], vk_env = [], vk_models = [],
     vk_rate_limit_rps = None, vk_spend_limit = None, vk_expires_at = None\<rparr>"

definition allows_model :: "virtual_key \<Rightarrow> string \<Rightarrow> bool" where
  "allows_model k model = (vk_models k = [] \<or> list_ex (\<lambda>m. m = ''*'' \<or> m = model) (vk_models k))"

definition key_identifier :: "virtual_key \<Rightarrow> string" where
  "key_identifier k = (if vk_id k = [] then ''anonymous'' else vk_id k)"

text \<open>\<open>parse\<close> is \<open>OffsetDateTime::parse(_, &Rfc3339)\<close>, an instant in nanoseconds.\<close>

definition is_expired :: "(string \<Rightarrow> int option) \<Rightarrow> utc \<Rightarrow> virtual_key \<Rightarrow> bool" where
  "is_expired parse now k =
     (case vk_expires_at k of
        None \<Rightarrow> False
      | Some stamp \<Rightarrow> (case parse stamp of Some expiry \<Rightarrow> expiry < utc_instant now | None \<Rightarrow> True))"

section \<open>Tokens\<close>

definition TOKEN_PREFIX :: string where "TOKEN_PREFIX = ''vp_''"
definition TOKEN_BYTES :: nat where "TOKEN_BYTES = 32"
definition ID_PREFIX_LEN :: nat where "ID_PREFIX_LEN = 12"

record generated_key =
  gk_token :: string
  gk_id :: string
  gk_hash :: string

definition hash_token :: "crypto \<Rightarrow> string \<Rightarrow> string" where
  "hash_token C token = hex_encode C (sha256 C token)"

text \<open>
  \<open>buf\<close> is the system entropy read by \<open>getrandom\<close>; \<open>None\<close> is the panic of the slice
  \<open>&body[..ID_PREFIX_LEN]\<close>.
\<close>

definition generate_key :: "crypto \<Rightarrow> bytes \<Rightarrow> generated_key option" where
  "generate_key C buf =
     (let body = url_safe_no_pad C buf;
          token = TOKEN_PREFIX @ body
      in case str_slice_to body ID_PREFIX_LEN of
           None \<Rightarrow> None
         | Some head \<Rightarrow>
             Some \<lparr>gk_token = token, gk_id = TOKEN_PREFIX @ head, gk_hash = hash_token C token\<rparr>)"

section \<open>The key store\<close>

record key_store =
  by_hash :: "virtual_key table"

definition keystore_new :: "virtual_key list \<Rightarrow> key_store" where
  "keystore_new keys = \<lparr>by_hash = tcollect (map (\<lambda>k. (vk_hash k, k)) keys)\<rparr>"

definition keystore_authenticate :: "crypto \<Rightarrow> key_store \<Rightarrow> string \<Rightarrow> virtual_key option" where
  "keystore_authenticate C ks token = tget (by_hash ks) (hash_token C token)"

definition keystore_insert :: "key_store \<Rightarrow> virtual_key \<Rightarrow> key_store" where
  "keystore_insert ks k = ks\<lparr>by_hash := tput (vk_hash k) k (by_hash ks)\<rparr>"

definition keystore_replace_all :: "key_store \<Rightarrow> virtual_key list \<Rightarrow> key_store" where
  "keystore_replace_all ks keys = ks\<lparr>by_hash := tcollect (map (\<lambda>k. (vk_hash k, k)) keys)\<rparr>"

definition keystore_remove_by_id :: "key_store \<Rightarrow> string \<Rightarrow> key_store \<times> bool" where
  "keystore_remove_by_id ks kid =
     (case find (\<lambda>(h, k). vk_id k = kid) (by_hash ks) of
        Some (h, _) \<Rightarrow> (ks\<lparr>by_hash := tdel h (by_hash ks)\<rparr>, True)
      | None \<Rightarrow> (ks, False))"

definition keystore_list :: "key_store \<Rightarrow> virtual_key list" where
  "keystore_list ks = map snd (by_hash ks)"

definition keystore_find_by_id :: "key_store \<Rightarrow> string \<Rightarrow> virtual_key option" where
  "keystore_find_by_id ks kid = find (\<lambda>k. vk_id k = kid) (map snd (by_hash ks))"

definition keystore_len :: "key_store \<Rightarrow> nat" where
  "keystore_len ks = length (by_hash ks)"

definition keystore_is_empty :: "key_store \<Rightarrow> bool" where
  "keystore_is_empty ks = (by_hash ks = [])"

section \<open>Constant-time comparison\<close>

definition byte_of_char :: "char \<Rightarrow> u8" where
  "byte_of_char c = of_nat (of_char c)"

definition constant_time_eq :: "bytes \<Rightarrow> bytes \<Rightarrow> bool" where
  "constant_time_eq a b =
     (if length a \<noteq> length b then False
      else fold (\<lambda>(x, y) diff. diff OR (byte_of_char x XOR byte_of_char y)) (zip a b) 0 = 0)"

section \<open>Well-formed stores\<close>

text \<open>Every entry is filed under its own hash, and no hash is filed twice.\<close>

definition keystore_wf :: "key_store \<Rightarrow> bool" where
  "keystore_wf ks = (table_wf (by_hash ks) \<and> list_all (\<lambda>(h, k). h = vk_hash k) (by_hash ks))"

lemma keystore_wf_insert: "keystore_wf ks \<Longrightarrow> keystore_wf (keystore_insert ks k)"
  using set_tput_subset [of "vk_hash k" k "by_hash ks"]
  by (auto simp: keystore_wf_def keystore_insert_def list_all_iff)

lemma tcollect_filed: "(h, k) \<in> set (tcollect (map (\<lambda>k. (f k, k)) ks)) \<Longrightarrow> h = f k"
proof -
  assume "(h, k) \<in> set (tcollect (map (\<lambda>k. (f k, k)) ks))"
  then have "tget (tcollect (map (\<lambda>k. (f k, k)) ks)) h = Some k"
    by (simp add: tget_in_set)
  then show ?thesis
    by (auto simp: tget_tcollect dest!: map_of_SomeD)
qed

lemma keystore_wf_new: "keystore_wf (keystore_new keys)"
  by (auto simp: keystore_wf_def keystore_new_def list_all_iff dest: tcollect_filed)

lemma keystore_wf_replace_all: "keystore_wf (keystore_replace_all ks keys)"
  by (auto simp: keystore_wf_def keystore_replace_all_def list_all_iff dest: tcollect_filed)

lemma keystore_wf_remove: "keystore_wf ks \<Longrightarrow> keystore_wf (fst (keystore_remove_by_id ks kid))"
  by (auto simp: keystore_wf_def keystore_remove_by_id_def list_all_iff set_tdel
      split: option.split)

lemmas keystore_wf_intros =
  keystore_wf_new keystore_wf_insert keystore_wf_replace_all keystore_wf_remove

lemma keystore_authenticate_SomeD:
  "keystore_wf ks \<Longrightarrow> keystore_authenticate C ks token = Some k \<Longrightarrow>
     hash_token C token = vk_hash k \<and> k \<in> set (keystore_list ks)"
proof -
  assume wf: "keystore_wf ks" and "keystore_authenticate C ks token = Some k"
  then have "(hash_token C token, k) \<in> set (by_hash ks)"
    by (simp add: keystore_authenticate_def tget_SomeD)
  with wf show ?thesis
    by (force simp: keystore_wf_def keystore_list_def list_all_iff)
qed

lemma keystore_authenticate_insert:
  "keystore_authenticate C (keystore_insert ks k) token =
     (if hash_token C token = vk_hash k then Some k else keystore_authenticate C ks token)"
  by (simp add: keystore_authenticate_def keystore_insert_def)

lemma keystore_authenticate_replace_all:
  "keystore_authenticate C (keystore_replace_all ks keys) token =
     find (\<lambda>k. vk_hash k = hash_token C token) (rev keys)"
proof -
  have "map_of (map (\<lambda>k. (vk_hash k, k)) xs) h = find (\<lambda>k. vk_hash k = h) xs" for h xs
    by (induction xs) auto
  then show ?thesis
    by (simp add: keystore_authenticate_def keystore_replace_all_def tget_tcollect
        rev_map)
qed

lemma keystore_remove_FalseD:
  "keystore_remove_by_id ks kid = (ks', False) \<Longrightarrow>
     ks' = ks \<and> (\<forall>k \<in> set (keystore_list ks). vk_id k \<noteq> kid)"
  by (force simp: keystore_remove_by_id_def keystore_list_def find_None_iff split: option.splits)

lemma keystore_remove_TrueD:
  "keystore_remove_by_id ks kid = (ks', True) \<Longrightarrow>
     \<exists>h k. (h, k) \<in> set (by_hash ks) \<and> vk_id k = kid \<and> by_hash ks' = tdel h (by_hash ks)"
  by (fastforce simp: keystore_remove_by_id_def find_Some_iff in_set_conv_nth split: option.splits)

section \<open>The comparison decides equality\<close>

lemma byte_of_char_inject: "byte_of_char c = byte_of_char d \<longleftrightarrow> c = d"
proof
  assume "byte_of_char c = byte_of_char d"
  then have "unat (byte_of_char c) = unat (byte_of_char d)" by simp
  moreover have "(of_char x :: nat) < 256" for x by (metis mod_less_divisor of_char_mod_256 zero_less_numeral)
  ultimately have "(of_char c :: nat) = of_char d"
    by (simp add: byte_of_char_def unat_of_nat)
  then show "c = d" by (simp add: of_char_eq_iff)
qed simp

lemma u8_or_eq_0: "(a :: u8) OR b = 0 \<longleftrightarrow> a = 0 \<and> b = 0"
  by (auto simp: or_eq_0_iff)

lemma u8_xor_eq_0: "(a :: u8) XOR b = 0 \<longleftrightarrow> a = b"
  by (metis bit.xor_self xor.right_neutral xor.left_commute)

lemma fold_diff_eq_0:
  "fold (\<lambda>(x, y) diff. diff OR (byte_of_char x XOR byte_of_char y)) xys d = 0 \<longleftrightarrow>
     d = 0 \<and> (\<forall>(x, y) \<in> set xys. x = y)"
  by (induction xys arbitrary: d)
    (auto simp: u8_or_eq_0 u8_xor_eq_0 byte_of_char_inject)

lemma zip_all_eq: "length a = length b \<Longrightarrow> (\<forall>(x, y) \<in> set (zip a b). x = y) \<longleftrightarrow> a = b"
  by (induction a b rule: list_induct2) auto

lemma constant_time_eq_iff: "constant_time_eq a b \<longleftrightarrow> a = b"
  by (auto simp: constant_time_eq_def fold_diff_eq_0 zip_all_eq)

end
