(* ===== verification/Keyed.thy ===== *)
theory Keyed
  imports Prelude
begin

text \<open>
  The interface the rate limiter and the spend tracker share: state held per key identifier,
  a step that touches one key's entry, and \<open>forget\<close>, which drops it. The client lemma is
  tenant isolation: what a sequence of steps leaves for a key depends on that key's steps
  only.
\<close>

datatype 'i key_event = KStep string 'i | KForget string

fun event_key :: "'i key_event \<Rightarrow> string" where
  "event_key (KStep k i) = k"
| "event_key (KForget k) = k"

fun keyed_run ::
  "('s \<Rightarrow> string \<Rightarrow> 'i \<Rightarrow> 's) \<Rightarrow> ('s \<Rightarrow> string \<Rightarrow> 's) \<Rightarrow> 's \<Rightarrow> 'i key_event list \<Rightarrow> 's" where
  "keyed_run step forget s [] = s"
| "keyed_run step forget s (KStep k i # es) = keyed_run step forget (step s k i) es"
| "keyed_run step forget s (KForget k # es) = keyed_run step forget (forget s k) es"

lemma keyed_run_append:
  "keyed_run step forget s (es @ fs) = keyed_run step forget (keyed_run step forget s es) fs"
  by (induction step forget s es rule: keyed_run.induct) simp_all

locale keyed_state =
  fixes entry :: "'s \<Rightarrow> string \<Rightarrow> 'e option"
    and step :: "'s \<Rightarrow> string \<Rightarrow> 'i \<Rightarrow> 's"
    and forget :: "'s \<Rightarrow> string \<Rightarrow> 's"
    and local_step :: "'e option \<Rightarrow> 'i \<Rightarrow> 'e"
  assumes entry_step: "entry (step s k i) k' = (if k' = k then Some (local_step (entry s k) i) else entry s k')"
    and entry_forget: "entry (forget s k) k' = (if k' = k then None else entry s k')"
begin

lemma entry_run_cong:
  "entry s k = entry s' k \<Longrightarrow>
     entry (keyed_run step forget s es) k =
     entry (keyed_run step forget s' (filter (\<lambda>e. event_key e = k) es)) k"
proof (induction es arbitrary: s s')
  case Nil
  then show ?case by simp
next
  case (Cons e es)
  show ?case
  proof (cases e)
    case (KStep k' i)
    with Cons.prems Cons.IH [of "step s k' i" "if k' = k then step s' k' i else s'"]
    show ?thesis by (auto simp: entry_step)
  next
    case (KForget k')
    with Cons.prems Cons.IH [of "forget s k'" "if k' = k then forget s' k' else s'"]
    show ?thesis by (auto simp: entry_forget)
  qed
qed

lemma run_isolated:
  "entry (keyed_run step forget s es) k =
     entry (keyed_run step forget s (filter (\<lambda>e. event_key e = k) es)) k"
  by (rule entry_run_cong) (rule refl)

lemma forget_is_fresh: "entry s0 k = None \<Longrightarrow>
     entry (keyed_run step forget (forget s k) es) k = entry (keyed_run step forget s0 es) k"
  using entry_run_cong [of "forget s k" k s0 es] entry_run_cong [of s0 k s0 es]
  by (simp add: entry_forget)

end

end
