(* ===== verification/RateLimiter.thy ===== *)
theory RateLimiter
  imports Auth Keyed
begin

text \<open>
  The per-key token bucket of \<open>auth.rs\<close>. Instants are nanoseconds on the monotonic clock;
  every clock reading is an argument. The mutex makes each call one atomic step on the table.
\<close>

section \<open>Token buckets\<close>

record token_bucket =
  capacity :: f64
  refill_per_second :: f64
  available :: f64
  last_refill :: nat

definition bucket_new :: "u32 \<Rightarrow> nat \<Rightarrow> token_bucket" where
  "bucket_new rps now =
     (let cap = f64_of_nat (unat rps)
      in \<lparr>capacity = cap, refill_per_second = cap, available = cap, last_refill = now\<rparr>)"

text \<open>\<open>Instant::duration_since\<close> is zero when the earlier instant is in the future, as \<open>-\<close> on \<open>nat\<close> is.\<close>

definition try_consume :: "nat \<Rightarrow> token_bucket \<Rightarrow> token_bucket \<times> bool" where
  "try_consume now b =
     (let elapsed = as_secs_f64 (now - last_refill b);
          avail = f64_min (f64_add (available b) (f64_mul elapsed (refill_per_second b))) (capacity b);
          b' = b\<lparr>available := avail, last_refill := now\<rparr>
      in if f64_le (Fin 1) avail then (b'\<lparr>available := f64_sub avail (Fin 1)\<rparr>, True) else (b', False))"

type_synonym rate_limiter = "token_bucket table"

text \<open>
  \<open>now0\<close> is the clock read by \<open>TokenBucket::new\<close> when the entry is created, \<open>now1\<close> the one read by
  \<open>try_consume\<close>.
\<close>

definition rate_limiter_check ::
  "rate_limiter \<Rightarrow> string \<Rightarrow> u32 \<Rightarrow> nat \<Rightarrow> nat \<Rightarrow> rate_limiter \<times> bool" where
  "rate_limiter_check rl key_id rps now0 now1 =
     (let bucket = (case tget rl key_id of Some b \<Rightarrow> b | None \<Rightarrow> bucket_new rps now0);
          (bucket', ok) = try_consume now1 bucket
      in (tput key_id bucket' rl, ok))"

definition rate_limiter_forget :: "rate_limiter \<Rightarrow> string \<Rightarrow> rate_limiter" where
  "rate_limiter_forget rl key_id = tdel key_id rl"

section \<open>Invariant\<close>

text \<open>A bucket of capacity \<open>n\<close> requests holding \<open>a\<close> of them.\<close>

definition bucket_holds :: "nat \<Rightarrow> rat \<Rightarrow> token_bucket \<Rightarrow> bool" where
  "bucket_holds n a b =
     (capacity b = Fin (of_nat n) \<and> refill_per_second b = Fin (of_nat n) \<and> available b = Fin a \<and>
      n < 2 ^ 32 \<and> 0 \<le> a \<and> a \<le> of_nat n \<and> f64_round a = a)"

definition bucket_ok :: "token_bucket \<Rightarrow> bool" where
  "bucket_ok b = (\<exists>n a. bucket_holds n a b)"

definition rate_limiter_ok :: "rate_limiter \<Rightarrow> bool" where
  "rate_limiter_ok rl = (table_wf rl \<and> (\<forall>(k, b) \<in> set rl. bucket_ok b))"

lemma u32_le_2_53: "n < 2 ^ 32 \<Longrightarrow> n \<le> (2 :: nat) ^ 53"
  by simp

lemma of_nat_le_2_53: "n < 2 ^ 32 \<Longrightarrow> (of_nat n :: rat) \<le> 2 ^ 53"
  using u32_le_2_53 [of n] by (metis of_nat_le_iff of_nat_numeral of_nat_power)

lemma bucket_new_holds: "bucket_holds (unat rps) (of_nat (unat rps)) (bucket_new rps now)"
proof -
  have "unat rps < 2 ^ 32" using unsigned_less [of rps] by simp
  moreover from this have "f64_of_nat (unat rps) = Fin (of_nat (unat rps))"
    by (intro f64_of_nat_exact u32_le_2_53)
  moreover from calculation(1) have "f64_round (of_nat (unat rps)) = of_nat (unat rps)"
    by (intro f64_round_exact dyadic53_of_nat u32_le_2_53)
  moreover have "(0 :: rat) \<le> of_nat (unat rps)" by (rule of_nat_0_le_iff)
  ultimately show ?thesis by (simp add: bucket_holds_def bucket_new_def Let_def)
qed

text \<open>A refill amount: a non-negative number, an overflow, or \<open>inf * 0\<close>.\<close>

fun refill_amount :: "f64 \<Rightarrow> bool" where
  "refill_amount NaN = True"
| "refill_amount PInf = True"
| "refill_amount NInf = False"
| "refill_amount (Fin r) = (0 \<le> r)"

lemma f64_of_rat_refill: "0 \<le> q \<Longrightarrow> refill_amount (f64_of_rat q)"
  using f64_round_nonneg [of q] by (simp add: f64_of_rat_def Let_def f64_max_exclusive_def)

lemma refill_add: "refill_amount x \<Longrightarrow> refill_amount y \<Longrightarrow> refill_amount (f64_add x y)"
  by (cases x; cases y) (simp_all add: f64_of_rat_refill)

lemma refill_mul: "refill_amount x \<Longrightarrow> 0 \<le> c \<Longrightarrow> refill_amount (f64_mul x (Fin c))"
  by (cases x) (simp_all add: f64_inf_of_sign_def f64_of_rat_refill)

lemma refill_of_nat: "refill_amount (f64_of_nat n)"
  by (simp add: f64_of_nat_def f64_of_rat_refill)

lemma refill_div: "refill_amount x \<Longrightarrow> 0 < c \<Longrightarrow> refill_amount (f64_div x (Fin c))"
  by (cases x) (simp_all add: f64_inf_of_sign_def f64_of_rat_refill)

lemma f64_billion: "f64_of_nat (10 ^ 9) = Fin (10 ^ 9)"
  using f64_of_nat_exact [of "10 ^ 9"] by simp

lemma refill_secs: "refill_amount (as_secs_f64 n)"
  unfolding as_secs_f64_def f64_billion
  by (intro refill_add refill_div refill_of_nat) simp

lemma min_refill:
  assumes a: "0 \<le> a" "a \<le> of_nat n" "f64_round a = a" and n: "n < 2 ^ 32" and x: "refill_amount x"
  shows "\<exists>a'. f64_min (f64_add (Fin a) x) (Fin (of_nat n)) = Fin a' \<and>
     a \<le> a' \<and> a' \<le> of_nat n \<and> f64_round a' = a'"
proof -
  have nn: "f64_round (of_nat n) = of_nat n"
    using n by (intro f64_round_exact dyadic53_of_nat u32_le_2_53)
  consider "x = NaN" | "x = PInf" | r where "0 \<le> r" "x = Fin r"
    using x by (cases x) auto
  then show ?thesis
  proof cases
    case 1 with a nn show ?thesis by (auto simp: f64_min_def)
  next
    case 2 with a nn show ?thesis by (auto simp: f64_min_def)
  next
    case (3 r)
    have "a \<le> f64_round (a + r)" using f64_round_mono [of a "a + r"] a 3 by simp
    then show ?thesis using 3 a nn
      by (auto simp: f64_min_def f64_of_rat_def Let_def f64_max_exclusive_def)
  qed
qed

lemma sub_one_exact:
  assumes "1 \<le> a" "a \<le> of_nat n" "n < 2 ^ 32" "f64_round a = a"
  shows "f64_sub (Fin a) (Fin 1) = Fin (a - 1) \<and> f64_round (a - 1) = a - 1"
proof -
  have "(of_nat n :: rat) \<le> 2 ^ 53" using assms(3) by (rule of_nat_le_2_53)
  with assms have hi: "a \<le> 2 ^ 53" by linarith
  have "dyadic53 a" using f64_round_dyadic [of a] assms(4) by simp
  then have d: "dyadic53 (a - 1)" using assms(1) hi by (intro dyadic53_minus_one)
  have "\<bar>a - 1\<bar> \<le> f64_big" using assms(1) hi by (intro le_f64_big) simp
  with d show ?thesis by (simp add: f64_sub_def f64_of_rat_exact f64_round_exact)
qed

text \<open>
  One call: the refill never removes tokens and never exceeds the capacity, and the outcome
  is whether a whole token is there, which is then taken exactly.
\<close>

lemma try_consume_holds:
  assumes "bucket_holds n a b"
  obtains a' where "a \<le> a'" "a' \<le> of_nat n"
    and "snd (try_consume now b) \<longleftrightarrow> 1 \<le> a'"
    and "bucket_holds n (if 1 \<le> a' then a' - 1 else a') (fst (try_consume now b))"
    and "last_refill (fst (try_consume now b)) = now"
    and "f64_min (f64_add (available b) (f64_mul (as_secs_f64 (now - last_refill b)) (refill_per_second b)))
      (capacity b) = Fin a'"
proof -
  let ?x = "f64_mul (as_secs_f64 (now - last_refill b)) (refill_per_second b)"
  have "refill_amount ?x" using assms by (auto simp: bucket_holds_def intro!: refill_mul refill_secs)
  then obtain a' where a': "f64_min (f64_add (Fin a) ?x) (Fin (of_nat n)) = Fin a'"
    "a \<le> a'" "a' \<le> of_nat n" "f64_round a' = a'"
    using assms min_refill [of a n ?x] by (auto simp: bucket_holds_def)
  show ?thesis
  proof (rule that [of a'])
    show "a \<le> a'" "a' \<le> of_nat n" by fact+
    have tc: "try_consume now b =
      (if 1 \<le> a' then (b\<lparr>available := Fin (a' - 1), last_refill := now\<rparr>, True)
       else (b\<lparr>available := Fin a', last_refill := now\<rparr>, False))"
      using assms a' sub_one_exact [of a' n]
      by (auto simp: try_consume_def Let_def bucket_holds_def)
    show "snd (try_consume now b) \<longleftrightarrow> 1 \<le> a'" by (simp add: tc)
    show "bucket_holds n (if 1 \<le> a' then a' - 1 else a') (fst (try_consume now b))"
      using assms a' sub_one_exact [of a' n] by (auto simp: tc bucket_holds_def)
    show "last_refill (fst (try_consume now b)) = now" by (simp add: tc)
    show "f64_min (f64_add (available b) ?x) (capacity b) = Fin a'" using assms a'(1) by (simp add: bucket_holds_def)
  qed
qed

lemma try_consume_ok: "bucket_ok b \<Longrightarrow> bucket_ok (fst (try_consume now b))"
  unfolding bucket_ok_def using try_consume_holds by metis

section \<open>The limiter\<close>

lemma rate_limiter_check_entry:
  "tget (fst (rate_limiter_check rl k rps now0 now1)) k' =
     (if k' = k
      then Some (fst (try_consume now1 (case tget rl k of Some b \<Rightarrow> b | None \<Rightarrow> bucket_new rps now0)))
      else tget rl k')"
  by (simp add: rate_limiter_check_def Let_def split: prod.split)

lemma rate_limiter_check_result:
  "snd (rate_limiter_check rl k rps now0 now1) =
     snd (try_consume now1 (case tget rl k of Some b \<Rightarrow> b | None \<Rightarrow> bucket_new rps now0))"
  by (simp add: rate_limiter_check_def Let_def split: prod.split)

lemma rate_limiter_ok_iff:
  "rate_limiter_ok rl \<longleftrightarrow> table_wf rl \<and> (\<forall>k b. tget rl k = Some b \<longrightarrow> bucket_ok b)"
  by (auto simp: rate_limiter_ok_def tget_in_set)

lemma rate_limiter_ok_check:
  "rate_limiter_ok rl \<Longrightarrow> rate_limiter_ok (fst (rate_limiter_check rl k rps now0 now1))"
proof -
  assume ok: "rate_limiter_ok rl"
  have "table_wf (fst (rate_limiter_check rl k rps now0 now1))"
    using ok by (simp add: rate_limiter_ok_def rate_limiter_check_def Let_def split: prod.split)
  moreover have "bucket_ok (bucket_new rps now0)"
    using bucket_new_holds by (auto simp: bucket_ok_def)
  ultimately show ?thesis
    using ok by (auto simp: rate_limiter_ok_iff rate_limiter_check_entry intro!: try_consume_ok
        split: option.splits if_splits)
qed

lemma rate_limiter_ok_forget: "rate_limiter_ok rl \<Longrightarrow> rate_limiter_ok (rate_limiter_forget rl k)"
  by (auto simp: rate_limiter_ok_iff rate_limiter_forget_def split: if_splits)

interpretation rl: keyed_state tget
  "\<lambda>rl k (rps, now0, now1). fst (rate_limiter_check rl k rps now0 now1)"
  rate_limiter_forget
  "\<lambda>e (rps, now0, now1). fst (try_consume now1 (case e of Some b \<Rightarrow> b | None \<Rightarrow> bucket_new rps now0))"
  by unfold_locales (auto simp: rate_limiter_check_entry rate_limiter_forget_def split: prod.split)

text \<open>Calls for one key at the given instants, with their outcomes.\<close>

fun rate_limiter_run ::
  "rate_limiter \<Rightarrow> string \<Rightarrow> u32 \<Rightarrow> nat list \<Rightarrow> rate_limiter \<times> bool list" where
  "rate_limiter_run rl k rps [] = (rl, [])"
| "rate_limiter_run rl k rps (t # ts) =
     (let (rl', ok) = rate_limiter_check rl k rps t t;
          (rl'', oks) = rate_limiter_run rl' k rps ts
      in (rl'', ok # oks))"

text \<open>Any interleaving of checks and revocations, of any keys.\<close>

definition limiter_run :: "rate_limiter \<Rightarrow> (u32 \<times> nat \<times> nat) key_event list \<Rightarrow> rate_limiter" where
  "limiter_run rl es =
     keyed_run (\<lambda>rl k (rps, now0, now1). fst (rate_limiter_check rl k rps now0 now1)) rate_limiter_forget rl es"

section \<open>Bursts\<close>

lemma as_secs_f64_0: "as_secs_f64 0 = Fin 0"
  unfolding as_secs_f64_def f64_billion by (simp add: f64_of_nat_def)

lemma try_consume_no_time:
  assumes "bucket_holds n a b" "now \<le> last_refill b"
  shows "snd (try_consume now b) \<longleftrightarrow> 1 \<le> a"
    and "bucket_holds n (if 1 \<le> a then a - 1 else a) (fst (try_consume now b))"
proof -
  have "f64_of_rat a = Fin a"
  proof (rule f64_of_rat_exact)
    show "dyadic53 a" using f64_round_dyadic [of a] assms(1) by (simp add: bucket_holds_def)
    have "(of_nat n :: rat) \<le> 2 ^ 53"
      using assms(1) by (intro of_nat_le_2_53) (simp add: bucket_holds_def)
    then show "\<bar>a\<bar> \<le> f64_big" using assms(1) by (intro le_f64_big) (auto simp: bucket_holds_def)
  qed
  then have tc: "try_consume now b =
      (if 1 \<le> a then (b\<lparr>available := f64_sub (Fin a) (Fin 1), last_refill := now\<rparr>, True)
       else (b\<lparr>available := Fin a, last_refill := now\<rparr>, False))"
    using assms by (auto simp: try_consume_def Let_def bucket_holds_def as_secs_f64_0 f64_min_def)
  show "snd (try_consume now b) \<longleftrightarrow> 1 \<le> a" by (simp add: tc)
  show "bucket_holds n (if 1 \<le> a then a - 1 else a) (fst (try_consume now b))"
    using assms(1) sub_one_exact [of a n] by (auto simp: tc bucket_holds_def)
qed

lemma run_burst:
  assumes "tget rl k = Some b" "bucket_holds n (of_nat c) b" "last_refill b = t"
  shows "snd (rate_limiter_run rl k rps (replicate m t)) = replicate (min m c) True @ replicate (m - c) False"
  using assms
proof (induction m arbitrary: rl b c)
  case 0
  then show ?case by simp
next
  case (Suc m)
  let ?rl = "fst (rate_limiter_check rl k rps t t)"
  let ?b = "fst (try_consume t b)"
  note nt = try_consume_no_time [OF Suc.prems(2), of t]
  have b: "tget ?rl k = Some ?b" using Suc.prems(1) by (simp add: rate_limiter_check_entry)
  have lr: "last_refill ?b = t" by (simp add: try_consume_def Let_def)
  have ok: "snd (rate_limiter_check rl k rps t t) \<longleftrightarrow> 1 \<le> c"
    using Suc.prems nt(1) by (simp add: rate_limiter_check_result of_nat_le_iff [of 1, simplified])
  have "(if (1 :: rat) \<le> of_nat c then of_nat c - 1 else of_nat c :: rat) = of_nat (c - 1)"
    by (cases c) auto
  then have "bucket_holds n (of_nat (c - 1)) ?b" using nt(2) Suc.prems(3) by simp
  from Suc.IH [OF b this lr] ok show ?case
    by (cases c) (simp_all add: Let_def split_def)
qed

text \<open>The same from an absent entry: the first call creates a full bucket.\<close>

lemma run_burst_fresh_outcomes:
  assumes "tget rl k = None"
  shows "snd (rate_limiter_run rl k rps (replicate m t)) =
     replicate (min m (unat rps)) True @ replicate (m - unat rps) False"
proof (cases m)
  case (Suc m')
  define rl0 where "rl0 = tput k (bucket_new rps t) rl"
  have e: "tget rl0 k = Some (bucket_new rps t)" by (simp add: rl0_def)
  have same: "rate_limiter_check rl0 k rps t t = rate_limiter_check rl k rps t t"
    using assms by (simp add: rate_limiter_check_def rl0_def)
  have "snd (rate_limiter_run rl0 k rps (replicate m t)) =
      replicate (min m (unat rps)) True @ replicate (m - unat rps) False"
    by (rule run_burst [OF e bucket_new_holds]) (simp add: bucket_new_def Let_def)
  then show ?thesis using Suc by (simp add: same)
qed simp

section \<open>Refilling\<close>

lemma f64_of_rat_ge:
  "a \<le> q \<Longrightarrow> 0 \<le> a \<Longrightarrow> f64_round a = a \<Longrightarrow> f64_le (Fin a) (f64_of_rat q)"
  using f64_round_mono [of a q] by (simp add: f64_of_rat_def Let_def f64_max_exclusive_def)

lemma f64_round_1 [simp]: "f64_round 1 = 1"
  using f64_round_exact [OF dyadic53_of_nat, of 1] by simp

lemma f64_add_ge:
  "f64_le (Fin 1) x \<Longrightarrow> f64_le (Fin 0) y \<Longrightarrow> f64_le (Fin 1) (f64_add x y)"
  by (cases x; cases y) (simp_all add: f64_of_rat_ge)

lemma f64_mul_ge: "f64_le (Fin 1) x \<Longrightarrow> 1 \<le> c \<Longrightarrow> f64_le (Fin 1) (f64_mul x (Fin c))"
  by (cases x) (auto simp: f64_inf_of_sign_def intro!: f64_of_rat_ge mult_ge1_I
      intro: order_trans [OF _ mult_mono [of 1 _ 1 c, simplified]])

lemma f64_div_ge_0: "f64_le (Fin 0) x \<Longrightarrow> 0 < c \<Longrightarrow> f64_le (Fin 0) (f64_div x (Fin c))"
  by (cases x) (simp_all add: f64_inf_of_sign_def f64_of_rat_nonneg)

lemma as_secs_f64_ge_1: "10 ^ 9 \<le> n \<Longrightarrow> f64_le (Fin 1) (as_secs_f64 n)"
proof -
  assume n: "10 ^ 9 \<le> n"
  have "f64_le (Fin 1) (f64_of_nat (n div 10 ^ 9))"
  proof -
    have "1 \<le> n div 10 ^ 9" using n by (simp add: div_greater_zero_iff Suc_leI)
    then have "(1 :: rat) \<le> of_nat (n div 10 ^ 9)" by (metis of_nat_1 of_nat_le_iff)
    then show ?thesis unfolding f64_of_nat_def by (rule f64_of_rat_ge) simp_all
  qed
  moreover have "f64_le (Fin 0) (f64_div (f64_of_nat (n mod 10 ^ 9)) (Fin (10 ^ 9)))"
    by (rule f64_div_ge_0) (simp_all add: f64_of_nat_def f64_of_rat_nonneg)
  ultimately show ?thesis unfolding as_secs_f64_def f64_billion by (rule f64_add_ge)
qed

lemma try_consume_after_second:
  assumes "bucket_holds n a b" "1 \<le> n" "last_refill b + 10 ^ 9 \<le> now"
  shows "snd (try_consume now b)"
proof -
  let ?x = "f64_mul (as_secs_f64 (now - last_refill b)) (refill_per_second b)"
  have n1: "(1 :: rat) \<le> of_nat n" using assms(2) by (metis of_nat_1 of_nat_le_iff)
  have x: "f64_le (Fin 1) ?x"
    using assms as_secs_f64_ge_1 [of "now - last_refill b"] n1
    by (simp add: bucket_holds_def f64_mul_ge)
  have "f64_le (Fin 1) (f64_add (Fin a) ?x)"
    using x assms(1) by (cases ?x) (auto simp: bucket_holds_def f64_of_rat_ge)
  then have "f64_le (Fin 1) (f64_min (f64_add (Fin a) ?x) (Fin (of_nat n)))"
    using n1 by (simp add: f64_min_def)
  then show ?thesis using assms(1) by (simp add: try_consume_def Let_def bucket_holds_def)
qed

section \<open>Properties\<close>

text \<open>
  C22. Burst bound: of any number of simultaneous requests of a key the limiter has not seen, exactly
  the first \<open>rps\<close> are admitted, in floating-point arithmetic as in exact arithmetic.
\<close>

theorem rate_limiter_burst:
  assumes "tget rl k = None"
  shows "snd (rate_limiter_run rl k rps (replicate m t)) =
     replicate (min m (unat rps)) True @ replicate (m - unat rps) False"
  using run_burst_fresh_outcomes [OF assms] .

theorem rate_limiter_burst_witness:
  "snd (rate_limiter_run [] ''vp_key'' 2 (replicate 4 7)) = replicate 2 True @ replicate 2 False"
  using rate_limiter_burst [of "[]" "''vp_key''" 2 4 7] by simp

text \<open>
  C24. A throttled key recovers: in every limiter the operations produce, a key whose limit is at least
  one request per second is admitted again once a second has passed since its last request, whatever
  the bucket held and whatever limit the caller now passes.
\<close>

theorem rate_limiter_recovers:
  assumes "rate_limiter_ok rl" and "tget rl k = Some b" and "f64_le (Fin 1) (capacity b)"
    and "last_refill b + 10 ^ 9 \<le> now1"
  shows "snd (rate_limiter_check rl k rps now0 now1)"
proof -
  obtain n a where b: "bucket_holds n a b"
    using assms(1,2) unfolding rate_limiter_ok_iff bucket_ok_def by blast
  then have "1 \<le> n" using assms(3) by (simp add: bucket_holds_def)
  with b assms(2,4) show ?thesis
    by (simp add: rate_limiter_check_result try_consume_after_second)
qed

theorem rate_limiter_recovers_witness:
  "snd (rate_limiter_check
     (fst (rate_limiter_check [] ''vp_key'' 1 0 0)) ''vp_key'' 1 (10 ^ 9) (10 ^ 9))"
proof (rule rate_limiter_recovers)
  show "rate_limiter_ok (fst (rate_limiter_check [] ''vp_key'' 1 0 0))"
    by (rule rate_limiter_ok_check) (simp add: rate_limiter_ok_def)
  show "tget (fst (rate_limiter_check [] ''vp_key'' 1 0 0)) ''vp_key'' =
      Some (fst (try_consume 0 (bucket_new 1 0)))"
    by (simp add: rate_limiter_check_entry)
  show "f64_le (Fin 1) (capacity (fst (try_consume 0 (bucket_new 1 0))))"
    using f64_of_nat_exact [of 1] by (simp add: try_consume_def bucket_new_def Let_def)
  show "last_refill (fst (try_consume 0 (bucket_new 1 0))) + 10 ^ 9 \<le> 10 ^ 9"
    by (simp add: try_consume_def bucket_new_def Let_def)
qed

text \<open>
  Tenant isolation of rate limits: the decision for a key after any interleaving of checks and
  revocations of any keys is the decision after the events of that key alone.
\<close>

theorem rate_limiter_isolation:
  "snd (rate_limiter_check (limiter_run rl es) k rps now0 now1) =
   snd (rate_limiter_check (limiter_run rl (filter (\<lambda>e. event_key e = k) es)) k rps now0 now1)"
  unfolding rate_limiter_check_result limiter_run_def by (subst rl.run_isolated) (rule refl)

text \<open>
  A changed limit does not reach a bucket that exists: while the entry of a key is in the table
  the configured limit passed with the request has no influence on the state or the outcome.
\<close>

theorem rate_limiter_existing_bucket_ignores_limit:
  assumes "tget rl k \<noteq> None"
  shows "rate_limiter_check rl k rps now0 now1 = rate_limiter_check rl k rps' now0' now1"
  using assms by (auto simp: rate_limiter_check_def)

theorem rate_limiter_existing_bucket_ignores_limit_witness:
  "rate_limiter_check [(''vp_key'', bucket_new 1 0)] ''vp_key'' 1000 5 5 =
   rate_limiter_check [(''vp_key'', bucket_new 1 0)] ''vp_key'' 1 5 5"
  by (rule rate_limiter_existing_bucket_ignores_limit) (simp add: tget_def)

end
