(* ===== verification/SpendTracker.thy ===== *)
theory SpendTracker
  imports Auth Keyed
begin

text \<open>
  The per-key spend ledger of \<open>auth.rs\<close>: one running total per key, tagged with the period it
  belongs to and reset when the tag changes.
\<close>

section \<open>Periods\<close>

text \<open>Rust's \<open>/\<close> on \<open>i64\<close> truncates towards zero; \<open>as u64\<close> wraps modulo \<open>2^64\<close>.\<close>

definition i64_div :: "int \<Rightarrow> int \<Rightarrow> int" where
  "i64_div a b = sgn a * sgn b * (\<bar>a\<bar> div \<bar>b\<bar>)"

definition current_period_token :: "utc \<Rightarrow> period \<Rightarrow> u64" where
  "current_period_token now p =
     (case p of
        Day \<Rightarrow> word_of_int (i64_div (unix_timestamp now) 86400)
      | Week \<Rightarrow> word_of_int (utc_year now) * 100 + of_nat (utc_iso_week now)
      | Month \<Rightarrow> word_of_int (utc_year now) * 100 + of_nat (utc_month now))"

section \<open>The tracker\<close>

record spend_state =
  period_token :: u64
  cumulative_usd :: f64

type_synonym spend_tracker = "spend_state table"

definition spend_pre_check :: "spend_tracker \<Rightarrow> string \<Rightarrow> spend_limit \<Rightarrow> utc \<Rightarrow> bool" where
  "spend_pre_check st key_id limit now =
     (let token = current_period_token now (sl_period limit)
      in case tget st key_id of
           Some s \<Rightarrow> if period_token s = token then f64_lt (cumulative_usd s) (amount_usd limit) else True
         | None \<Rightarrow> True)"

definition spend_record :: "spend_tracker \<Rightarrow> string \<Rightarrow> period \<Rightarrow> f64 \<Rightarrow> utc \<Rightarrow> spend_tracker" where
  "spend_record st key_id p cost now =
     (let token = current_period_token now p;
          s = (case tget st key_id of Some s \<Rightarrow> s | None \<Rightarrow> \<lparr>period_token = token, cumulative_usd = Fin 0\<rparr>);
          s' = (if period_token s \<noteq> token then s\<lparr>period_token := token, cumulative_usd := Fin 0\<rparr> else s)
      in tput key_id (s'\<lparr>cumulative_usd := f64_add (cumulative_usd s') cost\<rparr>) st)"

definition spend_forget :: "spend_tracker \<Rightarrow> string \<Rightarrow> spend_tracker" where
  "spend_forget st key_id = tdel key_id st"

definition spend_current_usd :: "spend_tracker \<Rightarrow> string \<Rightarrow> period \<Rightarrow> utc \<Rightarrow> f64" where
  "spend_current_usd st key_id p now =
     (let token = current_period_token now p
      in case tget st key_id of
           Some s \<Rightarrow> if period_token s = token then cumulative_usd s else Fin 0
         | None \<Rightarrow> Fin 0)"

section \<open>Recording\<close>

definition spend_entry :: "spend_state option \<Rightarrow> period \<Rightarrow> f64 \<Rightarrow> utc \<Rightarrow> spend_state" where
  "spend_entry e p cost now =
     (let token = current_period_token now p
      in \<lparr>period_token = token,
          cumulative_usd =
            f64_add (case e of Some s \<Rightarrow> if period_token s = token then cumulative_usd s else Fin 0
                             | None \<Rightarrow> Fin 0) cost\<rparr>)"

lemma tget_spend_record:
  "tget (spend_record st k p cost now) k' =
     (if k' = k then Some (spend_entry (tget st k) p cost now) else tget st k')"
  by (simp add: spend_record_def spend_entry_def Let_def split: option.split)

interpretation sp: keyed_state tget
  "\<lambda>st k (p, cost, now). spend_record st k p cost now"
  spend_forget
  "\<lambda>e (p, cost, now). spend_entry e p cost now"
  by unfold_locales (auto simp: tget_spend_record spend_forget_def split: prod.split)

lemma current_usd_record:
  "spend_current_usd (spend_record st k p cost now) k p now' =
     (if current_period_token now' p = current_period_token now p
      then f64_add (spend_current_usd st k p now) cost else Fin 0)"
  by (simp add: spend_current_usd_def tget_spend_record spend_entry_def Let_def split: option.split)

lemma pre_check_record:
  "spend_pre_check (spend_record st k p cost now) k limit now' =
     (current_period_token now p = current_period_token now' (sl_period limit) \<longrightarrow>
      f64_lt (f64_add (spend_current_usd st k p now) cost) (amount_usd limit))"
  by (simp add: spend_pre_check_def spend_current_usd_def tget_spend_record spend_entry_def Let_def
      split: option.split)

text \<open>An amount of money: finite and representable, or an overflow.\<close>

fun f64_amount :: "f64 \<Rightarrow> bool" where
  "f64_amount NaN = False"
| "f64_amount NInf = False"
| "f64_amount PInf = True"
| "f64_amount (Fin r) = (0 \<le> r \<and> f64_round r = r)"

lemma f64_amount_0 [simp]: "f64_amount (Fin 0)"
  by simp

lemma f64_add_amount_le: "f64_amount a \<Longrightarrow> f64_amount c \<Longrightarrow> f64_le a (f64_add a c)"
proof (cases a; cases c)
  fix x y assume "f64_amount a" "f64_amount c" "a = Fin x" "c = Fin y"
  then have "x \<le> f64_round (x + y)" "0 \<le> x" using f64_round_mono [of x "x + y"] by auto
  with \<open>a = Fin x\<close> \<open>c = Fin y\<close> show ?thesis
    by (simp add: f64_of_rat_def Let_def f64_max_exclusive_def)
qed auto

lemma f64_add_amount: "f64_amount a \<Longrightarrow> f64_amount c \<Longrightarrow> f64_amount (f64_add a c)"
proof (cases a; cases c)
  fix x y assume "f64_amount a" "f64_amount c" "a = Fin x" "c = Fin y"
  then have "0 \<le> f64_round (x + y)" by (intro f64_round_nonneg) simp
  with \<open>a = Fin x\<close> \<open>c = Fin y\<close> show ?thesis
    by (simp add: f64_of_rat_def Let_def f64_max_exclusive_def)
qed auto

lemma f64_not_lt_mono: "\<not> f64_lt a m \<Longrightarrow> f64_le a b \<Longrightarrow> \<not> f64_lt b m"
  by (cases a; cases b; cases m) auto

text \<open>Every total in the ledger is an amount.\<close>

definition spend_tracker_ok :: "spend_tracker \<Rightarrow> bool" where
  "spend_tracker_ok st = (table_wf st \<and> (\<forall>(k, s) \<in> set st. f64_amount (cumulative_usd s)))"

lemma spend_tracker_ok_iff:
  "spend_tracker_ok st \<longleftrightarrow>
     table_wf st \<and> (\<forall>k s. tget st k = Some s \<longrightarrow> f64_amount (cumulative_usd s))"
  by (auto simp: spend_tracker_ok_def tget_in_set)

lemma spend_tracker_okD: "spend_tracker_ok st \<Longrightarrow> table_wf st"
  by (simp add: spend_tracker_ok_def)

lemma spend_entry_amount:
  "(\<And>s. e = Some s \<Longrightarrow> f64_amount (cumulative_usd s)) \<Longrightarrow> f64_amount cost \<Longrightarrow>
     f64_amount (cumulative_usd (spend_entry e p cost now))"
  by (cases e) (auto simp: spend_entry_def Let_def intro!: f64_add_amount)

lemma table_wf_spend [simp]:
  "table_wf st \<Longrightarrow> table_wf (spend_record st k p cost now)" "table_wf st \<Longrightarrow> table_wf (spend_forget st k)"
  by (simp_all add: spend_record_def spend_forget_def Let_def)

lemma spend_tracker_ok_record:
  "spend_tracker_ok st \<Longrightarrow> f64_amount cost \<Longrightarrow> spend_tracker_ok (spend_record st k p cost now)"
proof -
  assume "spend_tracker_ok st" "f64_amount cost"
  then show ?thesis
    by (auto simp: spend_tracker_ok_iff tget_spend_record intro!: spend_entry_amount)
qed

lemma spend_tracker_ok_forget: "spend_tracker_ok st \<Longrightarrow> spend_tracker_ok (spend_forget st k)"
  by (auto simp: spend_tracker_ok_iff spend_forget_def split: if_splits)

lemma current_usd_amount: "spend_tracker_ok st \<Longrightarrow> f64_amount (spend_current_usd st k p now)"
  by (auto simp: spend_tracker_ok_iff spend_current_usd_def Let_def split: option.split)

lemma exhausted_after_record:
  assumes "spend_tracker_ok st" "\<not> spend_pre_check st k limit now" "f64_amount c"
    and "current_period_token t (sl_period limit) = current_period_token now (sl_period limit)"
  shows "\<not> spend_pre_check (spend_record st k (sl_period limit) c t) k limit now"
proof -
  have "\<not> f64_lt (spend_current_usd st k (sl_period limit) t) (amount_usd limit)"
    using assms(2,4) by (auto simp: spend_pre_check_def spend_current_usd_def Let_def split: option.splits if_splits)
  moreover have "f64_le (spend_current_usd st k (sl_period limit) t)
      (f64_add (spend_current_usd st k (sl_period limit) t) c)"
    using current_usd_amount [OF assms(1)] assms(3) by (rule f64_add_amount_le)
  ultimately show ?thesis using assms(4) by (simp add: pre_check_record f64_not_lt_mono)
qed

section \<open>Histories\<close>

text \<open>Any interleaving of charges and revocations, of any keys.\<close>

definition ledger_run :: "spend_tracker \<Rightarrow> (period \<times> f64 \<times> utc) key_event list \<Rightarrow> spend_tracker" where
  "ledger_run st es = keyed_run (\<lambda>st k (p, cost, now). spend_record st k p cost now) spend_forget st es"

lemma ledger_run_simps [simp]:
  "ledger_run st [] = st"
  "ledger_run st (KStep k (p, c, t) # es) = ledger_run (spend_record st k p c t) es"
  "ledger_run st (KForget k # es) = ledger_run (spend_forget st k) es"
  by (simp_all add: ledger_run_def)

lemma ledger_run_append: "ledger_run st (es @ fs) = ledger_run (ledger_run st es) fs"
  by (simp add: ledger_run_def keyed_run_append)

lemma ledger_run_isolated:
  "tget (ledger_run st es) k = tget (ledger_run st (filter (\<lambda>e. event_key e = k) es)) k"
  unfolding ledger_run_def by (rule sp.run_isolated)

lemma current_usd_entry:
  "tget st k = tget st' k \<Longrightarrow> spend_current_usd st k p now = spend_current_usd st' k p now"
  by (simp add: spend_current_usd_def)

lemma pre_check_entry:
  "tget st k = tget st' k \<Longrightarrow> spend_pre_check st k limit now = spend_pre_check st' k limit now"
  by (simp add: spend_pre_check_def)

text \<open>The charges of one key in one period, added in the order they were made.\<close>

definition charges_total :: "(f64 \<times> utc) list \<Rightarrow> period \<Rightarrow> u64 \<Rightarrow> f64" where
  "charges_total cs p token =
     foldl f64_add (Fin 0) (map fst (filter (\<lambda>(c, t). current_period_token t p = token) cs))"

lemma charges_total_snoc:
  "charges_total (cs @ [(c, t)]) p token =
     (if current_period_token t p = token then f64_add (charges_total cs p token) c
      else charges_total cs p token)"
  by (simp add: charges_total_def)

lemma charges_total_none:
  "(\<forall>(c, t) \<in> set cs. current_period_token t p \<noteq> token) \<Longrightarrow> charges_total cs p token = Fin 0"
proof -
  assume "\<forall>(c, t) \<in> set cs. current_period_token t p \<noteq> token"
  then have "filter (\<lambda>(c, t). current_period_token t p = token) cs = []"
    by (auto simp: filter_empty_conv)
  then show ?thesis by (simp add: charges_total_def)
qed

definition charge_events :: "string \<Rightarrow> period \<Rightarrow> (f64 \<times> utc) list \<Rightarrow> (period \<times> f64 \<times> utc) key_event list" where
  "charge_events k p cs = map (\<lambda>(c, t). KStep k (p, c, t)) cs"

text \<open>
  What the ledger reports is that total when the clock does not return to a token it has left: between two readings
  of \<open>S\<close> with the same token every reading of \<open>S\<close> has it.
\<close>

definition token_convex :: "period \<Rightarrow> utc set \<Rightarrow> bool" where
  "token_convex p S \<longleftrightarrow> (\<forall>a \<in> S. \<forall>b \<in> S. \<forall>c \<in> S. unix_timestamp a \<le> unix_timestamp b \<longrightarrow> unix_timestamp b \<le> unix_timestamp c \<longrightarrow>
     current_period_token a p = current_period_token c p \<longrightarrow> current_period_token b p = current_period_token c p)"

lemma ledger_total:
  assumes "token_convex p S"
  shows "sorted (map unix_timestamp (map snd cs @ [now])) \<Longrightarrow> now \<in> S \<Longrightarrow> snd ` set cs \<subseteq> S \<Longrightarrow>
     spend_current_usd (ledger_run [] (charge_events k p cs)) k p now =
     charges_total cs p (current_period_token now p)"
proof (induction cs arbitrary: now rule: rev_induct)
  case Nil
  then show ?case by (simp add: charge_events_def charges_total_def spend_current_usd_def)
next
  case (snoc ct cs)
  obtain c t where ct: "ct = (c, t)" by fastforce
  have t: "t \<in> S" "unix_timestamp t \<le> unix_timestamp now" "\<And>c' t'. (c', t') \<in> set cs \<Longrightarrow> unix_timestamp t' \<le> unix_timestamp t \<and> t' \<in> S"
    using snoc.prems by (auto simp: ct sorted_append)
  have "sorted (map unix_timestamp (map snd cs @ [t]))" "snd ` set cs \<subseteq> S"
    using snoc.prems by (auto simp: ct sorted_append)
  note ih = snoc.IH [OF this(1) t(1) this(2)]
  show ?case
  proof (cases "current_period_token now p = current_period_token t p")
    case True
    with ih show ?thesis
      by (simp add: ct charge_events_def ledger_run_append current_usd_record charges_total_snoc)
  next
    case False
    have "current_period_token t' p \<noteq> current_period_token now p" if "(c', t') \<in> set cs" for c' t'
      using assms t(3) [OF that] t(1,2) snoc.prems(2) False unfolding token_convex_def by metis
    with False have "\<forall>(c', t') \<in> set (cs @ [ct]). current_period_token t' p \<noteq> current_period_token now p"
      by (auto simp: ct)
    then show ?thesis using False
      by (simp add: ct charge_events_def ledger_run_append current_usd_record charges_total_none
          del: set_append)
  qed
qed

text \<open>
  The week token repeats: the last days of December can lie in week 1 of the next ISO year, and their token is then
  that of the first week of the year they are in.
\<close>

lemma week_token_repeats:
  "utc_year a = utc_year b \<Longrightarrow> utc_iso_week a = utc_iso_week b \<Longrightarrow>
     spend_current_usd (spend_record st k Week c a) k Week b = f64_add (spend_current_usd st k Week a) c"
  by (simp add: current_usd_record current_period_token_def)

text \<open>Wednesday 1 January 2025 and Tuesday 30 December 2025.\<close>

lemma january_total_in_december:
  "spend_current_usd
     (spend_record [] ''a'' Week (Fin 7)
        \<lparr>utc_instant = 1735689600000000000, unix_timestamp = 1735689600, utc_year = 2025, utc_month = 1, utc_iso_week = 1\<rparr>)
     ''a'' Week
     \<lparr>utc_instant = 1767052800000000000, unix_timestamp = 1767052800, utc_year = 2025, utc_month = 12, utc_iso_week = 1\<rparr> =
   f64_add (Fin 0) (Fin 7)"
  by (subst week_token_repeats) (simp_all add: spend_current_usd_def)

section \<open>Properties\<close>

definition example_day :: "int \<Rightarrow> utc" where
  "example_day d = \<lparr>utc_instant = d * 86400 * 10 ^ 9, unix_timestamp = d * 86400, utc_year = 2026,
     utc_month = 3, utc_iso_week = 10\<rparr>"


lemma example_amounts: "f64_round 5 = 5" "f64_round 1 = 1" "f64_of_rat 5 = Fin 5" "spend_tracker_ok []"
  using f64_round_exact [OF dyadic53_of_nat, of 5] f64_round_exact [OF dyadic53_of_nat, of 1]
    f64_of_nat_exact [of 5] by (simp_all add: f64_of_nat_def spend_tracker_ok_def)


text \<open>Charges are sums of prices times tokens, and a price read from a file may be negative: such a charge lifts a refusal.\<close>

lemma negative_charge_reopens_budget:
  "\<not> spend_pre_check (spend_record [] ''a'' Day (Fin 5) (example_day 1)) ''a'' \<lparr>amount_usd = Fin 5, sl_period = Day\<rparr> (example_day 1)"
  "spend_pre_check (spend_record (spend_record [] ''a'' Day (Fin 5) (example_day 1)) ''a'' Day (Fin (- 1)) (example_day 1))
     ''a'' \<lparr>amount_usd = Fin 5, sl_period = Day\<rparr> (example_day 1)"
proof -
  have "spend_current_usd [] ''a'' Day t = Fin 0" for t by (simp add: spend_current_usd_def)
  then show "\<not> spend_pre_check (spend_record [] ''a'' Day (Fin 5) (example_day 1)) ''a'' \<lparr>amount_usd = Fin 5, sl_period = Day\<rparr> (example_day 1)"
    "spend_pre_check (spend_record (spend_record [] ''a'' Day (Fin 5) (example_day 1)) ''a'' Day (Fin (- 1)) (example_day 1))
     ''a'' \<lparr>amount_usd = Fin 5, sl_period = Day\<rparr> (example_day 1)"
    using f64_of_nat_exact [of 4]
    by (simp_all add: pre_check_record current_usd_record example_amounts f64_of_nat_def)
qed

text \<open>
  Tenant isolation of budgets: the budget decision for a key after any interleaving of charges and
  revocations is the decision after the events of that key alone.
\<close>

theorem budget_isolation:
  "spend_pre_check (ledger_run st es) k limit now =
   spend_pre_check (ledger_run st (filter (\<lambda>e. event_key e = k) es)) k limit now"
  by (rule pre_check_entry) (rule ledger_run_isolated)

text \<open>
  C36. Weekly budgets restart at New Year: the week token pairs the ISO week number with the calendar
  year, so when an ISO week spans two calendar years, a weekly budget exhausted on its old-year days
  is open again on its new-year days.
\<close>

theorem week_budget_reopens_at_new_year:
  assumes "utc_iso_week a = utc_iso_week b" and "utc_year b = utc_year a + 1"
    and "sl_period limit = Week"
  shows "spend_pre_check (spend_record st k Week cost a) k limit b"
proof -
  have "(word_of_int (utc_year a + 1) * 100 :: u64) \<noteq> word_of_int (utc_year a) * 100"
    by (simp add: distrib_right)
  then show ?thesis using assms by (auto simp: pre_check_record current_period_token_def)
qed

text \<open>Thursday 31 December 2026 and Friday 1 January 2027, both in ISO week 53.\<close>

theorem week_budget_reopens_at_new_year_witness:
  "spend_pre_check
     (spend_record [] ''a'' Week (Fin 1000)
        \<lparr>utc_instant = 1798675200000000000, unix_timestamp = 1798675200, utc_year = 2026, utc_month = 12, utc_iso_week = 53\<rparr>)
     ''a'' \<lparr>amount_usd = Fin 1, sl_period = Week\<rparr>
     \<lparr>utc_instant = 1798761600000000000, unix_timestamp = 1798761600, utc_year = 2027, utc_month = 1, utc_iso_week = 53\<rparr>"
  by (rule week_budget_reopens_at_new_year) simp_all

end
