(* ===== verification/Rust_Str.thy ===== *)
theory Rust_Str
  imports Prelude
begin

text \<open>
  The string routines of Rust's standard library that the stream parsers use: UTF-8
  validation (\<open>str::from_utf8\<close>), \<open>str::lines\<close> and \<open>str::trim\<close>.
\<close>

section \<open>UTF-8 validation\<close>

definition byte_in :: "nat \<Rightarrow> nat \<Rightarrow> char \<Rightarrow> bool" where
  "byte_in lo hi c = (lo \<le> byte_val c \<and> byte_val c \<le> hi)"

abbreviation utf8_cont :: "char \<Rightarrow> bool" where
  "utf8_cont \<equiv> byte_in 0x80 0xBF"

fun utf8_valid :: "string \<Rightarrow> bool" where
  "utf8_valid [] = True"
| "utf8_valid (a # s) =
     (if byte_in 0 0x7F a then utf8_valid s
      else if byte_in 0xC2 0xDF a then
        (case s of b # r \<Rightarrow> utf8_cont b \<and> utf8_valid r | _ \<Rightarrow> False)
      else if byte_in 0xE0 0xEF a then
        (case s of b # c # r \<Rightarrow>
           (if byte_in 0xE0 0xE0 a then byte_in 0xA0 0xBF b
            else if byte_in 0xED 0xED a then byte_in 0x80 0x9F b
            else utf8_cont b) \<and> utf8_cont c \<and> utf8_valid r
         | _ \<Rightarrow> False)
      else if byte_in 0xF0 0xF4 a then
        (case s of b # c # d # r \<Rightarrow>
           (if byte_in 0xF0 0xF0 a then byte_in 0x90 0xBF b
            else if byte_in 0xF4 0xF4 a then byte_in 0x80 0x8F b
            else utf8_cont b) \<and> utf8_cont c \<and> utf8_cont d \<and> utf8_valid r
         | _ \<Rightarrow> False)
      else False)"

definition from_utf8 :: "bytes \<Rightarrow> string option" where
  "from_utf8 bs = (if utf8_valid bs then Some bs else None)"

abbreviation ascii :: "string \<Rightarrow> bool" where
  "ascii s \<equiv> list_all (byte_in 0 0x7F) s"

lemma utf8_valid_ascii: "ascii s \<Longrightarrow> utf8_valid s"
  by (induction s) auto

lemma utf8_valid_ascii_append: "ascii s \<Longrightarrow> utf8_valid (s @ r) = utf8_valid r"
  by (induction s) auto

lemma utf8_valid_append: "utf8_valid s \<Longrightarrow> utf8_valid (s @ r) = utf8_valid r"
proof (induction s rule: utf8_valid.induct)
  case (2 a s)
  show ?case
  proof (cases "byte_in 0 0x7F a")
    case True
    with 2 show ?thesis by simp
  next
    case nascii: False
    show ?thesis
    proof (cases "byte_in 0xC2 0xDF a")
      case True
      with nascii 2 show ?thesis by (cases s) simp_all
    next
      case n2: False
      show ?thesis
      proof (cases "byte_in 0xE0 0xEF a")
        case True
        with nascii n2 2 show ?thesis by (auto split: list.splits if_split_asm)
      next
        case False
        with nascii n2 2 show ?thesis by (simp split: list.splits if_split_asm)
      qed
    qed
  qed
qed simp

section \<open>Lines\<close>

text \<open>
  \<open>str::lines\<close> splits after each newline, drops it together with a carriage return just before
  it, and yields no empty line after a final newline. \<open>acc\<close> holds the current line reversed.
\<close>

definition strip_cr :: "string \<Rightarrow> string" where
  "strip_cr s = (if s \<noteq> [] \<and> last s = CR then butlast s else s)"

fun lines_acc :: "string \<Rightarrow> string \<Rightarrow> string list" where
  "lines_acc acc [] = (if acc = [] then [] else [rev acc])"
| "lines_acc acc (c # s) =
     (if c = NL then strip_cr (rev acc) # lines_acc [] s else lines_acc (c # acc) s)"

definition str_lines :: "string \<Rightarrow> string list" where
  "str_lines s = lines_acc [] s"

lemma lines_acc_no_nl: "NL \<notin> set s \<Longrightarrow> lines_acc acc s = (if acc = [] \<and> s = [] then [] else [rev acc @ s])"
  by (induction s arbitrary: acc) auto

lemma lines_acc_nl:
  "NL \<notin> set s \<Longrightarrow> lines_acc acc (s @ NL # r) = strip_cr (rev acc @ s) # lines_acc [] r"
  by (induction s arbitrary: acc) auto

lemma str_lines_single: "NL \<notin> set s \<Longrightarrow> s \<noteq> [] \<Longrightarrow> str_lines s = [s]"
  by (simp add: str_lines_def lines_acc_no_nl)

lemma str_lines_Cons: "NL \<notin> set s \<Longrightarrow> str_lines (s @ NL # r) = strip_cr s # str_lines r"
  by (simp add: str_lines_def lines_acc_nl)

section \<open>Trimming\<close>

text \<open>The UTF-8 encodings of the characters with the Unicode property \<open>White_Space\<close>.\<close>

definition white_space :: "string list" where
  "white_space =
     map (\<lambda>b. [char_of b]) [9, 10, 11, 12, 13, 32 :: nat] @
     map (map char_of)
       ([[0xC2, 0x85], [0xC2, 0xA0], [0xE1, 0x9A, 0x80], [0xE2, 0x80, 0xA8], [0xE2, 0x80, 0xA9],
         [0xE2, 0x80, 0xAF], [0xE2, 0x81, 0x9F], [0xE3, 0x80, 0x80]] @
        map (\<lambda>b. [0xE2, 0x80, b]) [0x80 ..< 0x8B])"

text \<open>Drop one leading word of \<open>ws\<close>; \<open>n\<close> bounds the rounds by the length of the string.\<close>

definition strip_any :: "string list \<Rightarrow> string \<Rightarrow> string option" where
  "strip_any ws s = (case find (\<lambda>w. starts_with w s) ws of Some w \<Rightarrow> strip_prefix w s | None \<Rightarrow> None)"

fun trim_rounds :: "nat \<Rightarrow> string list \<Rightarrow> string \<Rightarrow> string" where
  "trim_rounds 0 ws s = s"
| "trim_rounds (Suc n) ws s = (case strip_any ws s of Some r \<Rightarrow> trim_rounds n ws r | None \<Rightarrow> s)"

definition trim_start :: "string \<Rightarrow> string" where
  "trim_start s = trim_rounds (length s) white_space s"

definition trim_end :: "string \<Rightarrow> string" where
  "trim_end s = rev (trim_rounds (length s) (map rev white_space) (rev s))"

definition str_trim :: "string \<Rightarrow> string" where
  "str_trim s = trim_end (trim_start s)"

text \<open>A round that strips a word shortens the string, so \<open>length s\<close> rounds are enough.\<close>

lemma trim_rounds_done:
  assumes "\<forall>w \<in> set ws. w \<noteq> []" "length s \<le> n"
  shows "strip_any ws (trim_rounds n ws s) = None"
  using assms(2)
proof (induction n arbitrary: s)
  case 0
  then have "strip_any ws [] = None"
    using assms(1) by (auto simp: strip_any_def starts_with_iff find_Some_iff split: option.split)
  with 0 show ?case by simp
next
  case (Suc n)
  show ?case
  proof (cases "strip_any ws s")
    case None
    then show ?thesis by simp
  next
    case (Some r)
    then obtain w where w: "w \<in> set ws" "s = w @ r"
      by (fastforce simp: strip_any_def strip_prefix_Some_iff find_Some_iff split: option.splits)
    with assms(1) Suc.prems have "length r \<le> n" by (cases w) auto
    with Some show ?thesis by (simp add: Suc.IH)
  qed
qed

lemma white_space_nonempty: "\<forall>w \<in> set white_space. w \<noteq> []" "\<forall>w \<in> set (map rev white_space). w \<noteq> []"
  by (auto simp: white_space_def)

lemma trim_start_done: "strip_any white_space (trim_start s) = None"
  unfolding trim_start_def by (rule trim_rounds_done [OF white_space_nonempty(1)]) simp

lemma trim_rounds_id: "strip_any ws s = None \<Longrightarrow> trim_rounds n ws s = s"
  by (cases n) simp_all

lemma str_trim_id:
  "strip_any white_space s = None \<Longrightarrow> strip_any (map rev white_space) (rev s) = None \<Longrightarrow> str_trim s = s"
  by (simp add: str_trim_def trim_start_def trim_end_def trim_rounds_id)

text \<open>Strings that begin and end with a visible ASCII character are trimmed already.\<close>

lemma white_space_not_visible:
  "w \<in> set white_space \<Longrightarrow> w \<noteq> [] \<and> \<not> byte_in 33 126 (hd w) \<and> \<not> byte_in 33 126 (last w)"
  by (auto simp: white_space_def byte_in_def of_char_of)

lemma strip_any_None: "(\<And>w. w \<in> set ws \<Longrightarrow> \<not> starts_with w s) \<Longrightarrow> strip_any ws s = None"
  by (auto simp: strip_any_def find_Some_iff split: option.split)

lemma strip_visible:
  assumes "byte_in 33 126 (hd s)" "byte_in 33 126 (last s)" "s \<noteq> []"
  shows "strip_any white_space s = None" "strip_any (map rev white_space) (rev s) = None"
proof -
  show "strip_any white_space s = None"
  proof (rule strip_any_None)
    fix w assume "w \<in> set white_space"
    from white_space_not_visible [OF this] assms(1) show "\<not> starts_with w s" by (auto simp: starts_with_iff)
  qed
  show "strip_any (map rev white_space) (rev s) = None"
  proof (rule strip_any_None)
    fix w assume "w \<in> set (map rev white_space)"
    then obtain v where "v \<in> set white_space" "w = rev v" by auto
    with white_space_not_visible [of v] assms(2,3) show "\<not> starts_with w (rev s)"
      by (auto simp: starts_with_iff hd_rev [symmetric])
  qed
qed

lemma str_trim_visible: "byte_in 33 126 (hd s) \<Longrightarrow> byte_in 33 126 (last s) \<Longrightarrow> s \<noteq> [] \<Longrightarrow> str_trim s = s"
  by (intro str_trim_id strip_visible)

lemma strip_any_space: "strip_any white_space (CHR 0x20 # s) = Some s"
  by (simp add: strip_any_def white_space_def starts_with_def char_of_eq_iff)

lemma str_trim_space:
  assumes "byte_in 33 126 (hd s)" "byte_in 33 126 (last s)" "s \<noteq> []"
  shows "str_trim (CHR 0x20 # s) = s"
proof -
  have id: "str_trim s = s" "strip_any white_space s = None" "strip_any (map rev white_space) (rev s) = None"
    using str_trim_visible [OF assms] strip_visible [OF assms] by blast+
  have "trim_start (CHR 0x20 # s) = s"
    using id(2) by (simp add: trim_start_def strip_any_space trim_rounds_id)
  then show ?thesis using id(3) by (simp add: str_trim_def trim_end_def trim_rounds_id)
qed

lemma printable_utf8: "list_all (byte_in lo 126) s \<Longrightarrow> utf8_valid s"
  by (induction s) (simp_all add: byte_in_def)

lemma printable_no_newline: "list_all (byte_in lo 126) s \<Longrightarrow> 14 \<le> lo \<Longrightarrow> NL \<notin> set s \<and> CR \<notin> set s"
  by (auto simp: list_all_iff byte_in_def)

end
