(* ===== verification/Json.thy ===== *)
theory Json
  imports Prelude F64
begin

text \<open>
  The document type of \<open>serde_json\<close> as the gateway sees it: the public enum \<open>Value\<close>, its
  accessors, and the crate's entry points as parameters. An object is a \<open>BTreeMap\<close> (the
  \<open>preserve_order\<close> feature is off), kept as a list sorted by key.
\<close>

section \<open>Values\<close>

datatype json_number = PosInt nat | NegInt int | Float f64

datatype json =
    JNull
  | JBool bool
  | JNumber json_number
  | JString string
  | JArray "json list"
  | JObject "(string \<times> json) list"

fun json_get :: "json \<Rightarrow> string \<Rightarrow> json option" where
  "json_get (JObject m) k = map_of m k"
| "json_get _ k = None"

fun json_as_str :: "json \<Rightarrow> string option" where
  "json_as_str (JString s) = Some s"
| "json_as_str _ = None"

fun json_as_u64 :: "json \<Rightarrow> nat option" where
  "json_as_u64 (JNumber (PosInt n)) = Some n"
| "json_as_u64 _ = None"

fun json_as_array :: "json \<Rightarrow> json list option" where
  "json_as_array (JArray xs) = Some xs"
| "json_as_array _ = None"

text \<open>\<open>BTreeMap::insert\<close>: replace the entry of the key, or add one at its place in the order.\<close>

fun obj_insert :: "string \<Rightarrow> json \<Rightarrow> (string \<times> json) list \<Rightarrow> (string \<times> json) list" where
  "obj_insert k v [] = [(k, v)]"
| "obj_insert k v ((k', v') # m) =
     (if k = k' then (k, v) # m
      else if k < k' then (k, v) # (k', v') # m
      else (k', v') # obj_insert k v m)"

text \<open>The object literal of the \<open>json!\<close> macro.\<close>

definition json_object :: "(string \<times> json) list \<Rightarrow> json" where
  "json_object kvs = JObject (fold (\<lambda>(k, v). obj_insert k v) kvs [])"

definition json_nat :: "nat \<Rightarrow> json" where
  "json_nat n = JNumber (PosInt n)"

lemma map_of_obj_insert: "map_of (obj_insert k v m) = (map_of m)(k \<mapsto> v)"
  by (induction m) auto

lemma map_of_fold_obj_insert:
  "map_of (fold (\<lambda>(k, v). obj_insert k v) kvs m) k =
     (case map_of (rev kvs) k of Some v \<Rightarrow> Some v | None \<Rightarrow> map_of m k)"
  by (induction kvs arbitrary: m)
    (auto simp: map_of_obj_insert map_add_def split: option.splits)

lemma json_get_object [simp]: "json_get (json_object kvs) k = map_of (rev kvs) k"
  by (simp add: json_object_def map_of_fold_obj_insert split: option.split)

lemma json_as_u64_nat [simp]: "json_as_u64 (json_nat n) = Some n"
  by (simp add: json_nat_def)

section \<open>Sorted objects\<close>

definition obj_sorted :: "(string \<times> json) list \<Rightarrow> bool" where
  "obj_sorted m = sorted_wrt (<) (map fst m)"

lemma fst_obj_insert: "fst ` set (obj_insert k v m) = insert k (fst ` set m)"
proof (induction m)
  case (Cons e m)
  then show ?case by (cases e) (simp add: insert_commute)
qed simp

lemma obj_sorted_insert: "obj_sorted m \<Longrightarrow> obj_sorted (obj_insert k v m)"
proof (induction m)
  case Nil
  then show ?case by (simp add: obj_sorted_def)
next
  case (Cons e m)
  obtain k' v' where e: "e = (k', v')" by (cases e)
  from Cons show ?case
    using fst_obj_insert [of k v m]
    by (fastforce simp: obj_sorted_def e)
qed

section \<open>Entry points of the crate\<close>

text \<open>
  \<open>from_slice\<close> parses a byte slice into a \<open>Value\<close> (the error text on the left), \<open>to_vec\<close> encodes
  one (or fails) and \<open>display\<close> is the compact rendering \<open>format!("{v}")\<close>.
\<close>

record serde_json =
  from_slice :: "bytes \<Rightarrow> string + json"
  to_vec :: "json \<Rightarrow> string + bytes"
  display :: "json \<Rightarrow> string"

text \<open>
  What the crate documents and the round-trip theorems use: parsing the compact rendering of
  a value gives the value back, and the rendering holds no line break.
\<close>

definition display_roundtrip :: "serde_json \<Rightarrow> json \<Rightarrow> bool" where
  "display_roundtrip J v =
     (from_slice J (display J v) = Inr v \<and> NL \<notin> set (display J v) \<and> CR \<notin> set (display J v))"

text \<open>A minimal instance, for the witnesses: the empty object is the only document it reads.\<close>

definition empty_object_serde :: serde_json where
  "empty_object_serde =
     \<lparr>from_slice = (\<lambda>b. if b = ''{}'' then Inr (JObject []) else Inl ''unsupported''),
      to_vec = (\<lambda>v. Inr ''{}''), display = (\<lambda>v. ''{}'')\<rparr>"

end
