(* ===== verification/Sse.thy ===== *)
theory Sse
  imports Rust_Str
begin

text \<open>
  The Server-Sent Events parser of \<open>sse.rs\<close>: a byte buffer that is fed as the upstream
  delivers and drained event by event. The theorems show that the events do not depend on
  how the upstream cuts the stream into chunks, that an encoded event is read back, and what
  happens to an event that is not UTF-8.
\<close>

section \<open>Parser\<close>

record sse_event =
  ev_event :: "string option"
  ev_data :: string

record sse_parser =
  sse_buffer :: bytes

definition sse_new :: sse_parser where
  "sse_new = \<lparr>sse_buffer = []\<rparr>"

definition sse_feed :: "sse_parser \<Rightarrow> bytes \<Rightarrow> sse_parser" where
  "sse_feed p bs = p\<lparr>sse_buffer := sse_buffer p @ bs\<rparr>"

text \<open>\<open>buffer.windows(2).position(|w| w == b"\n\n")\<close>.\<close>

fun blank_line_pos :: "bytes \<Rightarrow> nat option" where
  "blank_line_pos (a # b # s) =
     (if a = NL \<and> b = NL then Some 0 else map_option Suc (blank_line_pos (b # s)))"
| "blank_line_pos _ = None"

definition parse_line :: "string \<Rightarrow> string option \<times> string \<Rightarrow> string option \<times> string" where
  "parse_line line acc =
     (case acc of (event, data) \<Rightarrow>
       (case strip_prefix ''event:'' line of
          Some rest \<Rightarrow> (Some (str_trim rest), data)
        | None \<Rightarrow>
            (case strip_prefix ''data:'' line of
               Some rest \<Rightarrow>
                 (event, (if data \<noteq> [] then data @ [NL] else data) @
                           unwrap_or (strip_prefix '' '' rest) rest)
             | None \<Rightarrow> (event, data))))"

definition sse_parse :: "string \<Rightarrow> sse_event option" where
  "sse_parse text =
     (case fold parse_line (str_lines text) (None, []) of
        (event, data) \<Rightarrow> Some \<lparr>ev_event = event, ev_data = data\<rparr>)"

definition sse_next_event :: "sse_parser \<Rightarrow> sse_parser \<times> sse_event option" where
  "sse_next_event p =
     (case blank_line_pos (sse_buffer p) of
        None \<Rightarrow> (p, None)
      | Some pos \<Rightarrow>
          (case from_utf8 (take pos (sse_buffer p)) of
             None \<Rightarrow> (p, None)
           | Some text \<Rightarrow> (p\<lparr>sse_buffer := drop (pos + 2) (sse_buffer p)\<rparr>, sse_parse text)))"

section \<open>Draining\<close>

lemma blank_line_pos_bound: "blank_line_pos s = Some n \<Longrightarrow> n + 2 \<le> length s"
  by (induction s arbitrary: n rule: blank_line_pos.induct) (auto split: if_splits)

lemma sse_parse_Some: "\<exists>ev. sse_parse text = Some ev"
  by (simp add: sse_parse_def split: prod.split)

lemma sse_next_event_shrinks:
  "sse_next_event p = (p', Some ev) \<Longrightarrow> length (sse_buffer p') < length (sse_buffer p)"
  by (auto simp: sse_next_event_def dest!: blank_line_pos_bound split: option.splits)

text \<open>
  The loop \<open>while let Some(event) = parser.next_event()\<close> both stream adapters run after a
  feed. Every event shortens the buffer, so the loop ends.
\<close>

function sse_drain :: "sse_parser \<Rightarrow> sse_parser \<times> sse_event list" where
  "sse_drain p =
     (case sse_next_event p of
        (p', None) \<Rightarrow> (p', [])
      | (p', Some ev) \<Rightarrow> (let (p'', evs) = sse_drain p' in (p'', ev # evs)))"
  by pat_completeness auto
termination
  by (relation "measure (\<lambda>p. length (sse_buffer p))") (auto dest!: sym [of _ "sse_next_event _"] sse_next_event_shrinks)

declare sse_drain.simps [simp del]

lemma sse_drain_Some:
  "sse_next_event p = (p', Some ev) \<Longrightarrow> sse_drain p = (fst (sse_drain p'), ev # snd (sse_drain p'))"
  by (subst sse_drain.simps) (simp add: split_def Let_def)

lemma sse_drain_None: "sse_next_event p = (p', None) \<Longrightarrow> sse_drain p = (p', [])"
  by (subst sse_drain.simps) simp

text \<open>Feeding a list of chunks and draining after each, as the adapters do.\<close>

fun sse_run :: "sse_parser \<Rightarrow> bytes list \<Rightarrow> sse_parser \<times> sse_event list" where
  "sse_run p [] = (p, [])"
| "sse_run p (c # cs) =
     (let (p', evs) = sse_drain (sse_feed p c); (p'', evs') = sse_run p' cs in (p'', evs @ evs'))"

section \<open>Chunking\<close>

lemma blank_line_pos_append: "blank_line_pos s = Some n \<Longrightarrow> blank_line_pos (s @ t) = Some n"
  by (induction s arbitrary: n rule: blank_line_pos.induct) (auto split: if_splits)

lemma sse_next_event_feed:
  "sse_next_event p = (p', Some ev) \<Longrightarrow> sse_next_event (sse_feed p c) = (sse_feed p' c, Some ev)"
  by (auto simp: sse_next_event_def sse_feed_def blank_line_pos_append
      dest: blank_line_pos_bound split: option.splits)

lemma sse_next_event_None: "sse_next_event p = (p', None) \<Longrightarrow> p' = p"
  by (auto simp: sse_next_event_def sse_parse_def split: option.splits prod.splits)

lemma sse_drain_feed:
  "sse_drain (sse_feed p c) =
     (let (p', evs) = sse_drain p; (p'', evs') = sse_drain (sse_feed p' c) in (p'', evs @ evs'))"
proof (induction p rule: sse_drain.induct)
  case (1 p)
  show ?case
  proof (cases "sse_next_event p")
    case (Pair p' r)
    show ?thesis
    proof (cases r)
      case None
      then have "sse_drain p = (p, [])"
        using Pair sse_next_event_None [of p p'] by (subst sse_drain.simps) simp
      then show ?thesis by (simp add: split_def)
    next
      case (Some ev)
      have "sse_drain (sse_feed p c) =
          (let (q, evs) = sse_drain (sse_feed p' c) in (q, ev # evs))"
        using sse_next_event_feed [OF Pair [unfolded Some], of c] by (subst sse_drain.simps) simp
      moreover have "sse_drain p = (let (q, evs) = sse_drain p' in (q, ev # evs))"
        using Pair Some by (subst sse_drain.simps) simp
      moreover note 1 [OF Pair [symmetric] Some]
      ultimately show ?thesis by (simp add: split_def Let_def)
    qed
  qed
qed

lemma sse_feed_feed: "sse_feed (sse_feed p a) b = sse_feed p (a @ b)"
  by (simp add: sse_feed_def)

lemma sse_run_feed:
  "sse_run p (c # cs) = sse_drain (sse_feed p (concat (c # cs)))"
proof (induction cs arbitrary: p c)
  case Nil
  then show ?case by (simp add: split_def)
next
  case (Cons d cs)
  have "sse_drain (sse_feed p (concat (c # d # cs))) =
      sse_drain (sse_feed (sse_feed p c) (concat (d # cs)))"
    by (simp add: sse_feed_feed)
  also have "\<dots> = sse_run p (c # d # cs)"
    using Cons.IH [of "fst (sse_drain (sse_feed p c))" d]
    by (subst sse_drain_feed) (simp add: split_def Let_def prod_eq_iff)
  finally show ?case by simp
qed

section \<open>Encoded events\<close>

text \<open>A data field on one line, as the gateway and the upstreams write it.\<close>

definition sse_data_line :: "string \<Rightarrow> bytes" where
  "sse_data_line payload = ''data: '' @ payload @ [NL, NL]"

definition sse_named_event :: "string \<Rightarrow> string \<Rightarrow> bytes" where
  "sse_named_event name payload = ''event: '' @ name @ [NL] @ sse_data_line payload"

lemma blank_line_pos_Cons: "NL \<noteq> a \<Longrightarrow> blank_line_pos (a # s) = map_option Suc (blank_line_pos s)"
  by (cases s) auto

lemma blank_line_pos_nl: "NL \<noteq> a \<Longrightarrow> blank_line_pos (NL # a # s) = map_option Suc (blank_line_pos (a # s))"
  by auto

lemma blank_line_pos_line:
  "NL \<notin> set s \<Longrightarrow> blank_line_pos (s @ NL # NL # r) = Some (length s)"
proof (induction s)
  case (Cons a s)
  then show ?case using blank_line_pos_Cons [of a "s @ NL # NL # r"] by simp
qed simp

lemma blank_line_pos_two_lines:
  assumes "NL \<notin> set s" "NL \<notin> set t" "t \<noteq> []"
  shows "blank_line_pos (s @ NL # t @ NL # NL # r) = Some (length s + 1 + length t)"
  using assms(1)
proof (induction s)
  case Nil
  obtain a t' where "t = a # t'" using assms(3) by (cases t) auto
  with assms(2) show ?case
    using blank_line_pos_line [of t r] blank_line_pos_nl [of a] by simp
next
  case (Cons c s)
  then show ?case using blank_line_pos_Cons [of c "s @ NL # t @ NL # NL # r"] by simp
qed

lemma sse_next_block:
  assumes "blank_line_pos (l @ NL # NL # r) = Some (length l)" "utf8_valid l" "sse_parse l = Some ev"
  shows "sse_next_event \<lparr>sse_buffer = l @ NL # NL # r\<rparr> = (\<lparr>sse_buffer = r\<rparr>, Some ev)"
  using assms by (simp add: sse_next_event_def from_utf8_def)

lemma sse_drain_empty [simp]: "sse_drain \<lparr>sse_buffer = []\<rparr> = (\<lparr>sse_buffer = []\<rparr>, [])"
  by (subst sse_drain.simps) (simp add: sse_next_event_def)

definition sse_encode :: "sse_event \<Rightarrow> bytes" where
  "sse_encode ev =
     (case ev_event ev of
        None \<Rightarrow> sse_data_line (ev_data ev)
      | Some name \<Rightarrow> sse_named_event name (ev_data ev))"

definition sse_event_ok :: "sse_event \<Rightarrow> bool" where
  "sse_event_ok ev =
     (NL \<notin> set (ev_data ev) \<and> utf8_valid (ev_data ev) \<and>
      (case ev_event ev of
         None \<Rightarrow> True
       | Some name \<Rightarrow>
           NL \<notin> set name \<and> CR \<notin> set name \<and> utf8_valid name \<and> str_trim ('' '' @ name) = name))"

lemma parse_line_data: "parse_line (''data: '' @ s) (e, []) = (e, s)"
  by (simp add: parse_line_def)

lemma parse_line_event: "parse_line (''event: '' @ s) (e, d) = (Some (str_trim ('' '' @ s)), d)"
  by (simp add: parse_line_def)

lemma sse_next_data:
  assumes "NL \<notin> set s" "utf8_valid s"
  shows "sse_next_event \<lparr>sse_buffer = sse_data_line s @ r\<rparr> =
     (\<lparr>sse_buffer = r\<rparr>, Some \<lparr>ev_event = None, ev_data = s\<rparr>)"
proof -
  define l where "l = ''data: '' @ s"
  have nl: "NL \<notin> set l" "l \<noteq> []" using assms(1) by (simp_all add: l_def)
  have "utf8_valid l" using assms(2) by (simp add: l_def byte_in_def)
  moreover have "sse_parse l = Some \<lparr>ev_event = None, ev_data = s\<rparr>"
    using str_lines_single [OF nl] parse_line_data [of s None] by (simp add: sse_parse_def l_def)
  ultimately have "sse_next_event \<lparr>sse_buffer = l @ NL # NL # r\<rparr> =
      (\<lparr>sse_buffer = r\<rparr>, Some \<lparr>ev_event = None, ev_data = s\<rparr>)"
    using blank_line_pos_line [OF nl(1)] by (intro sse_next_block)
  then show ?thesis by (simp add: sse_data_line_def l_def)
qed

lemma sse_next_named:
  assumes "NL \<notin> set s" "utf8_valid s"
    and "NL \<notin> set n" "CR \<notin> set n" "utf8_valid n" "str_trim ('' '' @ n) = n"
  shows "sse_next_event \<lparr>sse_buffer = sse_named_event n s @ r\<rparr> =
     (\<lparr>sse_buffer = r\<rparr>, Some \<lparr>ev_event = Some n, ev_data = s\<rparr>)"
proof -
  define e d where "e = ''event: '' @ n" and "d = ''data: '' @ s"
  define l where "l = e @ NL # d"
  have nl: "NL \<notin> set e" "NL \<notin> set d" "d \<noteq> []" "e \<noteq> []" "CR \<notin> set e"
    using assms by (simp_all add: e_def d_def)
  have "utf8_valid e" "utf8_valid (NL # d)"
    using assms(2,5) by (simp_all add: e_def d_def byte_in_def)
  then have "utf8_valid l" by (simp add: l_def utf8_valid_append)
  moreover have "sse_parse l = Some \<lparr>ev_event = Some n, ev_data = s\<rparr>"
  proof -
    have "strip_cr e = e" using nl(4,5) last_in_set [of e] unfolding strip_cr_def by metis
    then have "str_lines l = [e, d]"
      using str_lines_Cons [OF nl(1), of d] str_lines_single [OF nl(2,3)] by (simp add: l_def)
    then show ?thesis
      using parse_line_event [of n None "[]"] parse_line_data [of s "Some n"] assms(6)
      by (simp add: sse_parse_def e_def d_def)
  qed
  moreover have "blank_line_pos (l @ NL # NL # r) = Some (length l)"
    using blank_line_pos_two_lines [OF nl(1,2,3), of r] by (simp add: l_def)
  ultimately have "sse_next_event \<lparr>sse_buffer = l @ NL # NL # r\<rparr> =
      (\<lparr>sse_buffer = r\<rparr>, Some \<lparr>ev_event = Some n, ev_data = s\<rparr>)"
    by (intro sse_next_block)
  then show ?thesis by (simp add: sse_named_event_def sse_data_line_def l_def e_def d_def)
qed

lemma sse_next_encode:
  "sse_event_ok ev \<Longrightarrow>
     sse_next_event \<lparr>sse_buffer = sse_encode ev @ r\<rparr> = (\<lparr>sse_buffer = r\<rparr>, Some ev)"
  by (cases ev) (auto simp: sse_event_ok_def sse_encode_def sse_next_data sse_next_named
      split: option.splits)

lemma sse_drain_encode:
  "list_all sse_event_ok evs \<Longrightarrow>
     sse_drain \<lparr>sse_buffer = concat (map sse_encode evs)\<rparr> = (\<lparr>sse_buffer = []\<rparr>, evs)"
proof (induction evs)
  case (Cons ev evs)
  then show ?case
    by (subst sse_drain.simps) (simp add: sse_next_encode)
qed simp

lemma sse_encode_not_Nil: "sse_encode ev \<noteq> []"
  by (simp add: sse_encode_def sse_data_line_def sse_named_event_def split: option.split)

lemma sse_run_encoded:
  assumes "list_all sse_event_ok evs" and "concat chunks = concat (map sse_encode evs)"
  shows "sse_run sse_new chunks = (sse_new, evs)"
proof (cases chunks)
  case Nil
  with assms(2) have "evs = []" by (cases evs) (simp_all add: sse_encode_not_Nil)
  with Nil show ?thesis by simp
next
  case (Cons c cs)
  have "sse_run sse_new chunks = sse_drain (sse_feed sse_new (concat chunks))"
    unfolding Cons by (rule sse_run_feed)
  also have "\<dots> = sse_drain \<lparr>sse_buffer = concat (map sse_encode evs)\<rparr>"
    by (simp add: sse_feed_def sse_new_def assms(2))
  finally show ?thesis using assms(1) by (simp add: sse_drain_encode sse_new_def)
qed

lemma sse_data_ok: "list_all (byte_in 0x20 0x7E) d \<Longrightarrow> sse_event_ok \<lparr>ev_event = None, ev_data = d\<rparr>"
  using printable_utf8 [of 32 d] printable_no_newline [of 32 d] by (simp add: sse_event_ok_def)

lemma sse_named_ok:
  assumes "list_all (byte_in 0x20 0x7E) d" "list_all (byte_in 33 126) name" "name \<noteq> []"
  shows "sse_event_ok \<lparr>ev_event = Some name, ev_data = d\<rparr>"
proof -
  have "byte_in 33 126 (hd name)" "byte_in 33 126 (last name)" using assms(2,3) by (auto simp: list_all_iff)
  then have "str_trim (CHR 0x20 # name) = name" using assms(3) by (rule str_trim_space)
  with assms show ?thesis
    using printable_utf8 [of 32 d] printable_no_newline [of 32 d] printable_utf8 [of 33 name]
      printable_no_newline [of 33 name] by (simp add: sse_event_ok_def)
qed

text \<open>
  C26. Stream reassembly: however the upstream cuts the bytes of a stream of well-formed events
  into chunks (also inside a UTF-8 character or between the two newlines), feeding the chunks one
  by one and draining after each yields exactly those events, in order, and leaves nothing behind.
\<close>

theorem sse_chunked_roundtrip:
  assumes "list_all sse_event_ok evs" and "concat chunks = concat (map sse_encode evs)"
  shows "sse_run sse_new chunks = (sse_new, evs)"
  using assms by (rule sse_run_encoded)

theorem sse_chunked_roundtrip_witness:
  "sse_run sse_new [''data: h'', ''i'' @ [NL], [NL] @ ''event: end'' @ [NL], ''data: '' @ [NL, NL]] =
     (sse_new, [\<lparr>ev_event = None, ev_data = ''hi''\<rparr>, \<lparr>ev_event = Some ''end'', ev_data = []\<rparr>])"
proof (rule sse_chunked_roundtrip)
  show "list_all sse_event_ok [\<lparr>ev_event = None, ev_data = ''hi''\<rparr>, \<lparr>ev_event = Some ''end'', ev_data = []\<rparr>]"
    by (simp add: sse_data_ok sse_named_ok byte_in_def)
qed (simp add: sse_encode_def sse_data_line_def sse_named_event_def)

text \<open>
  C37. An event whose bytes are not UTF-8 is never taken out of the buffer: from then on the
  parser yields no event, whatever else arrives.
\<close>

theorem sse_invalid_utf8_stalls:
  assumes "blank_line_pos (sse_buffer p) = Some pos" and "\<not> utf8_valid (take pos (sse_buffer p))"
  shows "snd (sse_run p chunks) = []"
  using assms
proof (induction chunks arbitrary: p)
  case (Cons c cs)
  let ?p = "sse_feed p c"
  have p: "blank_line_pos (sse_buffer ?p) = Some pos" "take pos (sse_buffer ?p) = take pos (sse_buffer p)"
    using Cons.prems(1) blank_line_pos_append [of "sse_buffer p" pos c]
      blank_line_pos_bound [of "sse_buffer p" pos] by (simp_all add: sse_feed_def)
  then have "sse_drain ?p = (?p, [])"
    using Cons.prems(2) by (subst sse_drain.simps) (simp add: sse_next_event_def from_utf8_def)
  with Cons.IH [of ?p] Cons.prems(2) p show ?case by (simp add: split_def)
qed simp

theorem sse_invalid_utf8_stalls_witness:
  "snd (sse_run \<lparr>sse_buffer = CHR 0xFF # [NL, NL]\<rparr> [''data: x'' @ [NL, NL]]) = []"
  by (rule sse_invalid_utf8_stalls [where pos = 1]) (simp_all add: byte_in_def)

end
