(* ===== verification/Config.thy ===== *)
theory Config
  imports Auth
begin

text \<open>
  The configuration model of \<open>config.rs\<close> and the error type of \<open>error.rs\<close>: the structs with
  their default values and the pricing overlay. The layering of file, environment and
  defaults is done by the \<open>figment\<close> crate, which is a parameter of \<open>config_load\<close>.
\<close>

section \<open>Errors\<close>

datatype core_error = ConfigError string | ProviderError string | UpstreamTimeout string

fun show_core_error :: "core_error \<Rightarrow> string" where
  "show_core_error (ConfigError s) = ''configuration error: '' @ s"
| "show_core_error (ProviderError s) = ''provider error: '' @ s"
| "show_core_error (UpstreamTimeout s) = ''upstream timed out: '' @ s"

section \<open>Structs and their defaults\<close>

datatype control_plane_mode = File | Api

record control_plane =
  cp_mode :: control_plane_mode
  cp_config_dir :: string
  cp_endpoint :: "string option"
  cp_token_env :: "string option"
  cp_poll_interval_seconds :: u64

definition default_poll_interval :: u64 where
  "default_poll_interval = 30"

definition control_plane_default :: control_plane where
  "control_plane_default = \<lparr>cp_mode = File, cp_config_dir = ''/etc/vaultplane'', cp_endpoint = None,
     cp_token_env = None, cp_poll_interval_seconds = default_poll_interval\<rparr>"

record shutdown =
  drain_timeout_seconds :: u64

definition shutdown_default :: shutdown where
  "shutdown_default = \<lparr>drain_timeout_seconds = 30\<rparr>"

record tls_config =
  cert_path :: string
  key_path :: string
  client_ca_path :: "string option"

record listen =
  ls_address :: string
  ls_admin_address :: string
  ls_tls :: "tls_config option"

definition listen_default :: listen where
  "listen_default = \<lparr>ls_address = ''0.0.0.0:8080'', ls_admin_address = ''0.0.0.0:9091'', ls_tls = None\<rparr>"

record openai_provider =
  oa_base_url :: string
  oa_api_key_env :: string

definition openai_provider_default :: openai_provider where
  "openai_provider_default =
     \<lparr>oa_base_url = ''https://api.openai.com'', oa_api_key_env = ''OPENAI_API_KEY''\<rparr>"

record anthropic_provider =
  an_base_url :: string
  an_api_key_env :: string

definition anthropic_provider_default :: anthropic_provider where
  "anthropic_provider_default =
     \<lparr>an_base_url = ''https://api.anthropic.com'', an_api_key_env = ''ANTHROPIC_API_KEY''\<rparr>"

record azure_provider =
  az_base_url :: string
  az_api_key_env :: string
  az_api_version :: string

definition azure_provider_default :: azure_provider where
  "azure_provider_default =
     \<lparr>az_base_url = [], az_api_key_env = ''AZURE_OPENAI_API_KEY'', az_api_version = ''2024-10-21''\<rparr>"

record bedrock_provider =
  br_region :: string
  br_access_key_env :: string
  br_secret_key_env :: string
  br_session_token_env :: string

definition bedrock_provider_default :: bedrock_provider where
  "bedrock_provider_default =
     \<lparr>br_region = ''us-east-1'', br_access_key_env = ''AWS_ACCESS_KEY_ID'',
      br_secret_key_env = ''AWS_SECRET_ACCESS_KEY'', br_session_token_env = ''AWS_SESSION_TOKEN''\<rparr>"

record providers =
  pr_openai :: openai_provider
  pr_anthropic :: anthropic_provider
  pr_azure :: azure_provider
  pr_bedrock :: bedrock_provider

definition providers_default :: providers where
  "providers_default = \<lparr>pr_openai = openai_provider_default, pr_anthropic = anthropic_provider_default,
     pr_azure = azure_provider_default, pr_bedrock = bedrock_provider_default\<rparr>"

record auth_config =
  admin_token_env :: string
  auth_keys :: "virtual_key list"

definition auth_config_default :: auth_config where
  "auth_config_default = \<lparr>admin_token_env = ''VAULTPLANE_ADMIN_TOKEN'', auth_keys = []\<rparr>"

record route =
  rt_provider :: string
  rt_model :: string

record model_config =
  mc_name :: string
  mc_primary :: route
  mc_fallbacks :: "route list"
  mc_retry_on :: "u16 list"
  mc_timeout_ms :: u64

definition default_retry_on :: "u16 list" where
  "default_retry_on = [429, 500, 502, 503, 504]"

definition default_timeout_ms :: u64 where
  "default_timeout_ms = 30000"

record model_pricing =
  input_per_1k_tokens_usd :: f64
  output_per_1k_tokens_usd :: f64

record pricing =
  pricing_providers :: "model_pricing table table"

definition pricing_default :: pricing where
  "pricing_default = \<lparr>pricing_providers = []\<rparr>"

record cache_config =
  cc_enabled :: bool
  cc_size_mb :: u64
  cc_ttl_seconds :: u64

definition cache_config_default :: cache_config where
  "cache_config_default = \<lparr>cc_enabled = True, cc_size_mb = 256, cc_ttl_seconds = 3600\<rparr>"

datatype fail_mode = FailOpen | FailClosed

definition default_plugin_hook :: string where
  "default_plugin_hook = ''inspect-request''"

definition default_latency_budget_ms :: u32 where
  "default_latency_budget_ms = 5"

definition default_on_timeout :: fail_mode where
  "default_on_timeout = FailOpen"

record wasm_plugin_config =
  wp_name :: string
  wp_path :: string
  wp_hook :: string
  wp_latency_budget_ms :: u32
  wp_on_timeout :: fail_mode
  wp_bind_routes :: "string list"

datatype pii_pattern = Ssn | CreditCard | PhoneUs | Email

definition pii_pattern_all :: "pii_pattern list" where
  "pii_pattern_all = [Ssn, CreditCard, PhoneUs, Email]"

definition default_pii_patterns :: "pii_pattern list" where
  "default_pii_patterns = pii_pattern_all"

definition default_redaction_replacement :: string where
  "default_redaction_replacement = ''[REDACTED]''"

record pii_redaction_config =
  prc_patterns :: "pii_pattern list"
  prc_replacement :: string

definition pii_redaction_config_default :: pii_redaction_config where
  "pii_redaction_config_default =
     \<lparr>prc_patterns = default_pii_patterns, prc_replacement = default_redaction_replacement\<rparr>"

datatype plugin_config = PiiRedaction pii_redaction_config | WasmComponent wasm_plugin_config

record config =
  cfg_listen :: listen
  cfg_providers :: providers
  cfg_auth :: auth_config
  cfg_models :: "model_config list"
  cfg_pricing :: pricing
  cfg_cache :: cache_config
  cfg_plugins :: "plugin_config list"
  cfg_control_plane :: control_plane
  cfg_shutdown :: shutdown

definition config_default :: config where
  "config_default = \<lparr>cfg_listen = listen_default, cfg_providers = providers_default,
     cfg_auth = auth_config_default, cfg_models = [], cfg_pricing = pricing_default,
     cfg_cache = cache_config_default, cfg_plugins = [], cfg_control_plane = control_plane_default,
     cfg_shutdown = shutdown_default\<rparr>"

text \<open>
  \<open>extract defaults path\<close> is figment's merge of the defaults, the optional YAML file and the
  environment; an error is its message.
\<close>

definition config_load :: "(config \<Rightarrow> string option \<Rightarrow> string + config) \<Rightarrow> string option \<Rightarrow> core_error + config" where
  "config_load extract path =
     (case extract config_default path of Inl e \<Rightarrow> Inl (ConfigError e) | Inr c \<Rightarrow> Inr c)"

section \<open>Pricing\<close>

text \<open>\<open>extract_yaml\<close> is figment's reading of the table shipped with the binary.\<close>

definition pricing_bundled :: "pricing option \<Rightarrow> pricing" where
  "pricing_bundled extract_yaml = unwrap_or extract_yaml pricing_default"

definition overlay_models :: "model_pricing table \<Rightarrow> model_pricing table \<Rightarrow> model_pricing table" where
  "overlay_models models entry = fold (\<lambda>(model, price). tput model price) models entry"

definition overlaid_with :: "pricing \<Rightarrow> pricing \<Rightarrow> pricing" where
  "overlaid_with base overrides =
     \<lparr>pricing_providers =
        fold (\<lambda>(provider, models) providers.
                tput provider (overlay_models models (unwrap_or (tget providers provider) [])) providers)
          (pricing_providers overrides) (pricing_providers base)\<rparr>"

definition price_of :: "pricing \<Rightarrow> string \<Rightarrow> string \<Rightarrow> model_pricing option" where
  "price_of p provider model =
     (case tget (pricing_providers p) provider of None \<Rightarrow> None | Some models \<Rightarrow> tget models model)"

definition pricing_wf :: "pricing \<Rightarrow> bool" where
  "pricing_wf p = (table_wf (pricing_providers p) \<and> (\<forall>(k, m) \<in> set (pricing_providers p). table_wf m))"

lemma tget_overlay_models:
  "table_wf models \<Longrightarrow>
     tget (overlay_models models entry) m = (case tget models m of Some v \<Rightarrow> Some v | None \<Rightarrow> tget entry m)"
proof -
  assume "table_wf models"
  then have "map_of (rev models) = map_of models"
    by (simp add: table_wf_def map_of_inject_set distinct_map rev_map [symmetric])
  then show ?thesis by (simp add: overlay_models_def tget_fold_tput tget_def [of models] split: option.split)
qed

lemma fold_overlay_get:
  "distinct (map fst kvs) \<Longrightarrow>
     tget (fold (\<lambda>(p, ms) t. tput p (g p ms (tget t p)) t) kvs t) p =
     (case map_of kvs p of Some ms \<Rightarrow> Some (g p ms (tget t p)) | None \<Rightarrow> tget t p)"
proof (induction kvs arbitrary: t)
  case (Cons kv kvs)
  obtain p' ms where kv: "kv = (p', ms)" by (cases kv)
  with Cons.prems have "map_of kvs p' = None" by (simp add: map_of_eq_None_iff)
  with Cons kv show ?case by (auto split: option.splits)
qed simp

lemma price_of_overlaid:
  assumes "pricing_wf overrides"
  shows "price_of (overlaid_with base overrides) provider model =
    (case price_of overrides provider model of Some v \<Rightarrow> Some v | None \<Rightarrow> price_of base provider model)"
proof -
  let ?t = "pricing_providers overrides"
  have d: "distinct (map fst ?t)" using assms by (simp add: pricing_wf_def table_wf_def)
  have wf: "table_wf ms" if "map_of ?t provider = Some ms" for ms
    using assms map_of_SomeD [OF that] by (auto simp: pricing_wf_def)
  have "tget (pricing_providers (overlaid_with base overrides)) provider =
      (case map_of ?t provider of
         Some ms \<Rightarrow> Some (overlay_models ms (unwrap_or (tget (pricing_providers base) provider) []))
       | None \<Rightarrow> tget (pricing_providers base) provider)"
    using fold_overlay_get [OF d, where g = "\<lambda>p ms old. overlay_models ms (unwrap_or old [])"]
    by (simp add: overlaid_with_def)
  then show ?thesis
    using wf by (cases "map_of ?t provider"; cases "tget (pricing_providers base) provider")
      (auto simp: price_of_def tget_def [of ?t] tget_overlay_models split: option.splits)
qed

end
