(* ===== verification/AuditLog.thy ===== *)
theory AuditLog
  imports Prelude F64
begin

text \<open>
  The audit stream (\<open>audit.rs\<close>): every function builds one structured event; the operations
  of the gateway return the events they emit, in order.
\<close>

datatype outcome = Success | Failure

fun outcome_as_str :: "outcome \<Rightarrow> string" where
  "outcome_as_str Success = ''success''"
| "outcome_as_str Failure = ''failure''"

record audit_event =
  au_target :: string
  au_action :: string
  au_actor :: string
  au_subject :: string
  au_outcome :: string
  au_fields :: "(string \<times> string) list"

definition AUDIT_TARGET :: string where
  "AUDIT_TARGET = ''vaultplane::audit''"

definition audit :: "string \<Rightarrow> string \<Rightarrow> string \<Rightarrow> outcome \<Rightarrow> (string \<times> string) list \<Rightarrow> audit_event" where
  "audit action actor subject oc extra =
     \<lparr>au_target = AUDIT_TARGET, au_action = action, au_actor = actor, au_subject = subject,
      au_outcome = outcome_as_str oc, au_fields = extra\<rparr>"

definition key_created :: "string \<Rightarrow> string \<Rightarrow> string \<Rightarrow> string \<Rightarrow> string \<Rightarrow> audit_event" where
  "key_created actor key_id team app env =
     audit ''key.create'' actor key_id Success [(''team'', team), (''app'', app), (''env'', env)]"

definition key_revoked :: "string \<Rightarrow> string \<Rightarrow> bool \<Rightarrow> audit_event" where
  "key_revoked actor key_id found =
     audit ''key.revoke'' actor key_id (if found then Success else Failure) []"

definition config_reloaded :: "string \<Rightarrow> outcome \<Rightarrow> string \<Rightarrow> audit_event" where
  "config_reloaded actor oc detail = audit ''config.reload'' actor ''config'' oc [(''detail'', detail)]"

definition plugin_loaded :: "string \<Rightarrow> string \<Rightarrow> string \<Rightarrow> audit_event" where
  "plugin_loaded name kind source =
     audit ''plugin.load'' ''gateway'' name Success [(''kind'', kind), (''source'', source)]"

definition plugin_rejected :: "string \<Rightarrow> string \<Rightarrow> string \<Rightarrow> u16 \<Rightarrow> audit_event" where
  "plugin_rejected virtual_key_id plugin reason status =
     audit ''plugin.reject'' ''gateway'' virtual_key_id Failure
       [(''plugin'', plugin), (''reason'', reason), (''status'', show_nat (unat status))]"

definition control_plane_sync :: "outcome \<Rightarrow> string \<Rightarrow> string \<Rightarrow> string \<Rightarrow> audit_event" where
  "control_plane_sync oc resource reason detail =
     audit ''control_plane.sync'' ''control-plane'' ''link'' oc
       [(''resource'', resource), (''reason'', reason), (''detail'', detail)]"

definition failover :: "string \<Rightarrow> string \<Rightarrow> string \<Rightarrow> string \<Rightarrow> audit_event" where
  "failover virtual_model from_provider to_provider reason =
     audit ''failover'' ''gateway'' virtual_model Success
       [(''from_provider'', from_provider), (''to_provider'', to_provider), (''reason'', reason)]"

section \<open>Span attributes\<close>

text \<open>What \<open>Span::record\<close> is given: a field name and a value.\<close>

datatype span_value = SpanNat nat | SpanF64 f64 | SpanStr string | SpanBool bool

type_synonym span_record = "string \<times> span_value"

end
