(* ===== verification/Provider.thy ===== *)
theory Provider
  imports Config Json
begin

text \<open>
  The provider contract (\<open>provider.rs\<close>): requests, responses, the \<open>Connector\<close> trait as a record
  of functions, and the reading of token usage from an OpenAI-shaped body.

  Code that reaches the network runs against an abstract world \<open>'w\<close> that the connectors
  thread; a body stream is the list of its chunks, an I/O error among them on the left.
\<close>

type_synonym body_stream = "(string + bytes) list"

definition single_chunk :: "bytes \<Rightarrow> body_stream" where
  "single_chunk bs = [Inr bs]"

record usage =
  prompt_tokens :: u32
  completion_tokens :: u32

record chat_request =
  cq_model :: string
  cq_stream :: bool
  cq_body :: bytes

record embeddings_request =
  eq_model :: string
  eq_body :: bytes

record chat_response =
  rs_status :: u16
  rs_content_type :: "string option"
  rs_body :: body_stream
  rs_provider :: string
  rs_model :: string
  rs_usage :: "usage option"
  rs_attempts :: u32

type_synonym 'w chat_call = "'w \<Rightarrow> (core_error + chat_response) exec \<times> 'w"

record 'w connector =
  conn_name :: string
  conn_chat :: "chat_request \<Rightarrow> 'w chat_call"
  conn_embeddings :: "embeddings_request \<Rightarrow> 'w chat_call"
  conn_reachable :: "'w \<Rightarrow> bool"

text \<open>The default methods of the trait.\<close>

definition default_embeddings :: "string \<Rightarrow> embeddings_request \<Rightarrow> 'w chat_call" where
  "default_embeddings name request w =
     (Ret (Inl (ProviderError (''provider '' @ [CHR 0x27] @ name @ [CHR 0x27] @ '' does not support embeddings''))), w)"

definition default_reachable :: "'w \<Rightarrow> bool" where
  "default_reachable w = True"

text \<open>\<open>n as u32\<close> keeps the low 32 bits.\<close>

definition as_u32 :: "nat \<Rightarrow> u32" where
  "as_u32 n = of_nat n"

definition parse_openai_usage :: "serde_json \<Rightarrow> bytes \<Rightarrow> usage option" where
  "parse_openai_usage J body =
     Option.bind (result_ok (from_slice J body)) (\<lambda>v.
     Option.bind (json_get v ''usage'') (\<lambda>usage.
     Option.bind (Option.bind (json_get usage ''prompt_tokens'') json_as_u64) (\<lambda>p.
     Some \<lparr>prompt_tokens = as_u32 p,
           completion_tokens =
             unwrap_or (map_option as_u32 (Option.bind (json_get usage ''completion_tokens'') json_as_u64)) 0\<rparr>)))"

section \<open>Outbound HTTP\<close>

text \<open>
  The parts of \<open>reqwest\<close> the connectors use. A transport failure is its message and whether
  it was a timeout; the body of a response is read later, as a stream or at once.
\<close>

record http_request =
  hq_url :: string
  hq_headers :: "(string \<times> string) list"
  hq_body :: bytes

record http_response =
  hr_status :: u16
  hr_content_type :: "string option"
  hr_body :: body_stream

record 'w http =
  http_get_ok :: "string \<Rightarrow> nat \<Rightarrow> 'w \<Rightarrow> bool"
  http_post :: "http_request \<Rightarrow> 'w \<Rightarrow> (string + http_response) \<times> 'w"

definition REACHABILITY_TIMEOUT :: nat where
  "REACHABILITY_TIMEOUT = 3"

definition http_reachable :: "'w http \<Rightarrow> string \<Rightarrow> 'w \<Rightarrow> bool" where
  "http_reachable H url w = (if url = [] then False else http_get_ok H url REACHABILITY_TIMEOUT w)"

text \<open>\<open>response.bytes().await\<close>: the chunks joined, or the first I/O error.\<close>

fun collect_stream :: "body_stream \<Rightarrow> string + bytes" where
  "collect_stream [] = Inr []"
| "collect_stream (Inl e # cs) = Inl e"
| "collect_stream (Inr b # cs) = (case collect_stream cs of Inl e \<Rightarrow> Inl e | Inr bs \<Rightarrow> Inr (b @ bs))"

lemma collect_stream_Inr: "collect_stream (map Inr bs) = Inr (concat bs)"
  by (induction bs) auto

lemma collect_single_chunk [simp]: "collect_stream (single_chunk bs) = Inr bs"
  by (simp add: single_chunk_def)

end
