(* ===== verification/OpenAi.thy ===== *)
theory OpenAi
  imports Provider
begin

text \<open>
  The connectors that speak the OpenAI schema: \<open>provider/openai.rs\<close> and \<open>provider/azure.rs\<close>.
  The result of building the HTTP client is a parameter of the constructors.
\<close>

type_synonym client_build = "string + unit"

definition build_client :: "client_build \<Rightarrow> 'c \<Rightarrow> core_error + 'c" where
  "build_client cb c =
     (case cb of Inl e \<Rightarrow> Inl (ProviderError (''failed to build HTTP client: '' @ e)) | Inr _ \<Rightarrow> Inr c)"

section \<open>OpenAI\<close>

record openai_connector =
  oc_base_url :: string
  oc_api_key :: string

definition openai_new :: "client_build \<Rightarrow> string \<Rightarrow> string \<Rightarrow> core_error + openai_connector" where
  "openai_new cb base_url api_key =
     build_client cb \<lparr>oc_base_url = trim_end_matches (CHR ''/'') base_url, oc_api_key = api_key\<rparr>"

definition rewrite_model :: "serde_json \<Rightarrow> bytes \<Rightarrow> string \<Rightarrow> bytes" where
  "rewrite_model J body model =
     (case from_slice J body of
        Inr (JObject m) \<Rightarrow> unwrap_or (result_ok (to_vec J (JObject (obj_insert ''model'' (JString model) m)))) body
      | Inr _ \<Rightarrow> body
      | Inl _ \<Rightarrow> body)"

definition JSON_TYPE :: string where
  "JSON_TYPE = ''application/json''"

definition openai_post :: "serde_json \<Rightarrow> openai_connector \<Rightarrow> string \<Rightarrow> bytes \<Rightarrow> string \<Rightarrow> http_request" where
  "openai_post J c path body model =
     \<lparr>hq_url = oc_base_url c @ path,
      hq_headers = [(''authorization'', ''Bearer '' @ oc_api_key c), (''content-type'', JSON_TYPE)],
      hq_body = rewrite_model J body model\<rparr>"

definition openai_chat :: "serde_json \<Rightarrow> 'w http \<Rightarrow> openai_connector \<Rightarrow> chat_request \<Rightarrow> 'w chat_call" where
  "openai_chat J H c request w =
     (case http_post H (openai_post J c ''/v1/chat/completions'' (cq_body request) (cq_model request)) w of
        (Inl e, w') \<Rightarrow> (Ret (Inl (ProviderError (''request to OpenAI failed: '' @ e))), w')
      | (Inr response, w') \<Rightarrow>
          let status = hr_status response; content_type = hr_content_type response
          in if \<not> cq_stream request then
               (case collect_stream (hr_body response) of
                  Inl e \<Rightarrow> (Ret (Inl (ProviderError (''reading OpenAI response failed: '' @ e))), w')
                | Inr upstream_body \<Rightarrow>
                    (Ret (Inr \<lparr>rs_status = status, rs_content_type = content_type,
                          rs_body = single_chunk upstream_body, rs_provider = ''openai'',
                          rs_model = cq_model request, rs_usage = parse_openai_usage J upstream_body,
                          rs_attempts = 1\<rparr>), w'))
             else
               (Ret (Inr \<lparr>rs_status = status, rs_content_type = content_type, rs_body = hr_body response,
                     rs_provider = ''openai'', rs_model = cq_model request, rs_usage = None,
                     rs_attempts = 1\<rparr>), w'))"

definition openai_embeddings :: "serde_json \<Rightarrow> 'w http \<Rightarrow> openai_connector \<Rightarrow> embeddings_request \<Rightarrow> 'w chat_call" where
  "openai_embeddings J H c request w =
     (case http_post H (openai_post J c ''/v1/embeddings'' (eq_body request) (eq_model request)) w of
        (Inl e, w') \<Rightarrow> (Ret (Inl (ProviderError (''request to OpenAI failed: '' @ e))), w')
      | (Inr response, w') \<Rightarrow>
          (case collect_stream (hr_body response) of
             Inl e \<Rightarrow> (Ret (Inl (ProviderError (''reading OpenAI response failed: '' @ e))), w')
           | Inr upstream_body \<Rightarrow>
               (Ret (Inr \<lparr>rs_status = hr_status response, rs_content_type = hr_content_type response,
                     rs_body = single_chunk upstream_body, rs_provider = ''openai'',
                     rs_model = eq_model request, rs_usage = parse_openai_usage J upstream_body,
                     rs_attempts = 1\<rparr>), w')))"

definition openai_connector_impl :: "serde_json \<Rightarrow> 'w http \<Rightarrow> openai_connector \<Rightarrow> 'w connector" where
  "openai_connector_impl J H c =
     \<lparr>conn_name = ''openai'', conn_chat = openai_chat J H c, conn_embeddings = openai_embeddings J H c,
      conn_reachable = http_reachable H (oc_base_url c)\<rparr>"

section \<open>Azure OpenAI\<close>

record azure_connector =
  ac_base_url :: string
  ac_api_key :: string
  ac_api_version :: string

definition azure_new :: "client_build \<Rightarrow> string \<Rightarrow> string \<Rightarrow> string \<Rightarrow> core_error + azure_connector" where
  "azure_new cb base_url api_key api_version =
     build_client cb \<lparr>ac_base_url = trim_end_matches (CHR ''/'') base_url, ac_api_key = api_key,
                      ac_api_version = api_version\<rparr>"

definition azure_post :: "azure_connector \<Rightarrow> string \<Rightarrow> string \<Rightarrow> bytes \<Rightarrow> http_request" where
  "azure_post c model operation body =
     \<lparr>hq_url = ac_base_url c @ ''/openai/deployments/'' @ model @ ''/'' @ operation @ ''?api-version='' @ ac_api_version c,
      hq_headers = [(''api-key'', ac_api_key c), (''content-type'', JSON_TYPE)],
      hq_body = body\<rparr>"

definition azure_chat :: "serde_json \<Rightarrow> 'w http \<Rightarrow> azure_connector \<Rightarrow> chat_request \<Rightarrow> 'w chat_call" where
  "azure_chat J H c request w =
     (case http_post H (azure_post c (cq_model request) ''chat/completions'' (cq_body request)) w of
        (Inl e, w') \<Rightarrow> (Ret (Inl (ProviderError (''request to Azure OpenAI failed: '' @ e))), w')
      | (Inr response, w') \<Rightarrow>
          let status = hr_status response; content_type = hr_content_type response
          in if \<not> cq_stream request then
               (case collect_stream (hr_body response) of
                  Inl e \<Rightarrow> (Ret (Inl (ProviderError (''reading Azure OpenAI response failed: '' @ e))), w')
                | Inr upstream_body \<Rightarrow>
                    (Ret (Inr \<lparr>rs_status = status, rs_content_type = content_type,
                          rs_body = single_chunk upstream_body, rs_provider = ''azure'',
                          rs_model = cq_model request, rs_usage = parse_openai_usage J upstream_body,
                          rs_attempts = 1\<rparr>), w'))
             else
               (Ret (Inr \<lparr>rs_status = status, rs_content_type = content_type, rs_body = hr_body response,
                     rs_provider = ''azure'', rs_model = cq_model request, rs_usage = None,
                     rs_attempts = 1\<rparr>), w'))"

definition azure_embeddings :: "serde_json \<Rightarrow> 'w http \<Rightarrow> azure_connector \<Rightarrow> embeddings_request \<Rightarrow> 'w chat_call" where
  "azure_embeddings J H c request w =
     (case http_post H (azure_post c (eq_model request) ''embeddings'' (eq_body request)) w of
        (Inl e, w') \<Rightarrow> (Ret (Inl (ProviderError (''request to Azure OpenAI failed: '' @ e))), w')
      | (Inr response, w') \<Rightarrow>
          (case collect_stream (hr_body response) of
             Inl e \<Rightarrow> (Ret (Inl (ProviderError (''reading Azure OpenAI response failed: '' @ e))), w')
           | Inr upstream_body \<Rightarrow>
               (Ret (Inr \<lparr>rs_status = hr_status response, rs_content_type = hr_content_type response,
                     rs_body = single_chunk upstream_body, rs_provider = ''azure'',
                     rs_model = eq_model request, rs_usage = parse_openai_usage J upstream_body,
                     rs_attempts = 1\<rparr>), w')))"

definition azure_connector_impl :: "serde_json \<Rightarrow> 'w http \<Rightarrow> azure_connector \<Rightarrow> 'w connector" where
  "azure_connector_impl J H c =
     \<lparr>conn_name = ''azure'', conn_chat = azure_chat J H c, conn_embeddings = azure_embeddings J H c,
      conn_reachable = http_reachable H (ac_base_url c)\<rparr>"

section \<open>The rewritten model\<close>

text \<open>
  A parser reading a body the encoder wrote gives the encoded value back.
\<close>

definition to_vec_roundtrip :: "serde_json \<Rightarrow> bool" where
  "to_vec_roundtrip J = (\<forall>v b. to_vec J v = Inr b \<longrightarrow> from_slice J b = Inr v)"

lemma rewrite_model_object:
  assumes "to_vec_roundtrip J" "from_slice J body = Inr (JObject m)"
    and "result_ok (to_vec J (JObject (obj_insert ''model'' (JString model) m))) \<noteq> None"
  shows "from_slice J (rewrite_model J body model) = Inr (JObject (obj_insert ''model'' (JString model) m))"
  using assms by (auto simp: rewrite_model_def to_vec_roundtrip_def result_ok_def split: sum.splits)

end
