(* ===== verification/Registry.thy ===== *)
theory Registry
  imports Provider AuditLog
begin

text \<open>
  The model registry and its failover loop (\<open>provider/registry.rs\<close>). The two dispatch loops,
  for chat and for embeddings, are separate functions in the code and here; the locale
  \<open>failover_dispatch\<close> states the equations both satisfy and proves their specification once.
\<close>

section \<open>Resolved models\<close>

record 'w resolved_route =
  rr_connector :: "'w connector"
  rr_model :: string

record 'w resolved_model =
  rm_routes :: "'w resolved_route list"
  rm_retry_on :: "u16 set"
  rm_timeout :: nat

record 'w registry =
  reg_connectors :: "'w connector table"
  reg_models :: "'w resolved_model table"

definition SQ :: char where "SQ = CHR 0x27"

fun resolve_routes :: "'w connector table \<Rightarrow> string \<Rightarrow> route list \<Rightarrow> core_error + 'w resolved_route list" where
  "resolve_routes connectors name [] = Inr []"
| "resolve_routes connectors name (route # rest) =
     (case tget connectors (rt_provider route) of
        None \<Rightarrow>
          Inl (ConfigError (''model '' @ [SQ] @ name @ [SQ] @ '' references unknown provider '' @
                 [SQ] @ rt_provider route @ [SQ]))
      | Some connector \<Rightarrow>
          (case resolve_routes connectors name rest of
             Inl e \<Rightarrow> Inl e
           | Inr routes \<Rightarrow> Inr (\<lparr>rr_connector = connector, rr_model = rt_model route\<rparr> # routes)))"

definition resolve_model :: "'w connector table \<Rightarrow> model_config \<Rightarrow> core_error + 'w resolved_model" where
  "resolve_model connectors model =
     (case resolve_routes connectors (mc_name model) (mc_primary model # mc_fallbacks model) of
        Inl e \<Rightarrow> Inl e
      | Inr routes \<Rightarrow> Inr \<lparr>rm_routes = routes, rm_retry_on = set (mc_retry_on model),
                           rm_timeout = unat (mc_timeout_ms model)\<rparr>)"

fun resolve_models ::
  "'w connector table \<Rightarrow> model_config list \<Rightarrow> 'w resolved_model table \<Rightarrow> core_error + 'w resolved_model table" where
  "resolve_models connectors [] resolved = Inr resolved"
| "resolve_models connectors (model # models) resolved =
     (case resolve_model connectors model of
        Inl e \<Rightarrow> Inl e
      | Inr r \<Rightarrow> resolve_models connectors models (tput (mc_name model) r resolved))"

definition registry_new :: "'w connector table \<Rightarrow> model_config list \<Rightarrow> core_error + 'w registry" where
  "registry_new connectors models =
     (case resolve_models connectors models [] of
        Inl e \<Rightarrow> Inl e
      | Inr resolved \<Rightarrow> Inr \<lparr>reg_connectors = connectors, reg_models = resolved\<rparr>)"

definition fallback_connector :: "'w registry \<Rightarrow> string \<Rightarrow> 'w connector option" where
  "fallback_connector reg model =
     tget (reg_connectors reg) (if starts_with ''claude'' model then ''anthropic'' else ''openai'')"

definition route_name :: "'w resolved_model \<Rightarrow> nat \<Rightarrow> string" where
  "route_name resolved index =
     (if index < length (rm_routes resolved) then conn_name (rr_connector (rm_routes resolved ! index))
      else ''none'')"

section \<open>Dispatch\<close>

text \<open>
  \<open>tokio::time::timeout\<close> runs a call against the world under a limit in milliseconds; \<open>None\<close>
  is an elapsed timer, after which the call is dropped.
\<close>

type_synonym 'w timeout = "nat \<Rightarrow> 'w chat_call \<Rightarrow> 'w \<Rightarrow> (core_error + chat_response) exec option \<times> 'w"

type_synonym 'w dispatched = "(core_error + chat_response) exec \<times> audit_event list \<times> 'w"

definition after_failover :: "audit_event \<Rightarrow> 'w dispatched \<Rightarrow> 'w dispatched" where
  "after_failover ev d = (case d of (r, evs, w) \<Rightarrow> (r, ev # evs, w))"

definition timed_out_error :: "'w resolved_route \<Rightarrow> core_error" where
  "timed_out_error route =
     UpstreamTimeout (''request timed out on all configured providers (last: '' @
       conn_name (rr_connector route) @ '')'')"

definition timeout_reason :: "'w resolved_model \<Rightarrow> string" where
  "timeout_reason resolved = ''timeout after '' @ show_nat (rm_timeout resolved) @ ''ms''"

definition status_reason :: "u16 \<Rightarrow> string" where
  "status_reason status = ''status '' @ show_nat (unat status)"

definition no_providers :: core_error where
  "no_providers = ProviderError ''no providers were attempted''"

fun dispatch_loop ::
  "'w timeout \<Rightarrow> 'w resolved_model \<Rightarrow> string \<Rightarrow> chat_request \<Rightarrow> nat \<Rightarrow> 'w resolved_route list \<Rightarrow> 'w \<Rightarrow> 'w dispatched" where
  "dispatch_loop T resolved virtual_model request index [] w = (Ret (Inl no_providers), [], w)"
| "dispatch_loop T resolved virtual_model request index (route # rest) w =
     (let is_last = (index = length (rm_routes resolved) - 1);
          attempt = \<lparr>cq_model = rr_model route, cq_stream = cq_stream request, cq_body = cq_body request\<rparr>;
          name = conn_name (rr_connector route);
          next = route_name resolved (index + 1)
      in case T (rm_timeout resolved) (conn_chat (rr_connector route) attempt) w of
           (Some (Ret (Inr response)), w') \<Rightarrow>
             if \<not> is_last \<and> rs_status response \<in> rm_retry_on resolved
             then after_failover (failover virtual_model name next (status_reason (rs_status response)))
                    (dispatch_loop T resolved virtual_model request (index + 1) rest w')
             else (Ret (Inr (response\<lparr>rs_attempts := as_u32 (index + 1)\<rparr>)), [], w')
         | (Some (Ret (Inl err)), w') \<Rightarrow>
             if is_last then (Ret (Inl err), [], w')
             else after_failover (failover virtual_model name next (show_core_error err))
                    (dispatch_loop T resolved virtual_model request (index + 1) rest w')
         | (Some Panic, w') \<Rightarrow> (Panic, [], w')
         | (None, w') \<Rightarrow>
             if is_last then (Ret (Inl (timed_out_error route)), [], w')
             else after_failover (failover virtual_model name next (timeout_reason resolved))
                    (dispatch_loop T resolved virtual_model request (index + 1) rest w'))"

definition dispatch ::
  "'w timeout \<Rightarrow> 'w resolved_model \<Rightarrow> string \<Rightarrow> chat_request \<Rightarrow> 'w \<Rightarrow> 'w dispatched" where
  "dispatch T resolved virtual_model request w =
     dispatch_loop T resolved virtual_model request 0 (rm_routes resolved) w"

fun dispatch_embeddings_loop ::
  "'w timeout \<Rightarrow> 'w resolved_model \<Rightarrow> string \<Rightarrow> embeddings_request \<Rightarrow> nat \<Rightarrow> 'w resolved_route list \<Rightarrow> 'w \<Rightarrow> 'w dispatched" where
  "dispatch_embeddings_loop T resolved virtual_model request index [] w = (Ret (Inl no_providers), [], w)"
| "dispatch_embeddings_loop T resolved virtual_model request index (route # rest) w =
     (let is_last = (index = length (rm_routes resolved) - 1);
          attempt = \<lparr>eq_model = rr_model route, eq_body = eq_body request\<rparr>;
          name = conn_name (rr_connector route);
          next = route_name resolved (index + 1)
      in case T (rm_timeout resolved) (conn_embeddings (rr_connector route) attempt) w of
           (Some (Ret (Inr response)), w') \<Rightarrow>
             if \<not> is_last \<and> rs_status response \<in> rm_retry_on resolved
             then after_failover (failover virtual_model name next (status_reason (rs_status response)))
                    (dispatch_embeddings_loop T resolved virtual_model request (index + 1) rest w')
             else (Ret (Inr (response\<lparr>rs_attempts := as_u32 (index + 1)\<rparr>)), [], w')
         | (Some (Ret (Inl err)), w') \<Rightarrow>
             if is_last then (Ret (Inl err), [], w')
             else after_failover (failover virtual_model name next (show_core_error err))
                    (dispatch_embeddings_loop T resolved virtual_model request (index + 1) rest w')
         | (Some Panic, w') \<Rightarrow> (Panic, [], w')
         | (None, w') \<Rightarrow>
             if is_last then (Ret (Inl (timed_out_error route)), [], w')
             else after_failover (failover virtual_model name next (timeout_reason resolved))
                    (dispatch_embeddings_loop T resolved virtual_model request (index + 1) rest w'))"

definition dispatch_embeddings ::
  "'w timeout \<Rightarrow> 'w resolved_model \<Rightarrow> string \<Rightarrow> embeddings_request \<Rightarrow> 'w \<Rightarrow> 'w dispatched" where
  "dispatch_embeddings T resolved virtual_model request w =
     dispatch_embeddings_loop T resolved virtual_model request 0 (rm_routes resolved) w"

section \<open>The registry as a connector\<close>

definition add_connector :: "'w connector \<Rightarrow> 'w connector list \<Rightarrow> 'w connector list" where
  "add_connector c cs = (if conn_name c \<in> conn_name ` set cs then cs else cs @ [c])"

text \<open>The distinct connectors behind the configured models, by name, first occurrence first.\<close>

definition backing_connectors :: "'w registry \<Rightarrow> 'w connector list" where
  "backing_connectors reg =
     fold add_connector (map rr_connector (concat (map (rm_routes \<circ> snd) (reg_models reg)))) []"

definition registry_reachable :: "'w registry \<Rightarrow> 'w \<Rightarrow> bool" where
  "registry_reachable reg w =
     (if backing_connectors reg = [] then True
      else list_ex (\<lambda>c. conn_reachable c w) (backing_connectors reg))"

definition no_provider_for :: "string \<Rightarrow> core_error" where
  "no_provider_for model = ProviderError (''no provider configured for model '' @ [SQ] @ model @ [SQ])"

definition registry_chat :: "'w timeout \<Rightarrow> 'w registry \<Rightarrow> chat_request \<Rightarrow> 'w \<Rightarrow> 'w dispatched" where
  "registry_chat T reg request w =
     (case tget (reg_models reg) (cq_model request) of
        Some resolved \<Rightarrow> dispatch T resolved (cq_model request) request w
      | None \<Rightarrow>
          (case fallback_connector reg (cq_model request) of
             Some connector \<Rightarrow> (case conn_chat connector request w of (r, w') \<Rightarrow> (r, [], w'))
           | None \<Rightarrow> (Ret (Inl (no_provider_for (cq_model request))), [], w)))"

definition registry_embeddings :: "'w timeout \<Rightarrow> 'w registry \<Rightarrow> embeddings_request \<Rightarrow> 'w \<Rightarrow> 'w dispatched" where
  "registry_embeddings T reg request w =
     (case tget (reg_models reg) (eq_model request) of
        Some resolved \<Rightarrow> dispatch_embeddings T resolved (eq_model request) request w
      | None \<Rightarrow>
          (case fallback_connector reg (eq_model request) of
             Some connector \<Rightarrow> (case conn_embeddings connector request w of (r, w') \<Rightarrow> (r, [], w'))
           | None \<Rightarrow> (Ret (Inl (no_provider_for (eq_model request))), [], w)))"

section \<open>Failover, specified\<close>

text \<open>
  \<open>call\<close> is one timed attempt on a route. The world before attempt \<open>i\<close> is what the earlier
  attempts left, and the attempt's outcome is the timer (\<open>None\<close>), an error, a response or a panic.
\<close>

type_synonym 'w route_call = "'w resolved_route \<Rightarrow> 'w \<Rightarrow> (core_error + chat_response) exec option \<times> 'w"

primrec attempt_world :: "'w route_call \<Rightarrow> 'w resolved_route list \<Rightarrow> 'w \<Rightarrow> nat \<Rightarrow> 'w" where
  "attempt_world call routes w 0 = w"
| "attempt_world call routes w (Suc i) = snd (call (routes ! i) (attempt_world call routes w i))"

definition attempt_outcome ::
  "'w route_call \<Rightarrow> 'w resolved_route list \<Rightarrow> 'w \<Rightarrow> nat \<Rightarrow> (core_error + chat_response) exec option" where
  "attempt_outcome call routes w i = fst (call (routes ! i) (attempt_world call routes w i))"

definition retryable :: "'w resolved_model \<Rightarrow> (core_error + chat_response) exec option \<Rightarrow> bool" where
  "retryable resolved oc =
     (case oc of
        Some (Ret (Inr response)) \<Rightarrow> rs_status response \<in> rm_retry_on resolved
      | Some Panic \<Rightarrow> False
      | _ \<Rightarrow> True)"

definition failover_reason :: "'w resolved_model \<Rightarrow> (core_error + chat_response) exec option \<Rightarrow> string" where
  "failover_reason resolved oc =
     (case oc of
        Some (Ret (Inr response)) \<Rightarrow> status_reason (rs_status response)
      | Some (Ret (Inl err)) \<Rightarrow> show_core_error err
      | Some Panic \<Rightarrow> []
      | None \<Rightarrow> timeout_reason resolved)"

definition final_result ::
  "'w resolved_route \<Rightarrow> nat \<Rightarrow> (core_error + chat_response) exec option \<Rightarrow> (core_error + chat_response) exec" where
  "final_result route n oc =
     (case oc of
        Some (Ret (Inr response)) \<Rightarrow> Ret (Inr (response\<lparr>rs_attempts := as_u32 n\<rparr>))
      | Some (Ret (Inl err)) \<Rightarrow> Ret (Inl err)
      | Some Panic \<Rightarrow> Panic
      | None \<Rightarrow> Ret (Inl (timed_out_error route)))"

text \<open>
  What a dispatch promises: the routes are tried in order, each once, up to the first whose
  outcome is not retryable or the last one; that outcome is the result, with the number of
  attempts, and one audit event per route given up names it, its successor and the reason.
\<close>

definition failover_spec ::
  "'w route_call \<Rightarrow> 'w resolved_model \<Rightarrow> string \<Rightarrow> 'w \<Rightarrow> 'w dispatched \<Rightarrow> bool" where
  "failover_spec call resolved virtual_model w d =
     (let routes = rm_routes resolved; oc = attempt_outcome call routes w
      in \<exists>n < length routes.
           (\<forall>i < n. retryable resolved (oc i)) \<and>
           (Suc n = length routes \<or> \<not> retryable resolved (oc n)) \<and>
           d = (final_result (routes ! n) (Suc n) (oc n),
                map (\<lambda>i. failover virtual_model (route_name resolved i) (route_name resolved (Suc i))
                           (failover_reason resolved (oc i))) [0..<n],
                attempt_world call routes w (Suc n)))"

locale failover_dispatch =
  fixes loop :: "nat \<Rightarrow> 'w resolved_route list \<Rightarrow> 'w \<Rightarrow> 'w dispatched"
    and call :: "'w route_call"
    and resolved :: "'w resolved_model"
    and virtual_model :: string
  assumes loop_Cons: "loop index (route # rest) w =
    (case call route w of (oc, w') \<Rightarrow>
       if index \<noteq> length (rm_routes resolved) - 1 \<and> retryable resolved oc
       then after_failover
              (failover virtual_model (conn_name (rr_connector route)) (route_name resolved (index + 1))
                 (failover_reason resolved oc))
              (loop (index + 1) rest w')
       else (final_result route (index + 1) oc, [], w'))"
begin

lemma loop_from:
  fixes w :: 'w
  defines "oc \<equiv> attempt_outcome call (rm_routes resolved) w"
  assumes "k < length (rm_routes resolved)"
  shows "\<exists>n < length (rm_routes resolved). k \<le> n \<and> (\<forall>i. k \<le> i \<and> i < n \<longrightarrow> retryable resolved (oc i)) \<and>
     (Suc n = length (rm_routes resolved) \<or> \<not> retryable resolved (oc n)) \<and>
     loop k (drop k (rm_routes resolved)) (attempt_world call (rm_routes resolved) w k) =
       (final_result (rm_routes resolved ! n) (Suc n) (oc n),
        map (\<lambda>i. failover virtual_model (route_name resolved i) (route_name resolved (Suc i))
                   (failover_reason resolved (oc i))) [k..<n],
        attempt_world call (rm_routes resolved) w (Suc n))"
  using assms(2)
proof (induction "length (rm_routes resolved) - k" arbitrary: k)
  case (Suc m)
  let ?rs = "rm_routes resolved" and ?w = "attempt_world call (rm_routes resolved) w"
  have call: "call (?rs ! k) (?w k) = (oc k, ?w (Suc k))"
    by (simp add: oc_def attempt_outcome_def)
  have "drop k ?rs = ?rs ! k # drop (Suc k) ?rs" using Suc.prems by (rule Cons_nth_drop_Suc [symmetric])
  then have step: "loop k (drop k ?rs) (?w k) =
      (if k \<noteq> length ?rs - 1 \<and> retryable resolved (oc k)
       then after_failover
              (failover virtual_model (route_name resolved k) (route_name resolved (Suc k))
                 (failover_reason resolved (oc k)))
              (loop (Suc k) (drop (Suc k) ?rs) (?w (Suc k)))
       else (final_result (?rs ! k) (Suc k) (oc k), [], ?w (Suc k)))"
    using Suc.prems by (simp add: loop_Cons call route_name_def del: attempt_world.simps(2))
  show ?case
  proof (cases "k \<noteq> length ?rs - 1 \<and> retryable resolved (oc k)")
    case True
    then have "Suc k < length ?rs" using Suc.prems by linarith
    moreover have "m = length ?rs - Suc k" using Suc.hyps(2) by simp
    ultimately obtain n where n: "n < length ?rs" "Suc k \<le> n"
      "\<forall>i. Suc k \<le> i \<and> i < n \<longrightarrow> retryable resolved (oc i)"
      "Suc n = length ?rs \<or> \<not> retryable resolved (oc n)"
      "loop (Suc k) (drop (Suc k) ?rs) (?w (Suc k)) =
       (final_result (?rs ! n) (Suc n) (oc n),
        map (\<lambda>i. failover virtual_model (route_name resolved i) (route_name resolved (Suc i))
                   (failover_reason resolved (oc i))) [Suc k..<n], ?w (Suc n))"
      using Suc.hyps(1) by blast
    have "\<forall>i. k \<le> i \<and> i < n \<longrightarrow> retryable resolved (oc i)"
      using n(3) True by (metis Suc_leI le_neq_implies_less)
    moreover have "[k..<n] = k # [Suc k..<n]" using n(2) by (simp add: upt_conv_Cons)
    ultimately show ?thesis
      using True step n(1,2,4,5) by (intro exI [of _ n]) (simp add: after_failover_def del: attempt_world.simps(2))
  next
    case False
    then have "Suc k = length ?rs \<or> \<not> retryable resolved (oc k)" using Suc.prems by auto
    moreover have "loop k (drop k ?rs) (?w k) = (final_result (?rs ! k) (Suc k) (oc k), [], ?w (Suc k))"
      using step False by (simp only: if_False)
    ultimately show ?thesis
      using Suc.prems by (intro exI [of _ k]) (auto simp del: attempt_world.simps(2))
  qed
qed simp

lemma loop_spec:
  "rm_routes resolved \<noteq> [] \<Longrightarrow> failover_spec call resolved virtual_model w (loop 0 (rm_routes resolved) w)"
  using loop_from [of 0 w] by (simp add: failover_spec_def Let_def)

end

abbreviation chat_attempt :: "'w timeout \<Rightarrow> 'w resolved_model \<Rightarrow> chat_request \<Rightarrow> 'w route_call" where
  "chat_attempt T resolved request \<equiv> \<lambda>route.
     T (rm_timeout resolved)
       (conn_chat (rr_connector route)
          \<lparr>cq_model = rr_model route, cq_stream = cq_stream request, cq_body = cq_body request\<rparr>)"

abbreviation embeddings_attempt :: "'w timeout \<Rightarrow> 'w resolved_model \<Rightarrow> embeddings_request \<Rightarrow> 'w route_call" where
  "embeddings_attempt T resolved request \<equiv> \<lambda>route.
     T (rm_timeout resolved)
       (conn_embeddings (rr_connector route) \<lparr>eq_model = rr_model route, eq_body = eq_body request\<rparr>)"

lemmas failover_case_defs = retryable_def failover_reason_def final_result_def

interpretation chat: failover_dispatch
  "dispatch_loop T resolved virtual_model request" "chat_attempt T resolved request" resolved virtual_model
  for T resolved virtual_model request
  by unfold_locales (auto simp: failover_case_defs Let_def split: prod.split option.split exec.split sum.split)

interpretation emb: failover_dispatch
  "dispatch_embeddings_loop T resolved virtual_model request" "embeddings_attempt T resolved request"
  resolved virtual_model
  for T resolved virtual_model request
  by unfold_locales (auto simp: failover_case_defs Let_def split: prod.split option.split exec.split sum.split)

section \<open>Resolution\<close>

text \<open>A resolved model mirrors its configuration: same routes, in order, with their connectors.\<close>

definition resolved_from :: "'w connector table \<Rightarrow> model_config \<Rightarrow> 'w resolved_model \<Rightarrow> bool" where
  "resolved_from connectors mc resolved =
     (map (\<lambda>r. (tget connectors (rt_provider r), rt_model r)) (mc_primary mc # mc_fallbacks mc) =
        map (\<lambda>rr. (Some (rr_connector rr), rr_model rr)) (rm_routes resolved) \<and>
      rm_retry_on resolved = set (mc_retry_on mc) \<and> rm_timeout resolved = unat (mc_timeout_ms mc))"

lemma resolve_routes_ok:
  "resolve_routes connectors name routes = Inr rrs \<Longrightarrow>
     map (\<lambda>r. (tget connectors (rt_provider r), rt_model r)) routes =
     map (\<lambda>rr. (Some (rr_connector rr), rr_model rr)) rrs"
  by (induction routes arbitrary: rrs) (auto split: option.splits sum.splits)

lemma resolve_routes_Inr_iff:
  "(\<exists>rrs. resolve_routes connectors name routes = Inr rrs) \<longleftrightarrow>
     (\<forall>r \<in> set routes. tget connectors (rt_provider r) \<noteq> None)"
  by (induction routes) (auto split: option.splits sum.splits)

lemma resolve_model_ok: "resolve_model connectors mc = Inr resolved \<Longrightarrow> resolved_from connectors mc resolved"
  using resolve_routes_ok [of connectors "mc_name mc" "mc_primary mc # mc_fallbacks mc"]
  unfolding resolve_model_def resolved_from_def by (auto split: sum.splits)

lemma resolve_models_lookup:
  "resolve_models connectors models acc = Inr resolved \<Longrightarrow>
     tget resolved name =
     (case find (\<lambda>m. mc_name m = name) (rev models) of
        Some mc \<Rightarrow> result_ok (resolve_model connectors mc)
      | None \<Rightarrow> tget acc name)"
proof (induction models arbitrary: acc)
  case (Cons m ms)
  then obtain r where r: "resolve_model connectors m = Inr r"
    "resolve_models connectors ms (tput (mc_name m) r acc) = Inr resolved"
    by (auto split: sum.splits)
  from r(1) Cons.IH [OF r(2)] show ?case
    by (auto simp: find_append result_ok_def split: option.splits)
qed simp

lemma resolve_models_Inr:
  "resolve_models connectors models acc = Inr resolved \<Longrightarrow> mc \<in> set models \<Longrightarrow>
     \<exists>r. resolve_model connectors mc = Inr r"
  by (induction models arbitrary: acc) (auto split: sum.splits)

lemma resolve_models_total:
  "(\<And>mc. mc \<in> set models \<Longrightarrow> \<exists>r. resolve_model connectors mc = Inr r) \<Longrightarrow>
     \<exists>resolved. resolve_models connectors models acc = Inr resolved"
proof (induction models arbitrary: acc)
  case (Cons m ms)
  from Cons.prems [of m] obtain r where "resolve_model connectors m = Inr r" by auto
  with Cons.IH Cons.prems show ?case by simp
qed simp

lemma registry_new_lookup:
  assumes "registry_new connectors models = Inr reg"
    and "find (\<lambda>m. mc_name m = name) (rev models) = Some mc"
  shows "\<exists>resolved. tget (reg_models reg) name = Some resolved \<and> resolved_from connectors mc resolved"
proof -
  from assms(1) have r: "resolve_models connectors models [] = Inr (reg_models reg)"
    by (auto simp: registry_new_def split: sum.splits)
  have "mc \<in> set models" using assms(2) by (metis find_Some_iff nth_mem set_rev)
  then obtain resolved where "resolve_model connectors mc = Inr resolved"
    using resolve_models_Inr [OF r] by blast
  with resolve_models_lookup [OF r, of name] assms(2) show ?thesis
    by (auto simp: result_ok_def dest: resolve_model_ok)
qed

lemma resolved_from_routes: "resolved_from connectors mc resolved \<Longrightarrow> rm_routes resolved \<noteq> []"
  by (auto simp: resolved_from_def)

text \<open>An empty list of retry statuses does not switch failover off: a route that errors or times out is still given up.\<close>

lemma empty_retry_on_still_fails_over:
  assumes "rm_routes resolved = [r1, r2]" and "rm_retry_on resolved = {}"
    and "chat_attempt T resolved request r1 w = (oc, w1)" and "oc = None \<or> (\<exists>err. oc = Some (Ret (Inl err)))"
  shows "fst (dispatch T resolved vm request w) = final_result r2 2 (fst (chat_attempt T resolved request r2 w1))"
  using assms
  by (auto simp: dispatch_def after_failover_def final_result_def Let_def numeral_2_eq_2
      split: prod.split option.split exec.split sum.split)

section \<open>Properties\<close>

text \<open>
  Concrete connectors for the witnesses: each answers with a fixed status and logs its name
  and the model it was asked for; the timer never fires.
\<close>

definition example_response :: "string \<Rightarrow> u16 \<Rightarrow> chat_response" where
  "example_response name status = \<lparr>rs_status = status, rs_content_type = None, rs_body = [],
     rs_provider = name, rs_model = [], rs_usage = None, rs_attempts = 1\<rparr>"

definition example_connector :: "string \<Rightarrow> u16 \<Rightarrow> (string \<times> string) list connector" where
  "example_connector name status =
     \<lparr>conn_name = name,
      conn_chat = (\<lambda>rq w. (Ret (Inr (example_response name status)), w @ [(name, cq_model rq)])),
      conn_embeddings = (\<lambda>rq w. (Ret (Inr (example_response name status)), w @ [(name, eq_model rq)])),
      conn_reachable = (\<lambda>w. True)\<rparr>"

definition no_timeout :: "'w timeout" where
  "no_timeout ms call w = (case call w of (r, w') \<Rightarrow> (Some r, w'))"

definition example_connectors :: "(string \<times> string) list connector table" where
  "example_connectors = [(''openai'', example_connector ''openai'' 503), (''azure'', example_connector ''azure'' 200)]"

definition example_model :: model_config where
  "example_model = \<lparr>mc_name = ''gpt'', mc_primary = \<lparr>rt_provider = ''openai'', rt_model = ''gpt-4o''\<rparr>,
     mc_fallbacks = [\<lparr>rt_provider = ''azure'', rt_model = ''dep''\<rparr>], mc_retry_on = default_retry_on,
     mc_timeout_ms = default_timeout_ms\<rparr>"

definition example_chat :: chat_request where
  "example_chat = \<lparr>cq_model = ''gpt'', cq_stream = False, cq_body = []\<rparr>"

definition example_embeddings :: embeddings_request where
  "example_embeddings = \<lparr>eq_model = ''gpt'', eq_body = []\<rparr>"

definition example_resolved :: "(string \<times> string) list resolved_model" where
  "example_resolved = \<lparr>rm_routes =
      [\<lparr>rr_connector = example_connector ''openai'' 503, rr_model = ''gpt-4o''\<rparr>,
       \<lparr>rr_connector = example_connector ''azure'' 200, rr_model = ''dep''\<rparr>],
     rm_retry_on = set default_retry_on, rm_timeout = 30000\<rparr>"

lemma example_registry_new:
  "registry_new example_connectors [example_model] =
     Inr \<lparr>reg_connectors = example_connectors, reg_models = [(''gpt'', example_resolved)]\<rparr>"
  by (simp add: registry_new_def resolve_model_def example_model_def example_connectors_def tget_def
      example_resolved_def tput_def default_timeout_ms_def)

text \<open>
  C18. Chat routing and failover: on a registry built from the configuration, a request for a
  configured model is dispatched over exactly that model's routes (the last definition of the name
  wins), in the configured order, each attempt carrying the route's upstream model and running under
  the model's timeout. The result is the outcome of the first route that is not retryable or of the
  last route, the attempt count is its position, and each route given up is audited once, in order.
\<close>

theorem registry_chat_failover:
  assumes "registry_new connectors models = Inr reg"
    and "find (\<lambda>m. mc_name m = cq_model request) (rev models) = Some mc"
  shows "\<exists>resolved. resolved_from connectors mc resolved \<and>
     failover_spec (chat_attempt T resolved request) resolved (cq_model request) w
       (registry_chat T reg request w)"
proof -
  obtain resolved where r: "tget (reg_models reg) (cq_model request) = Some resolved"
    "resolved_from connectors mc resolved"
    using registry_new_lookup [OF assms] by blast
  have "failover_spec (chat_attempt T resolved request) resolved (cq_model request) w
      (dispatch_loop T resolved (cq_model request) request 0 (rm_routes resolved) w)"
    by (rule chat.loop_spec) (rule resolved_from_routes [OF r(2)])
  with r show ?thesis by (auto simp: registry_chat_def dispatch_def)
qed

theorem registry_chat_failover_witness:
  "\<exists>reg resolved. registry_new example_connectors [example_model] = Inr reg \<and>
     resolved_from example_connectors example_model resolved \<and>
     failover_spec (chat_attempt no_timeout resolved example_chat) resolved (cq_model example_chat) []
       (registry_chat no_timeout reg example_chat [])"
proof -
  have "find (\<lambda>m. mc_name m = cq_model example_chat) (rev [example_model]) = Some example_model"
    by (simp add: example_chat_def example_model_def)
  from registry_chat_failover [OF example_registry_new this, of no_timeout "[]"]
  show ?thesis using example_registry_new by blast
qed

text \<open>
  C19. Embeddings routing and failover: the separate embeddings loop meets the same contract.
\<close>

theorem registry_embeddings_failover:
  assumes "registry_new connectors models = Inr reg"
    and "find (\<lambda>m. mc_name m = eq_model request) (rev models) = Some mc"
  shows "\<exists>resolved. resolved_from connectors mc resolved \<and>
     failover_spec (embeddings_attempt T resolved request) resolved (eq_model request) w
       (registry_embeddings T reg request w)"
proof -
  obtain resolved where r: "tget (reg_models reg) (eq_model request) = Some resolved"
    "resolved_from connectors mc resolved"
    using registry_new_lookup [OF assms] by blast
  have "failover_spec (embeddings_attempt T resolved request) resolved (eq_model request) w
      (dispatch_embeddings_loop T resolved (eq_model request) request 0 (rm_routes resolved) w)"
    by (rule emb.loop_spec) (rule resolved_from_routes [OF r(2)])
  with r show ?thesis by (auto simp: registry_embeddings_def dispatch_embeddings_def)
qed

theorem registry_embeddings_failover_witness:
  "\<exists>reg resolved. registry_new example_connectors [example_model] = Inr reg \<and>
     resolved_from example_connectors example_model resolved \<and>
     failover_spec (embeddings_attempt no_timeout resolved example_embeddings) resolved
       (eq_model example_embeddings) [] (registry_embeddings no_timeout reg example_embeddings [])"
proof -
  have "find (\<lambda>m. mc_name m = eq_model example_embeddings) (rev [example_model]) = Some example_model"
    by (simp add: example_embeddings_def example_model_def)
  from registry_embeddings_failover [OF example_registry_new this, of no_timeout "[]"]
  show ?thesis using example_registry_new by blast
qed

text \<open>
  Configuration errors: a registry is built exactly when every route of every model, primary
  and fallbacks, names a known provider.
\<close>

theorem registry_new_ok_iff:
  "(\<exists>reg. registry_new connectors models = Inr reg) =
     (\<forall>mc \<in> set models. \<forall>r \<in> set (mc_primary mc # mc_fallbacks mc). tget connectors (rt_provider r) \<noteq> None)"
proof -
  have model: "(\<exists>r. resolve_model connectors mc = Inr r) \<longleftrightarrow>
      (\<forall>r \<in> set (mc_primary mc # mc_fallbacks mc). tget connectors (rt_provider r) \<noteq> None)" for mc
    using resolve_routes_Inr_iff [of connectors "mc_name mc" "mc_primary mc # mc_fallbacks mc"]
    unfolding resolve_model_def by (auto split: sum.splits)
  have "(\<exists>reg. registry_new connectors models = Inr reg) \<longleftrightarrow>
      (\<exists>rs. resolve_models connectors models [] = Inr rs)"
    by (auto simp: registry_new_def split: sum.splits)
  also have "\<dots> \<longleftrightarrow> (\<forall>mc \<in> set models. \<exists>r. resolve_model connectors mc = Inr r)"
    using resolve_models_Inr resolve_models_total by blast
  finally show ?thesis by (simp only: model)
qed

theorem registry_new_ok_iff_witness:
  "\<exists>reg. registry_new example_connectors [example_model] = Inr reg"
  unfolding registry_new_ok_iff by (simp add: example_model_def example_connectors_def tget_def)

end
