(* ===== verification/Anthropic.thy ===== *)
theory Anthropic
  imports OpenAi Sse
begin

text \<open>
  The Anthropic connector (\<open>provider/anthropic.rs\<close>): the translation between the OpenAI and the
  Anthropic Messages schema, the stream adapter that rewrites Anthropic's events into OpenAI
  chunks, and the error envelope.

  The serializers derived by \<open>serde\<close> for the wire structs are the fields of \<open>anthropic_codec\<close>;
  the structs themselves are records with the source's fields.
\<close>

section \<open>Wire structs\<close>

definition ANTHROPIC_VERSION :: string where "ANTHROPIC_VERSION = ''2023-06-01''"
definition DEFAULT_MAX_TOKENS :: u32 where "DEFAULT_MAX_TOKENS = 4096"
definition DONE_MARKER :: bytes where "DONE_MARKER = ''data: [DONE]'' @ [NL, NL]"

record message =
  msg_role :: string
  msg_content :: string

record chat_messages =
  cm_system :: "string option"
  cm_messages :: "message list"
  cm_max_tokens :: u32
  cm_temperature :: "f64 option"

record openai_request =
  oreq_messages :: "message list"
  oreq_max_tokens :: "u32 option"
  oreq_temperature :: "f64 option"

record anthropic_request =
  areq_model :: string
  areq_messages :: "message list"
  areq_max_tokens :: u32
  areq_system :: "string option"
  areq_temperature :: "f64 option"
  areq_stream :: "bool option"

record anthropic_content_block =
  blk_kind :: string
  blk_text :: string

record anthropic_usage =
  input_tokens :: u32
  output_tokens :: u32

record anthropic_response =
  ares_id :: string
  ares_model :: string
  ares_content :: "anthropic_content_block list"
  ares_stop_reason :: "string option"
  ares_usage :: "anthropic_usage option"

record anthropic_codec =
  de_openai_request :: "bytes \<Rightarrow> string + openai_request"
  de_anthropic_response :: "bytes \<Rightarrow> string + anthropic_response"
  ser_anthropic_request :: "anthropic_request \<Rightarrow> string + bytes"

section \<open>Requests\<close>

definition hoist_message :: "message \<Rightarrow> string \<times> message list \<Rightarrow> string \<times> message list" where
  "hoist_message m acc =
     (case acc of (system, messages) \<Rightarrow>
        if msg_role m = ''system''
        then ((if system \<noteq> [] then system @ [NL] else system) @ msg_content m, messages)
        else (system, messages @ [m]))"

definition parse_openai_messages :: "anthropic_codec \<Rightarrow> bytes \<Rightarrow> core_error + chat_messages" where
  "parse_openai_messages D body =
     (case de_openai_request D body of
        Inl e \<Rightarrow> Inl (ProviderError (''invalid chat request: '' @ e))
      | Inr request \<Rightarrow>
          (case fold hoist_message (oreq_messages request) ([], []) of
             (system, messages) \<Rightarrow>
               Inr \<lparr>cm_system = (if system \<noteq> [] then Some system else None), cm_messages = messages,
                    cm_max_tokens = unwrap_or (oreq_max_tokens request) DEFAULT_MAX_TOKENS,
                    cm_temperature = oreq_temperature request\<rparr>))"

section \<open>Responses\<close>

definition map_finish_reason :: "string \<Rightarrow> string" where
  "map_finish_reason stop_reason = (if stop_reason = ''max_tokens'' then ''length'' else ''stop'')"

definition usage_json :: "u32 \<Rightarrow> u32 \<Rightarrow> json" where
  "usage_json p c = json_object
     [(''prompt_tokens'', json_nat (unat p)), (''completion_tokens'', json_nat (unat c)),
      (''total_tokens'', json_nat (unat (p + c)))]"

text \<open>
  \<open>created\<close> is the system time in seconds. The token total is a \<open>u32\<close> addition, which wraps in
  the release profile.
\<close>

definition openai_response_json :: "nat \<Rightarrow> anthropic_response \<Rightarrow> string \<Rightarrow> usage \<Rightarrow> json" where
  "openai_response_json created response content u =
     json_object
       [(''id'', JString (ares_id response)),
        (''object'', JString ''chat.completion''),
        (''created'', json_nat created),
        (''model'', JString (ares_model response)),
        (''choices'', JArray [json_object
           [(''index'', json_nat 0),
            (''message'', json_object [(''role'', JString ''assistant''), (''content'', JString content)]),
            (''finish_reason'', JString (map_finish_reason (unwrap_or (ares_stop_reason response) [])))]]),
        (''usage'', usage_json (prompt_tokens u) (completion_tokens u))]"

definition to_openai_response ::
  "serde_json \<Rightarrow> anthropic_codec \<Rightarrow> nat \<Rightarrow> bytes \<Rightarrow> core_error + (bytes \<times> usage)" where
  "to_openai_response J D created body =
     (case de_anthropic_response D body of
        Inl e \<Rightarrow> Inl (ProviderError (''invalid Anthropic response: '' @ e))
      | Inr response \<Rightarrow>
          let content = concat (map blk_text (filter (\<lambda>b. blk_kind b = ''text'') (ares_content response)));
              upstream_usage = unwrap_or (ares_usage response) \<lparr>input_tokens = 0, output_tokens = 0\<rparr>;
              u = \<lparr>prompt_tokens = input_tokens upstream_usage,
                   completion_tokens = output_tokens upstream_usage\<rparr>
          in case to_vec J (openai_response_json created response content u) of
               Inl e \<Rightarrow> Inl (ProviderError (''failed to encode response: '' @ e))
             | Inr encoded \<Rightarrow> Inr (encoded, u))"

text \<open>
  \<open>None\<close> is the panic of the slice \<open>&text[..512]\<close> when byte 512 is inside a character.
\<close>

definition NON_JSON_ERROR :: string where
  "NON_JSON_ERROR = ''upstream returned a non-JSON error''"

definition to_openai_error :: "serde_json \<Rightarrow> bytes \<Rightarrow> bytes option" where
  "to_openai_error J body =
     (let parsed =
            Option.bind (result_ok (from_slice J body)) (\<lambda>v.
            Option.bind (json_get v ''error'') (\<lambda>err.
            Option.bind (Option.bind (json_get err ''message'') json_as_str) (\<lambda>msg.
            Some (msg, Option.bind (json_get err ''type'') json_as_str))));
          selected =
            (case parsed of
               Some (m, k) \<Rightarrow> Some (m, k)
             | None \<Rightarrow>
                 let text = unwrap_or (from_utf8 body) NON_JSON_ERROR
                 in map_option (\<lambda>t. (t, None)) (if length text > 512 then str_slice_to text 512 else Some text))
      in case selected of
           None \<Rightarrow> None
         | Some (msg, kind) \<Rightarrow>
             let envelope =
                   (case kind of
                      Some k \<Rightarrow> json_object [(''error'', json_object [(''message'', JString msg), (''type'', JString k)])]
                    | None \<Rightarrow> json_object [(''error'', json_object [(''message'', JString msg)])])
             in Some (unwrap_or (result_ok (to_vec J envelope))
                  (''{'' @ [DQ] @ ''error'' @ [DQ] @ '':{'' @ [DQ] @ ''message'' @ [DQ] @ '':'' @ [DQ] @
                   ''upstream returned an error'' @ [DQ] @ ''}}'')))"

section \<open>Stream transform\<close>

record anthropic_transform =
  chat_id :: string
  at_created :: nat
  at_model :: string
  at_input_tokens :: u32
  at_output_tokens :: u32

text \<open>\<open>id_bytes\<close> is the entropy read, \<open>created\<close> the system time in seconds.\<close>

definition transform_new :: "crypto \<Rightarrow> bytes \<Rightarrow> nat \<Rightarrow> string \<Rightarrow> anthropic_transform" where
  "transform_new C id_bytes created model =
     \<lparr>chat_id = ''chatcmpl-'' @ hex_encode C id_bytes, at_created = created, at_model = model,
      at_input_tokens = 0, at_output_tokens = 0\<rparr>"

definition chunk_json :: "anthropic_transform \<Rightarrow> json \<Rightarrow> string option \<Rightarrow> json" where
  "chunk_json t delta finish_reason =
     json_object
       [(''id'', JString (chat_id t)),
        (''object'', JString ''chat.completion.chunk''),
        (''created'', json_nat (at_created t)),
        (''model'', JString (at_model t)),
        (''choices'', JArray [json_object
           [(''index'', json_nat 0), (''delta'', delta),
            (''finish_reason'', (case finish_reason of Some r \<Rightarrow> JString r | None \<Rightarrow> JNull))]])]"

definition transform_chunk :: "serde_json \<Rightarrow> anthropic_transform \<Rightarrow> json \<Rightarrow> string option \<Rightarrow> bytes" where
  "transform_chunk J t delta finish_reason = sse_data_line (display J (chunk_json t delta finish_reason))"

definition usage_chunk_json :: "anthropic_transform \<Rightarrow> json" where
  "usage_chunk_json t =
     json_object
       [(''id'', JString (chat_id t)),
        (''object'', JString ''chat.completion.chunk''),
        (''created'', json_nat (at_created t)),
        (''model'', JString (at_model t)),
        (''choices'', JArray []),
        (''usage'', usage_json (at_input_tokens t) (at_output_tokens t))]"

definition usage_chunk :: "serde_json \<Rightarrow> anthropic_transform \<Rightarrow> bytes" where
  "usage_chunk J t = sse_data_line (display J (usage_chunk_json t))"

definition json_path2 :: "json \<Rightarrow> string \<Rightarrow> string \<Rightarrow> json option" where
  "json_path2 v a b = Option.bind (json_get v a) (\<lambda>x. json_get x b)"

definition process_message_start :: "serde_json \<Rightarrow> anthropic_transform \<Rightarrow> json \<Rightarrow> anthropic_transform \<times> bytes list" where
  "process_message_start J t data =
     (let t1 = (case Option.bind (json_path2 data ''message'' ''model'') json_as_str of
                  Some model \<Rightarrow> t\<lparr>at_model := model\<rparr> | None \<Rightarrow> t);
          t2 = (case Option.bind (Option.bind (json_path2 data ''message'' ''usage'')
                       (\<lambda>u. json_get u ''input_tokens'')) json_as_u64 of
                  Some tokens \<Rightarrow> t1\<lparr>at_input_tokens := as_u32 tokens\<rparr> | None \<Rightarrow> t1)
      in (t2, [transform_chunk J t2 (json_object [(''role'', JString ''assistant'')]) None]))"

definition process_content_delta :: "serde_json \<Rightarrow> anthropic_transform \<Rightarrow> json \<Rightarrow> anthropic_transform \<times> bytes list" where
  "process_content_delta J t data =
     (if Option.bind (json_path2 data ''delta'' ''type'') json_as_str = Some ''text_delta''
      then (case Option.bind (json_path2 data ''delta'' ''text'') json_as_str of
              Some text \<Rightarrow> (t, [transform_chunk J t (json_object [(''content'', JString text)]) None])
            | None \<Rightarrow> (t, []))
      else (t, []))"

definition process_message_delta :: "serde_json \<Rightarrow> anthropic_transform \<Rightarrow> json \<Rightarrow> anthropic_transform \<times> bytes list" where
  "process_message_delta J t data =
     (let stop_reason = map_option map_finish_reason
            (Option.bind (json_path2 data ''delta'' ''stop_reason'') json_as_str);
          t' = (case Option.bind (json_path2 data ''usage'' ''output_tokens'') json_as_u64 of
                  Some tokens \<Rightarrow> t\<lparr>at_output_tokens := as_u32 tokens\<rparr> | None \<Rightarrow> t)
      in (t', [transform_chunk J t' (json_object []) stop_reason, usage_chunk J t']))"

definition transform_process :: "serde_json \<Rightarrow> anthropic_transform \<Rightarrow> sse_event \<Rightarrow> anthropic_transform \<times> bytes list" where
  "transform_process J t event =
     (case from_slice J (ev_data event) of
        Inl _ \<Rightarrow> (t, [])
      | Inr data \<Rightarrow>
          let event_type = unwrap_or (ev_event event) []
          in if event_type = ''message_start'' then process_message_start J t data
             else if event_type = ''content_block_delta'' then process_content_delta J t data
             else if event_type = ''message_delta'' then process_message_delta J t data
             else (t, []))"

section \<open>Stream adapter\<close>

record stream_adapter =
  ad_inner :: body_stream
  ad_parser :: sse_parser
  ad_transform :: anthropic_transform
  ad_pending :: "bytes list"
  ad_upstream_done :: bool
  ad_emitted_done :: bool

definition adapter_new :: "body_stream \<Rightarrow> anthropic_transform \<Rightarrow> stream_adapter" where
  "adapter_new inner t = \<lparr>ad_inner = inner, ad_parser = sse_new, ad_transform = t, ad_pending = [],
     ad_upstream_done = False, ad_emitted_done = False\<rparr>"

fun process_events :: "serde_json \<Rightarrow> anthropic_transform \<Rightarrow> sse_event list \<Rightarrow> anthropic_transform \<times> bytes list" where
  "process_events J t [] = (t, [])"
| "process_events J t (ev # evs) =
     (let (t', outs) = transform_process J t ev; (t'', outs') = process_events J t' evs
      in (t'', outs @ outs'))"

text \<open>The inner \<open>while let\<close> loop: the events of a fed chunk, processed in order into the queue.\<close>

definition adapter_ingest :: "serde_json \<Rightarrow> stream_adapter \<Rightarrow> bytes \<Rightarrow> stream_adapter" where
  "adapter_ingest J a chunk =
     (let (p, evs) = sse_drain (sse_feed (ad_parser a) chunk);
          (t, outs) = process_events J (ad_transform a) evs
      in a\<lparr>ad_parser := p, ad_transform := t, ad_pending := ad_pending a @ outs\<rparr>)"

text \<open>
  \<open>poll_next\<close> with the upstream ready: \<open>Pending\<close> returns the state unchanged and is not a step.
\<close>

function adapter_poll :: "serde_json \<Rightarrow> stream_adapter \<Rightarrow> stream_adapter \<times> (string + bytes) option" where
  "adapter_poll J a =
     (case ad_pending a of
        out # rest \<Rightarrow> (a\<lparr>ad_pending := rest\<rparr>, Some (Inr out))
      | [] \<Rightarrow>
          if ad_upstream_done a then
            (if \<not> ad_emitted_done a then (a\<lparr>ad_emitted_done := True\<rparr>, Some (Inr DONE_MARKER))
             else (a, None))
          else
            (case ad_inner a of
               Inl e # inner \<Rightarrow> (a\<lparr>ad_inner := inner\<rparr>, Some (Inl e))
             | Inr chunk # inner \<Rightarrow> adapter_poll J (adapter_ingest J (a\<lparr>ad_inner := inner\<rparr>) chunk)
             | [] \<Rightarrow> adapter_poll J (a\<lparr>ad_upstream_done := True\<rparr>)))"
  by pat_completeness auto
termination
  by (relation "measure (\<lambda>(J, a). length (ad_inner a) + (if ad_upstream_done a then 0 else 1))")
    (auto simp: adapter_ingest_def Let_def split_def)

declare adapter_poll.simps [simp del]

section \<open>The connector\<close>

record anthropic_connector =
  anc_base_url :: string
  anc_api_key :: string

definition anthropic_new :: "client_build \<Rightarrow> string \<Rightarrow> string \<Rightarrow> core_error + anthropic_connector" where
  "anthropic_new cb base_url api_key =
     build_client cb \<lparr>anc_base_url = trim_end_matches (CHR ''/'') base_url, anc_api_key = api_key\<rparr>"

definition anthropic_post :: "anthropic_connector \<Rightarrow> bytes \<Rightarrow> http_request" where
  "anthropic_post c payload =
     \<lparr>hq_url = anc_base_url c @ ''/v1/messages'',
      hq_headers = [(''x-api-key'', anc_api_key c), (''anthropic-version'', ANTHROPIC_VERSION),
                    (''content-type'', JSON_TYPE)],
      hq_body = payload\<rparr>"

text \<open>Each item polled strictly lowers this rank, so the stream ends.\<close>

definition adapter_rank :: "stream_adapter \<Rightarrow> nat \<times> nat \<times> nat" where
  "adapter_rank a =
     (length (ad_inner a) + (if ad_upstream_done a then 0 else 1), length (ad_pending a),
      if ad_emitted_done a then 0 else 1)"

abbreviation rank_less :: "((nat \<times> nat \<times> nat) \<times> nat \<times> nat \<times> nat) set" where
  "rank_less \<equiv> less_than <*lex*> less_than <*lex*> less_than"

lemma adapter_poll_rank:
  "adapter_poll J a = (a', Some item) \<Longrightarrow> (adapter_rank a', adapter_rank a) \<in> rank_less"
proof (induction J a arbitrary: a' rule: adapter_poll.induct)
  case (1 J a)
  note IH = 1(1,2) and prem = 1(3)
  show ?case
  proof (cases "ad_pending a")
    case (Cons out rest)
    with prem show ?thesis by (auto simp: adapter_poll.simps [of J a] adapter_rank_def)
  next
    case Nil
    show ?thesis
    proof (cases "ad_upstream_done a")
      case True
      with Nil prem show ?thesis
        by (auto simp: adapter_poll.simps [of J a] adapter_rank_def split: if_splits)
    next
      case notdone: False
      show ?thesis
      proof (cases "ad_inner a")
        case inner: Nil
        have "adapter_poll J (a\<lparr>ad_upstream_done := True\<rparr>) = (a', Some item)"
          using prem Nil notdone inner by (simp add: adapter_poll.simps [of J a])
        from IH(1) [OF Nil notdone inner this] Nil notdone inner show ?thesis
          by (auto simp: adapter_rank_def)
      next
        case inner: (Cons x inner)
        show ?thesis
        proof (cases x)
          case (Inl e)
          with prem Nil notdone inner show ?thesis
            by (auto simp: adapter_poll.simps [of J a] adapter_rank_def)
        next
          case (Inr chunk)
          have "adapter_poll J (adapter_ingest J (a\<lparr>ad_inner := inner\<rparr>) chunk) = (a', Some item)"
            using prem Nil notdone inner Inr by (simp add: adapter_poll.simps [of J a])
          from IH(2) [OF Nil notdone inner Inr this] inner show ?thesis
            by (auto simp: adapter_rank_def adapter_ingest_def Let_def split_def split: if_splits)
        qed
      qed
    qed
  qed
qed

text \<open>The stream the adapter yields: the items of the polls up to \<open>Ready(None)\<close>.\<close>

function adapter_stream :: "serde_json \<Rightarrow> stream_adapter \<Rightarrow> body_stream" where
  "adapter_stream J a =
     (case adapter_poll J a of (a', None) \<Rightarrow> [] | (a', Some item) \<Rightarrow> item # adapter_stream J a')"
  by pat_completeness auto
termination
  by (relation "inv_image rank_less (\<lambda>(J, a). adapter_rank a)")
    (auto simp: adapter_poll_rank dest: sym [of _ "adapter_poll _ _"] simp del: in_lex_prod)

declare adapter_stream.simps [simp del]

definition anthropic_reply :: "u16 \<Rightarrow> string \<Rightarrow> body_stream \<Rightarrow> string \<Rightarrow> usage option \<Rightarrow> chat_response" where
  "anthropic_reply status content_type body model u =
     \<lparr>rs_status = status, rs_content_type = Some content_type, rs_body = body,
      rs_provider = ''anthropic'', rs_model = model, rs_usage = u, rs_attempts = 1\<rparr>"

text \<open>\<open>clock\<close> and \<open>entropy\<close> read the system time and the random source of the world they are given.\<close>

definition anthropic_chat ::
  "serde_json \<Rightarrow> anthropic_codec \<Rightarrow> crypto \<Rightarrow> ('w \<Rightarrow> bytes) \<Rightarrow> ('w \<Rightarrow> nat) \<Rightarrow> 'w http \<Rightarrow> anthropic_connector \<Rightarrow> chat_request \<Rightarrow> 'w chat_call" where
  "anthropic_chat J D C entropy clock H c request w =
     (case parse_openai_messages D (cq_body request) of
        Inl err \<Rightarrow> (Ret (Inl err), w)
      | Inr parts \<Rightarrow>
          (case ser_anthropic_request D
                  \<lparr>areq_model = cq_model request, areq_messages = cm_messages parts,
                   areq_max_tokens = cm_max_tokens parts, areq_system = cm_system parts,
                   areq_temperature = cm_temperature parts,
                   areq_stream = (if cq_stream request then Some True else None)\<rparr> of
             Inl e \<Rightarrow> (Ret (Inl (ProviderError (''failed to encode request: '' @ e))), w)
           | Inr payload \<Rightarrow>
               (case http_post H (anthropic_post c payload) w of
                  (Inl e, w') \<Rightarrow> (Ret (Inl (ProviderError (''request to Anthropic failed: '' @ e))), w')
                | (Inr response, w') \<Rightarrow>
                    let status = hr_status response
                    in if cq_stream request \<and> status = 200 then
                         (Ret (Inr (anthropic_reply 200 ''text/event-stream''
                            (adapter_stream J
                               (adapter_new (hr_body response) (transform_new C (entropy w') (clock w') (cq_model request))))
                            (cq_model request) None)), w')
                       else
                         (case collect_stream (hr_body response) of
                            Inl e \<Rightarrow> (Ret (Inl (ProviderError (''reading Anthropic response failed: '' @ e))), w')
                          | Inr upstream_body \<Rightarrow>
                              if status = 200 then
                                (case to_openai_response J D (clock w') upstream_body of
                                   Inl err \<Rightarrow> (Ret (Inl err), w')
                                 | Inr (encoded, u) \<Rightarrow>
                                     (Ret (Inr (anthropic_reply status JSON_TYPE (single_chunk encoded)
                                        (cq_model request) (Some u))), w'))
                              else
                                (case to_openai_error J upstream_body of
                                   None \<Rightarrow> (Panic, w')
                                 | Some body \<Rightarrow>
                                     (Ret (Inr (anthropic_reply status JSON_TYPE (single_chunk body)
                                        (cq_model request) None)), w'))))))"

definition anthropic_connector_impl ::
  "serde_json \<Rightarrow> anthropic_codec \<Rightarrow> crypto \<Rightarrow> ('w \<Rightarrow> bytes) \<Rightarrow> ('w \<Rightarrow> nat) \<Rightarrow> 'w http \<Rightarrow> anthropic_connector \<Rightarrow> 'w connector" where
  "anthropic_connector_impl J D C entropy clock H c =
     \<lparr>conn_name = ''anthropic'',
      conn_chat = anthropic_chat J D C entropy clock H c,
      conn_embeddings = default_embeddings ''anthropic'',
      conn_reachable = http_reachable H (anc_base_url c)\<rparr>"

section \<open>The stream, specified\<close>

text \<open>What the adapter emits for the upstream items that remain.\<close>

fun translated :: "serde_json \<Rightarrow> sse_parser \<Rightarrow> anthropic_transform \<Rightarrow> body_stream \<Rightarrow> body_stream" where
  "translated J p t [] = [Inr DONE_MARKER]"
| "translated J p t (Inl e # inner) = Inl e # translated J p t inner"
| "translated J p t (Inr chunk # inner) =
     (let (p', evs) = sse_drain (sse_feed p chunk); (t', outs) = process_events J t evs
      in map Inr outs @ translated J p' t' inner)"

definition remaining :: "serde_json \<Rightarrow> stream_adapter \<Rightarrow> body_stream" where
  "remaining J a =
     map Inr (ad_pending a) @
     (if ad_upstream_done a then (if ad_emitted_done a then [] else [Inr DONE_MARKER])
      else translated J (ad_parser a) (ad_transform a) (ad_inner a))"

lemma remaining_pending: "ad_pending a = out # rest \<Longrightarrow> remaining J a = Inr out # remaining J (a\<lparr>ad_pending := rest\<rparr>)"
  by (simp add: remaining_def)

lemma remaining_ingest:
  "\<lbrakk>ad_pending a = []; \<not> ad_upstream_done a; ad_inner a = Inr chunk # inner\<rbrakk> \<Longrightarrow>
     remaining J (adapter_ingest J (a\<lparr>ad_inner := inner\<rparr>) chunk) = remaining J a"
  by (simp add: remaining_def adapter_ingest_def Let_def split_def)

text \<open>An upstream that is done has delivered its last item.\<close>

lemma adapter_poll_remaining:
  "\<not> ad_emitted_done a \<or> ad_upstream_done a \<Longrightarrow>
     remaining J a = (case adapter_poll J a of (a', None) \<Rightarrow> [] | (a', Some item) \<Rightarrow> item # remaining J a') \<and>
     (\<not> ad_emitted_done (fst (adapter_poll J a)) \<or> ad_upstream_done (fst (adapter_poll J a)))"
proof (induction J a rule: adapter_poll.induct)
  case (1 J a)
  note IH = 1(1,2) and prem = 1(3)
  show ?case
  proof (cases "ad_pending a")
    case (Cons out rest)
    with prem show ?thesis by (simp add: adapter_poll.simps [of J a] remaining_pending)
  next
    case Nil
    show ?thesis
    proof (cases "ad_upstream_done a")
      case True
      with Nil show ?thesis by (simp add: adapter_poll.simps [of J a] remaining_def)
    next
      case notdone: False
      show ?thesis
      proof (cases "ad_inner a")
        case inner: Nil
        have "remaining J (a\<lparr>ad_upstream_done := True\<rparr>) = remaining J a"
          using Nil notdone inner prem by (simp add: remaining_def)
        with IH(1) [OF Nil notdone inner] prem Nil notdone inner show ?thesis
          by (simp add: adapter_poll.simps [of J a])
      next
        case inner: (Cons x inner)
        show ?thesis
        proof (cases x)
          case (Inl e)
          with prem Nil notdone inner show ?thesis
            by (simp add: adapter_poll.simps [of J a] remaining_def)
        next
          case (Inr chunk)
          have "remaining J (adapter_ingest J (a\<lparr>ad_inner := inner\<rparr>) chunk) = remaining J a"
            using Nil notdone inner Inr by (simp add: remaining_ingest)
          with IH(2) [OF Nil notdone inner Inr] prem Nil notdone inner Inr show ?thesis
            by (simp add: adapter_poll.simps [of J a] adapter_ingest_def Let_def split_def)
        qed
      qed
    qed
  qed
qed

lemma adapter_stream_remaining:
  "\<not> ad_emitted_done a \<or> ad_upstream_done a \<Longrightarrow> adapter_stream J a = remaining J a"
proof (induction J a rule: adapter_stream.induct)
  case (1 J a)
  show ?case
  proof (cases "adapter_poll J a")
    case (Pair a' r)
    show ?thesis
    proof (cases r)
      case None
      with Pair adapter_poll_remaining [OF 1(2), of J] show ?thesis
        by (simp add: adapter_stream.simps [of J a])
    next
      case (Some item)
      have "\<not> ad_emitted_done a' \<or> ad_upstream_done a'" "remaining J a = item # remaining J a'"
        using adapter_poll_remaining [OF 1(2), of J] Pair Some by auto
      with 1(1) [OF Pair [symmetric] Some] Pair Some show ?thesis
        by (simp add: adapter_stream.simps [of J a])
    qed
  qed
qed

lemma process_events_append:
  "process_events J t (xs @ ys) =
     (let (t', outs) = process_events J t xs; (t'', outs') = process_events J t' ys in (t'', outs @ outs'))"
  by (induction xs arbitrary: t) (simp_all add: split_def Let_def)

lemma translated_chunks:
  "translated J p t (map Inr chunks) =
     map Inr (snd (process_events J t (snd (sse_run p chunks)))) @ [Inr DONE_MARKER]"
  by (induction chunks arbitrary: p t) (simp_all add: split_def Let_def process_events_append)

lemma adapter_stream_new: "adapter_stream J (adapter_new inner t) = translated J sse_new t inner"
  using adapter_stream_remaining [of "adapter_new inner t" J]
  by (simp add: adapter_new_def remaining_def)

section \<open>System prompts\<close>

fun join_lines :: "string list \<Rightarrow> string" where
  "join_lines [] = []"
| "join_lines [x] = x"
| "join_lines (x # y # r) = x @ NL # join_lines (y # r)"

definition system_contents :: "message list \<Rightarrow> string list" where
  "system_contents ms = map msg_content (filter (\<lambda>m. msg_role m = ''system'') ms)"

definition push_system :: "string \<Rightarrow> string \<Rightarrow> string" where
  "push_system c s = (if s \<noteq> [] then s @ [NL] else s) @ c"

lemma hoist_fold:
  "fold hoist_message ms (s, out) =
     (fold push_system (system_contents ms) s, out @ filter (\<lambda>m. msg_role m \<noteq> ''system'') ms)"
  by (induction ms arbitrary: s out) (simp_all add: hoist_message_def system_contents_def push_system_def)

lemma push_system_simps: "push_system c [] = c" "s \<noteq> [] \<Longrightarrow> push_system c s = s @ NL # c"
  by (simp_all add: push_system_def)

lemma push_system_join: "s \<noteq> [] \<Longrightarrow> fold push_system cs s = join_lines (s # cs)"
proof (induction cs arbitrary: s)
  case (Cons c cs)
  then have "fold push_system (c # cs) s = join_lines ((s @ NL # c) # cs)"
    by (simp add: push_system_simps)
  then show ?case by (cases cs) simp_all
qed simp

lemma push_system_empty: "fold push_system cs [] = join_lines (dropWhile (\<lambda>c. c = []) cs)"
  by (induction cs) (simp_all add: push_system_join push_system_simps)

section \<open>Properties\<close>

text \<open>
  Request translation: for every request the decoder accepts, the messages sent to Anthropic are
  the non-system messages in their order, and the top-level system prompt is the contents of the
  system messages joined by newlines (leading empty ones dropped), absent when that is empty.
\<close>

theorem parse_openai_messages_hoists:
  assumes "de_openai_request D body = Inr request"
  shows "parse_openai_messages D body =
    (let system = join_lines (dropWhile (\<lambda>c. c = []) (system_contents (oreq_messages request)))
     in Inr \<lparr>cm_system = (if system = [] then None else Some system),
             cm_messages = filter (\<lambda>m. msg_role m \<noteq> ''system'') (oreq_messages request),
             cm_max_tokens = (case oreq_max_tokens request of Some n \<Rightarrow> n | None \<Rightarrow> 4096),
             cm_temperature = oreq_temperature request\<rparr>)"
  using assms by (simp add: parse_openai_messages_def hoist_fold push_system_empty Let_def
      unwrap_or_def DEFAULT_MAX_TOKENS_def)

definition example_codec :: anthropic_codec where
  "example_codec =
     \<lparr>de_openai_request = (\<lambda>b. if b = ''{}'' then Inr \<lparr>oreq_messages =
         [\<lparr>msg_role = ''system'', msg_content = ''A''\<rparr>, \<lparr>msg_role = ''user'', msg_content = ''hi''\<rparr>,
          \<lparr>msg_role = ''system'', msg_content = ''B''\<rparr>], oreq_max_tokens = None, oreq_temperature = None\<rparr>
       else Inl ''unsupported''),
      de_anthropic_response = (\<lambda>b. Inl ''unsupported''), ser_anthropic_request = (\<lambda>r. Inr ''{}'')\<rparr>"

theorem parse_openai_messages_hoists_witness:
  "parse_openai_messages example_codec ''{}'' =
     Inr \<lparr>cm_system = Some (''A'' @ [NL] @ ''B''), cm_messages = [\<lparr>msg_role = ''user'', msg_content = ''hi''\<rparr>],
          cm_max_tokens = 4096, cm_temperature = None\<rparr>"
  by (subst parse_openai_messages_hoists, simp add: example_codec_def)
    (simp add: example_codec_def system_contents_def)

text \<open>
  C28. Stream translation: whatever way the upstream cuts a stream of well-formed events into chunks,
  the client receives the translation of those events in order followed by exactly one terminal
  \<open>[DONE]\<close> marker, and the stream ends.
\<close>

theorem anthropic_stream_translation:
  assumes "list_all sse_event_ok evs" and "concat chunks = concat (map sse_encode evs)"
  shows "adapter_stream J (adapter_new (map Inr chunks) t) =
     map Inr (snd (process_events J t evs)) @ [Inr DONE_MARKER]"
proof -
  have "sse_run sse_new chunks = (sse_new, evs)"
    using sse_run_encoded [OF assms] .
  then show ?thesis by (simp add: adapter_stream_new translated_chunks)
qed

definition example_transform :: anthropic_transform where
  "example_transform = \<lparr>chat_id = ''chatcmpl-0'', at_created = 0, at_model = ''m'', at_input_tokens = 0,
     at_output_tokens = 0\<rparr>"

theorem anthropic_stream_translation_witness:
  "adapter_stream empty_object_serde
     (adapter_new (map Inr [''event: message_delta'' @ [NL] @ ''da'', ''ta: {}'' @ [NL, NL]]) example_transform) =
   [Inr (sse_data_line ''{}''), Inr (sse_data_line ''{}''), Inr DONE_MARKER]"
proof -
  let ?ev = "\<lparr>ev_event = Some ''message_delta'', ev_data = ''{}''\<rparr>"
  have "list_all sse_event_ok [?ev]" by (simp add: sse_named_ok byte_in_def)
  moreover have "concat [''event: message_delta'' @ [NL] @ ''da'', ''ta: {}'' @ [NL, NL]] =
      concat (map sse_encode [?ev])"
    by (simp add: sse_encode_def sse_named_event_def sse_data_line_def)
  ultimately have "adapter_stream empty_object_serde
      (adapter_new (map Inr [''event: message_delta'' @ [NL] @ ''da'', ''ta: {}'' @ [NL, NL]]) example_transform) =
     map Inr (snd (process_events empty_object_serde example_transform [?ev])) @ [Inr DONE_MARKER]"
    by (rule anthropic_stream_translation)
  then show ?thesis
    by (simp add: transform_process_def process_message_delta_def empty_object_serde_def transform_chunk_def
        usage_chunk_def Let_def)
qed

text \<open>The bodies whose message is taken over: JSON with a string at \<open>error.message\<close>.\<close>

definition has_error_message :: "serde_json \<Rightarrow> bytes \<Rightarrow> bool" where
  "has_error_message J body \<longleftrightarrow>
     (case from_slice J body of
        Inl _ \<Rightarrow> False
      | Inr v \<Rightarrow>
          (case json_get v ''error'' of
             None \<Rightarrow> False
           | Some err \<Rightarrow> Option.bind (json_get err ''message'') json_as_str \<noteq> None))"

text \<open>
  C38. The error translation fails on long error texts: the call panics exactly when the body carries no string at
  \<open>error.message\<close>, whether it is JSON or not, and is UTF-8 of more than 512 bytes whose byte 512 lies inside a
  character.
\<close>

theorem to_openai_error_panics_iff:
  "to_openai_error J body = None \<longleftrightarrow>
     \<not> has_error_message J body \<and> utf8_valid body \<and> 512 < length body \<and> \<not> is_char_boundary body 512"
proof -
  define parsed where "parsed =
    Option.bind (result_ok (from_slice J body)) (\<lambda>v.
    Option.bind (json_get v ''error'') (\<lambda>err.
    Option.bind (Option.bind (json_get err ''message'') json_as_str) (\<lambda>msg.
    Some (msg, Option.bind (json_get err ''type'') json_as_str))))"
  have "parsed = None \<longleftrightarrow> \<not> has_error_message J body"
    by (auto simp: parsed_def has_error_message_def bind_eq_None_conv split: sum.split option.split)
  moreover have "length NON_JSON_ERROR \<le> 512" by (simp add: NON_JSON_ERROR_def)
  ultimately show ?thesis
    unfolding to_openai_error_def parsed_def [symmetric]
    by (cases parsed) (auto simp: from_utf8_def str_slice_to_def Let_def split: option.splits)
qed

definition long_accented :: bytes where
  "long_accented = replicate 511 (CHR ''a'') @ [CHR 0xC3, CHR 0xA9]"

theorem to_openai_error_panics_iff_witness:
  "to_openai_error empty_object_serde long_accented = None"
proof -
  have "from_slice empty_object_serde long_accented = Inl ''unsupported''"
    by (auto simp: empty_object_serde_def long_accented_def dest: arg_cong [where f = length])
  then have "\<not> has_error_message empty_object_serde long_accented" by (simp add: has_error_message_def)
  moreover have "utf8_valid long_accented"
    unfolding long_accented_def by (subst utf8_valid_ascii_append) (simp_all add: list_all_iff byte_in_def)
  moreover have "\<not> is_char_boundary long_accented 512" "512 < length long_accented"
    by (simp_all add: is_char_boundary_def long_accented_def nth_append)
  ultimately show ?thesis by (simp add: to_openai_error_panics_iff)
qed

text \<open>A long JSON body without a message panics as well: a JSON string whose byte 512 is inside a character.\<close>

theorem to_openai_error_panics_on_json:
  assumes "from_slice J body = Inr (JString s)" "utf8_valid body" "512 < length body" "\<not> is_char_boundary body 512"
  shows "to_openai_error J body = None"
proof -
  have "\<not> has_error_message J body" using assms(1) by (simp add: has_error_message_def)
  then show ?thesis using assms(2-4) by (simp add: to_openai_error_panics_iff)
qed

end
