(* ===== verification/Bedrock.thy ===== *)
theory Bedrock
  imports Anthropic
begin

text \<open>
  The Bedrock connector (\<open>provider/bedrock.rs\<close>) and its SigV4 request signer
  (\<open>provider/sigv4.rs\<close>). SHA-256, HMAC and hexadecimal encoding are parameters.
\<close>

section \<open>SigV4\<close>

definition hmac_sha256 :: "crypto \<Rightarrow> bytes \<Rightarrow> bytes \<Rightarrow> bytes" where
  "hmac_sha256 C key data = hmac_sha256_mac C key data"

definition sha256_hex :: "crypto \<Rightarrow> bytes \<Rightarrow> string" where
  "sha256_hex C data = hex_encode C (sha256 C data)"

definition signing_key :: "crypto \<Rightarrow> string \<Rightarrow> string \<Rightarrow> string \<Rightarrow> string \<Rightarrow> bytes" where
  "signing_key C secret date_stamp region service =
     (let k_date = hmac_sha256 C (''AWS4'' @ secret) date_stamp;
          k_region = hmac_sha256 C k_date region;
          k_service = hmac_sha256 C k_region service
      in hmac_sha256 C k_service ''aws4_request'')"

definition unreserved :: "char \<Rightarrow> bool" where
  "unreserved c =
     (byte_in 65 90 c \<or> byte_in 97 122 c \<or> byte_in 48 57 c \<or> c \<in> set ''-_.~'')"

definition hex_upper :: "nat \<Rightarrow> char" where
  "hex_upper d = (if d < 10 then char_of (48 + d) else char_of (55 + d))"

definition percent_encode :: "char \<Rightarrow> string" where
  "percent_encode c = [CHR 0x25, hex_upper (byte_val c div 16), hex_upper (byte_val c mod 16)]"

definition uri_encode_segment :: "string \<Rightarrow> string" where
  "uri_encode_segment input = concat (map (\<lambda>c. if unreserved c then [c] else percent_encode c) input)"

text \<open>\<open>{n:0w}\<close>: at least \<open>w\<close> digits, padded with zeros; a sign takes one place.\<close>

definition pad_left :: "nat \<Rightarrow> string \<Rightarrow> string" where
  "pad_left w s = replicate (w - length s) (CHR ''0'') @ s"

definition show_padded :: "nat \<Rightarrow> int \<Rightarrow> string" where
  "show_padded w n =
     (if n < 0 then CHR ''-'' # pad_left (w - 1) (show_nat (nat (- n))) else pad_left w (show_nat (nat n)))"

text \<open>
  Days since 1970-01-01 to a civil date. All divisions have a positive divisor and, apart from
  the era, a non-negative dividend, where \<open>/\<close> on \<open>i64\<close> is \<open>div\<close>; the era shifts a negative
  dividend so that the truncating division rounds down.
\<close>

definition civil_from_days :: "int \<Rightarrow> int \<times> nat \<times> nat" where
  "civil_from_days days =
     (let z = days + 719468;
          era = (if z \<ge> 0 then z div 146097 else - ((146096 - z) div 146097));
          doe = z - era * 146097;
          yoe = (doe - doe div 1460 + doe div 36524 - doe div 146096) div 365;
          year = yoe + era * 400;
          doy = doe - (365 * yoe + yoe div 4 - yoe div 100);
          mp = (5 * doy + 2) div 153;
          day = nat (doy - (153 * mp + 2) div 5 + 1);
          month = nat (if mp < 10 then mp + 3 else mp - 9)
      in (if month \<le> 2 then year + 1 else year, month, day))"

definition format_amz_date :: "nat \<Rightarrow> string \<times> string" where
  "format_amz_date secs =
     (let days = int (secs div 86400); rem = secs mod 86400;
          hour = rem div 3600; minute = rem mod 3600 div 60; second = rem mod 60
      in case civil_from_days days of (year, month, day) \<Rightarrow>
           let date = show_padded 4 year @ pad_left 2 (show_nat month) @ pad_left 2 (show_nat day)
           in (date @ ''T'' @ pad_left 2 (show_nat hour) @ pad_left 2 (show_nat minute) @
               pad_left 2 (show_nat second) @ ''Z'', date))"

definition sign_post ::
  "crypto \<Rightarrow> string \<Rightarrow> string \<Rightarrow> string option \<Rightarrow> string \<Rightarrow> string \<Rightarrow> string \<Rightarrow> string \<Rightarrow> string \<Rightarrow> bytes \<Rightarrow> string \<Rightarrow> string \<Rightarrow> string" where
  "sign_post C access_key secret_key session_token region service host canonical_path content_type body amz_date date_stamp =
     (let payload_hash = sha256_hex C body;
          base_headers = ''content-type:'' @ content_type @ [NL] @ ''host:'' @ host @ [NL] @
            ''x-amz-date:'' @ amz_date @ [NL];
          canonical_headers = base_headers @
            (case session_token of Some token \<Rightarrow> ''x-amz-security-token:'' @ token @ [NL] | None \<Rightarrow> []);
          signed_headers = ''content-type;host;x-amz-date'' @
            (case session_token of Some token \<Rightarrow> '';x-amz-security-token'' | None \<Rightarrow> []);
          canonical_request = ''POST'' @ [NL] @ canonical_path @ [NL, NL] @ canonical_headers @ [NL] @
            signed_headers @ [NL] @ payload_hash;
          scope = date_stamp @ ''/'' @ region @ ''/'' @ service @ ''/aws4_request'';
          string_to_sign = ''AWS4-HMAC-SHA256'' @ [NL] @ amz_date @ [NL] @ scope @ [NL] @
            sha256_hex C canonical_request;
          key = signing_key C secret_key date_stamp region service;
          signature = hex_encode C (hmac_sha256 C key string_to_sign)
      in ''AWS4-HMAC-SHA256 Credential='' @ access_key @ ''/'' @ scope @ '', SignedHeaders='' @
           signed_headers @ '', Signature='' @ signature)"

section \<open>The connector\<close>

definition SERVICE :: string where "SERVICE = ''bedrock''"
definition BEDROCK_ANTHROPIC_VERSION :: string where "BEDROCK_ANTHROPIC_VERSION = ''bedrock-2023-05-31''"

record bedrock_connector =
  bc_endpoint :: string
  bc_host :: string
  bc_region :: string
  bc_access_key :: string
  bc_secret_key :: string
  bc_session_token :: "string option"

definition bedrock_build ::
  "client_build \<Rightarrow> string \<Rightarrow> string \<Rightarrow> string \<Rightarrow> string \<Rightarrow> string option \<Rightarrow> core_error + bedrock_connector" where
  "bedrock_build cb endpoint region access_key secret_key session_token =
     build_client cb
       \<lparr>bc_endpoint = endpoint,
        bc_host = unwrap_or (case strip_prefix ''https://'' endpoint of
                               Some h \<Rightarrow> Some h | None \<Rightarrow> strip_prefix ''http://'' endpoint) endpoint,
        bc_region = region, bc_access_key = access_key, bc_secret_key = secret_key,
        bc_session_token = session_token\<rparr>"

definition bedrock_new ::
  "client_build \<Rightarrow> string \<Rightarrow> string \<Rightarrow> string \<Rightarrow> string option \<Rightarrow> core_error + bedrock_connector" where
  "bedrock_new cb region access_key secret_key session_token =
     bedrock_build cb (''https://bedrock-runtime.'' @ region @ ''.amazonaws.com'') region access_key
       secret_key session_token"

record bedrock_request =
  breq_anthropic_version :: string
  breq_messages :: "message list"
  breq_max_tokens :: u32
  breq_system :: "string option"
  breq_temperature :: "f64 option"

definition bedrock_reply :: "u16 \<Rightarrow> bytes \<Rightarrow> string \<Rightarrow> usage option \<Rightarrow> chat_response" where
  "bedrock_reply status body model u =
     \<lparr>rs_status = status, rs_content_type = Some JSON_TYPE, rs_body = single_chunk body,
      rs_provider = ''bedrock'', rs_model = model, rs_usage = u, rs_attempts = 1\<rparr>"

definition bedrock_path :: "string \<Rightarrow> string" where
  "bedrock_path model = ''/model/'' @ uri_encode_segment model @ ''/invoke''"

text \<open>\<open>now\<close> is the system time in seconds.\<close>

definition bedrock_post :: "crypto \<Rightarrow> bedrock_connector \<Rightarrow> nat \<Rightarrow> string \<Rightarrow> bytes \<Rightarrow> http_request" where
  "bedrock_post C c now model payload =
     (let path = bedrock_path model
      in case format_amz_date now of (amz_date, date_stamp) \<Rightarrow>
           \<lparr>hq_url = bc_endpoint c @ path,
            hq_headers =
              [(''content-type'', JSON_TYPE), (''x-amz-date'', amz_date),
               (''authorization'',
                sign_post C (bc_access_key c) (bc_secret_key c) (bc_session_token c) (bc_region c) SERVICE
                  (bc_host c) path JSON_TYPE payload amz_date date_stamp)] @
              (case bc_session_token c of Some token \<Rightarrow> [(''x-amz-security-token'', token)] | None \<Rightarrow> []),
            hq_body = payload\<rparr>)"

definition bedrock_streaming_error :: json where
  "bedrock_streaming_error =
     json_object [(''error'', json_object
       [(''message'', JString ''streaming is not yet supported for the Bedrock provider'')])]"

text \<open>\<open>ser\<close> is the derived serializer of the InvokeModel body, \<open>clock\<close> the system time.\<close>

definition bedrock_chat ::
  "serde_json \<Rightarrow> anthropic_codec \<Rightarrow> (bedrock_request \<Rightarrow> string + bytes) \<Rightarrow> crypto \<Rightarrow> ('w \<Rightarrow> nat) \<Rightarrow> 'w http \<Rightarrow> bedrock_connector \<Rightarrow> chat_request \<Rightarrow> 'w chat_call" where
  "bedrock_chat J D ser C clock H c request w =
     (if cq_stream request then
        (Ret (Inr (bedrock_reply 501 (unwrap_or (result_ok (to_vec J bedrock_streaming_error)) [])
           (cq_model request) None)), w)
      else
        (case parse_openai_messages D (cq_body request) of
           Inl err \<Rightarrow> (Ret (Inl err), w)
         | Inr parts \<Rightarrow>
             (case ser \<lparr>breq_anthropic_version = BEDROCK_ANTHROPIC_VERSION, breq_messages = cm_messages parts,
                        breq_max_tokens = cm_max_tokens parts, breq_system = cm_system parts,
                        breq_temperature = cm_temperature parts\<rparr> of
                Inl e \<Rightarrow> (Ret (Inl (ProviderError (''failed to encode request: '' @ e))), w)
              | Inr payload \<Rightarrow>
                  (case http_post H (bedrock_post C c (clock w) (cq_model request) payload) w of
                     (Inl e, w') \<Rightarrow> (Ret (Inl (ProviderError (''request to Bedrock failed: '' @ e))), w')
                   | (Inr response, w') \<Rightarrow>
                       let status = hr_status response
                       in case collect_stream (hr_body response) of
                            Inl e \<Rightarrow> (Ret (Inl (ProviderError (''reading Bedrock response failed: '' @ e))), w')
                          | Inr upstream_body \<Rightarrow>
                              if status = 200 then
                                (case to_openai_response J D (clock w') upstream_body of
                                   Inl err \<Rightarrow> (Ret (Inl err), w')
                                 | Inr (encoded, u) \<Rightarrow>
                                     (Ret (Inr (bedrock_reply status encoded (cq_model request) (Some u))), w'))
                              else (Ret (Inr (bedrock_reply status upstream_body (cq_model request) None)), w')))))"

definition bedrock_connector_impl ::
  "serde_json \<Rightarrow> anthropic_codec \<Rightarrow> (bedrock_request \<Rightarrow> string + bytes) \<Rightarrow> crypto \<Rightarrow> ('w \<Rightarrow> nat) \<Rightarrow> 'w http \<Rightarrow> bedrock_connector \<Rightarrow> 'w connector" where
  "bedrock_connector_impl J D ser C clock H c =
     \<lparr>conn_name = ''bedrock'',
      conn_chat = bedrock_chat J D ser C clock H c,
      conn_embeddings = default_embeddings ''bedrock'',
      conn_reachable = http_reachable H (bc_endpoint c)\<rparr>"

end
