(* ===== verification/Bedrock_Dates.thy ===== *)
theory Bedrock_Dates
  imports Bedrock
begin

text \<open>
  The calendar arithmetic of the request signer (\<open>civil_from_days\<close> of \<open>provider/sigv4.rs\<close>) against the
  Gregorian calendar, and the path encoding against its decoder.
\<close>

section \<open>The Gregorian calendar\<close>

definition leap :: "int \<Rightarrow> bool" where
  "leap y \<longleftrightarrow> y mod 4 = 0 \<and> (y mod 100 \<noteq> 0 \<or> y mod 400 = 0)"

definition month_length :: "int \<Rightarrow> nat \<Rightarrow> nat" where
  "month_length y m = (if m = 2 then (if leap y then 29 else 28) else if m \<in> {4, 6, 9, 11} then 30 else 31)"

fun next_date :: "int \<times> nat \<times> nat \<Rightarrow> int \<times> nat \<times> nat" where
  "next_date (y, m, d) =
     (if d < month_length y m then (y, m, d + 1) else if m < 12 then (y, m + 1, 1) else (y + 1, 1, 1))"

section \<open>Years of an era\<close>

text \<open>
  The algorithm counts years from March, in eras of 400 years. \<open>year_start y\<close> is the day of the
  era on which its year \<open>y\<close> begins.
\<close>

definition year_start :: "int \<Rightarrow> int" where
  "year_start y = 365 * y + y div 4 - y div 100 + y div 400"

definition era_day :: "int \<Rightarrow> int" where
  "era_day doe = doe - doe div 1460 + doe div 36524 - doe div 146096"

lemma era_day_step: "0 \<le> doe \<Longrightarrow> doe + 1 < 146097 \<Longrightarrow> era_day doe \<le> era_day (doe + 1)"
proof -
  assume d: "0 \<le> doe" "doe + 1 < 146097"
  have "(doe + 1) div 1460 \<le> doe div 1460 + 1"
    using zdiv_mono1 [of "doe + 1" "doe + 1460" 1460] by simp
  moreover have "doe div 36524 \<le> (doe + 1) div 36524" by (rule zdiv_mono1) simp_all
  moreover have "(doe + 1) div 146096 = doe div 146096" if "doe + 1 \<noteq> 146096"
    using d that by (simp add: div_pos_pos_trivial)
  ultimately show ?thesis
  proof (cases "doe + 1 = 146096")
    case True
    then have "doe = 146095" by simp
    then show ?thesis by (simp add: era_day_def)
  qed (simp add: era_day_def)
qed

lemma era_day_mono: "a \<le> b \<Longrightarrow> 0 \<le> a \<Longrightarrow> b < 146097 \<Longrightarrow> era_day a \<le> era_day b"
proof (induction b rule: int_ge_induct)
  case base
  then show ?case by simp
next
  case (step b)
  then show ?case using era_day_step [of b] by simp
qed

text \<open>The formula is right on the first and the last day of each of the 400 years, hence between.\<close>

definition year_ends_ok :: "int \<Rightarrow> bool" where
  "year_ends_ok y \<longleftrightarrow> era_day (year_start y) div 365 = y \<and> era_day (year_start (y + 1) - 1) div 365 = y"

lemma year_ends: "list_all year_ends_ok [0..399]"
  by code_simp

definition year_length_ok :: "int \<Rightarrow> bool" where
  "year_length_ok y \<longleftrightarrow> year_start (y + 1) = year_start y + (if leap (y + 1) then 366 else 365)"

lemma year_lengths: "list_all year_length_ok [0..399]"
  by code_simp

lemma year_start_step: "year_start y < year_start (y + 1)"
proof -
  have lin: "365 * y + a - b + c < 365 * (y + 1) + a' - b' + c'" if "a \<le> a'" "b' \<le> b + 1" "c \<le> c'"
    for a b c a' b' c' :: int
    using that by simp
  have "(y + 1) div 100 \<le> (y + 100) div 100" by (rule zdiv_mono1) simp_all
  then have "(y + 1) div 100 \<le> y div 100 + 1" by simp
  then show ?thesis unfolding year_start_def
    by (intro lin zdiv_mono1) simp_all
qed

lemma year_start_mono: "a \<le> b \<Longrightarrow> year_start a \<le> year_start b"
proof (induction b rule: int_ge_induct)
  case (step b)
  then show ?case using year_start_step [of b] by (meson less_imp_le order_trans)
qed simp

lemma year_start_ends: "year_start 0 = 0" "year_start 400 = 146097"
  by (simp_all add: year_start_def)

lemma year_of_day:
  assumes "0 \<le> y" "y < 400" "year_start y \<le> doe" "doe < year_start (y + 1)"
  shows "(doe - doe div 1460 + doe div 36524 - doe div 146096) div 365 = y"
proof -
  have lo: "0 \<le> year_start y" using year_start_mono [of 0 y] assms(1) by (simp add: year_start_ends)
  have hi: "year_start (y + 1) \<le> 146097" using year_start_mono [of "y + 1" 400] assms(2) by (simp add: year_start_ends)
  have "era_day (year_start y) \<le> era_day doe" using lo hi assms by (intro era_day_mono) simp_all
  moreover have "era_day doe \<le> era_day (year_start (y + 1) - 1)" using lo hi assms by (intro era_day_mono) simp_all
  moreover have "year_ends_ok y" using year_ends assms(1,2) by (simp add: list_all_iff)
  ultimately have "era_day doe div 365 = y"
    using zdiv_mono1 [of "era_day (year_start y)" "era_day doe" 365]
      zdiv_mono1 [of "era_day doe" "era_day (year_start (y + 1) - 1)" 365]
    by (simp add: year_ends_ok_def)
  then show ?thesis by (simp add: era_day_def)
qed

lemma year_exists: "0 \<le> doe \<Longrightarrow> doe < year_start (int n) \<Longrightarrow>
    \<exists>y. 0 \<le> y \<and> y < int n \<and> year_start y \<le> doe \<and> doe < year_start (y + 1)"
proof (induction n)
  case 0
  then show ?case by (simp add: year_start_ends)
next
  case (Suc n)
  show ?case
  proof (cases "doe < year_start (int n)")
    case True
    with Suc show ?thesis by force
  next
    case False
    with Suc.prems show ?thesis by (intro exI [of _ "int n"]) (simp add: add.commute)
  qed
qed

section \<open>Days of a year\<close>

definition month_day :: "int \<Rightarrow> nat \<times> nat" where
  "month_day doy =
     (let mp = (5 * doy + 2) div 153
      in (nat (if mp < 10 then mp + 3 else mp - 9), nat (doy - (153 * mp + 2) div 5 + 1)))"

definition era_date :: "int \<Rightarrow> int \<Rightarrow> int \<Rightarrow> int \<times> nat \<times> nat" where
  "era_date era y doy =
     (case month_day doy of (m, d) \<Rightarrow> (if m \<le> 2 then y + era * 400 + 1 else y + era * 400, m, d))"

text \<open>March to January have fixed lengths, so only the end of February depends on the year.\<close>

definition day_step_ok :: "int \<Rightarrow> bool" where
  "day_step_ok doy \<longleftrightarrow>
     (case month_day doy of (m, d) \<Rightarrow>
        month_day (doy + 1) =
          (if m = 2 then (2, d + 1)
           else if d < month_length 0 m then (m, d + 1) else (if m = 12 then 1 else m + 1, 1)) \<and>
        (m = 2 \<longrightarrow> int d = doy - 336) \<and> 1 \<le> m \<and> m \<le> 12 \<and> d \<le> month_length 0 m)"

lemma day_steps: "list_all day_step_ok [0..364]"
  by code_simp

lemma year_ends_in_february: "month_day 364 = (2, 28)" "month_day 365 = (2, 29)" "month_day 0 = (3, 1)"
  by code_simp+

section \<open>Correctness\<close>

lemma leap_era: "leap (y + era * 400) = leap y"
proof -
  have "era * 400 = (era * 100) * 4" "era * 400 = (era * 4) * 100" by simp_all
  then have "(y + era * 400) mod 4 = y mod 4" "(y + era * 400) mod 100 = y mod 100"
    by (metis mod_mult_self1)+
  moreover have "(y + era * 400) mod 400 = y mod 400" by (rule mod_mult_self1)
  ultimately show ?thesis unfolding leap_def by (simp only:)
qed

lemma year_length:
  assumes "0 \<le> y" "y < 400"
  shows "year_start (y + 1) = year_start y + (if leap (y + 1) then 366 else 365)"
  using year_lengths assms by (simp add: list_all_iff year_length_ok_def)

lemma civil_era:
  assumes "0 \<le> y" "y < 400" "0 \<le> doy" "year_start y + doy < year_start (y + 1)"
  shows "civil_from_days (era * 146097 + (year_start y + doy) - 719468) = era_date era y doy"
proof -
  define D where "D = year_start y + doy"
  have D: "0 \<le> D" "D < 146097"
    using assms year_start_mono [of 0 y] year_start_mono [of "y + 1" 400] by (simp_all add: D_def year_start_ends)
  have era: "(if 0 \<le> era * 146097 + D then (era * 146097 + D) div 146097
      else - ((146096 - (era * 146097 + D)) div 146097)) = era"
  proof -
    have "(era * 146097 + D) div 146097 = era" using D by (simp add: div_pos_pos_trivial)
    moreover have "(146096 - (era * 146097 + D)) div 146097 = - era"
    proof -
      have "146096 - (era * 146097 + D) = (- era) * 146097 + (146096 - D)" by simp
      moreover have "(146096 - D) div 146097 = 0" using D by (intro div_pos_pos_trivial) simp_all
      ultimately show ?thesis by (metis add.commute add_0 div_mult_self1 zero_neq_numeral)
    qed
    ultimately show ?thesis by simp
  qed
  have yoe: "(D - D div 1460 + D div 36524 - D div 146096) div 365 = y"
    using assms by (intro year_of_day) (simp_all add: D_def)
  have "y div 400 = 0" using assms(1,2) by (rule div_pos_pos_trivial)
  then have doy: "D - (365 * y + y div 4 - y div 100) = doy" by (simp add: D_def year_start_def)
  have z: "era * 146097 + (year_start y + doy) - 719468 + 719468 = era * 146097 + D" by (simp add: D_def)
  show ?thesis
    unfolding civil_from_days_def Let_def z era
    by (simp add: yoe doy era_date_def month_day_def Let_def)
qed

lemma month_length_fixed: "m \<noteq> 2 \<Longrightarrow> month_length y m = month_length 0 m"
  by (simp add: month_length_def)

lemma era_date_within:
  assumes y: "0 \<le> y" "y < 400" and doy: "0 \<le> doy"
    and in_year: "year_start y + doy + 1 < year_start (y + 1)"
  shows "era_date era y (doy + 1) = next_date (era_date era y doy)"
proof -
  obtain m d where md: "month_day doy = (m, d)" by (cases "month_day doy")
  have len: "doy + 1 < (if leap (y + 1) then 366 else 365)" using in_year year_length [OF y] by simp
  then have "doy \<le> 364" by (simp split: if_splits)
  then have "day_step_ok doy" using day_steps doy by (simp add: list_all_iff)
  then have ok: "month_day (doy + 1) =
        (if m = 2 then (2, d + 1)
         else if d < month_length 0 m then (m, d + 1) else (if m = 12 then 1 else m + 1, 1))"
      "m = 2 \<Longrightarrow> int d = doy - 336" "1 \<le> m" "m \<le> 12"
    by (simp_all add: day_step_ok_def md)
  have leap: "leap (y + era * 400 + 1) = leap (y + 1)" using leap_era [of "y + 1" era] by (simp add: algebra_simps)
  show ?thesis
  proof (cases "m = 2")
    case True
    then have "d < month_length (y + era * 400 + 1) 2" using ok(2) len by (simp add: month_length_def leap split: if_splits)
    then show ?thesis using True by (simp add: era_date_def md ok(1))
  next
    case False
    obtain L where L: "month_length Y m = L" for Y using month_length_fixed [OF False] by blast
    show ?thesis using ok(3,4) False by (auto simp: era_date_def md ok(1) L)
  qed
qed

lemma era_date_year_end:
  assumes y: "0 \<le> y" "y < 400" and last: "year_start y + doy + 1 = year_start (y + 1)"
  shows "next_date (era_date era y doy) = (y + 1 + era * 400, 3, 1)"
proof -
  have len: "doy = (if leap (y + 1) then 365 else 364)" using last year_length [OF y] by (simp split: if_splits)
  have leap: "leap (y + era * 400 + 1) = leap (y + 1)" using leap_era [of "y + 1" era] by (simp add: algebra_simps)
  show ?thesis
    by (simp add: len era_date_def year_ends_in_february month_length_def leap split: if_splits)
qed

lemma era_date_march: "era_date era y 0 = (y + era * 400, 3, 1)"
  by (simp add: era_date_def year_ends_in_february)

lemma era_decompose:
  obtains era y doy where "days = era * 146097 + (year_start y + doy) - 719468"
    "0 \<le> y" "y < 400" "0 \<le> doy" "year_start y + doy < year_start (y + 1)"
proof -
  define z where "z = days + 719468"
  have doe: "0 \<le> z mod 146097" "z mod 146097 < year_start (int 400)"
    by (simp_all add: year_start_ends)
  from year_exists [OF this] obtain y where y: "0 \<le> y" "y < int 400" "year_start y \<le> z mod 146097"
      "z mod 146097 < year_start (y + 1)" by blast
  have "days = z div 146097 * 146097 + (year_start y + (z mod 146097 - year_start y)) - 719468"
    by (simp add: z_def)
  then show thesis using y by (intro that [of "z div 146097" y "z mod 146097 - year_start y"]) simp_all
qed

lemma civil_from_days_step: "civil_from_days (days + 1) = next_date (civil_from_days days)"
proof -
  obtain era y doy where dec: "days = era * 146097 + (year_start y + doy) - 719468"
    and y: "0 \<le> y" "y < 400" and doy: "0 \<le> doy" "year_start y + doy < year_start (y + 1)"
    by (rule era_decompose)
  have now: "civil_from_days days = era_date era y doy" unfolding dec by (rule civil_era [OF y doy])
  consider "year_start y + doy + 1 < year_start (y + 1)"
    | "year_start y + doy + 1 = year_start (y + 1)" "y + 1 < 400"
    | "year_start y + doy + 1 = year_start (y + 1)" "y = 399" using doy(2) y(2) by linarith
  then show ?thesis
  proof cases
    case 1
    have e: "days + 1 = era * 146097 + (year_start y + (doy + 1)) - 719468" by (simp add: dec)
    have "civil_from_days (days + 1) = era_date era y (doy + 1)" unfolding e
      using y doy 1 by (intro civil_era) simp_all
    then show ?thesis by (simp only: now era_date_within [OF y doy(1) 1])
  next
    case 2
    have e: "days + 1 = era * 146097 + (year_start (y + 1) + 0) - 719468" using 2 by (simp add: dec)
    have "civil_from_days (days + 1) = era_date era (y + 1) 0" unfolding e
      using y 2 year_start_step [of "y + 1"] by (intro civil_era) simp_all
    then show ?thesis by (simp add: now era_date_year_end [OF y 2(1)] era_date_march)
  next
    case 3
    have e: "days + 1 = (era + 1) * 146097 + (year_start 0 + 0) - 719468" using 3 by (simp add: dec year_start_ends)
    have "civil_from_days (days + 1) = era_date (era + 1) 0 0" unfolding e
      using year_start_step [of 0] by (intro civil_era) simp_all
    moreover have "next_date (era_date era y doy) = (400 + era * 400, 3, 1)"
      using era_date_year_end [OF y 3(1)] 3(2) by simp
    ultimately show ?thesis by (simp add: now era_date_march)
  qed
qed

text \<open>
  C31. The day the signer writes into the date of a request is the day of the Gregorian calendar: for every
  number of days since the Unix epoch, \<open>civil_from_days\<close> gives the date reached from 1 January 1970 by as many
  steps of the calendar.\<close>

theorem civil_from_days_is_calendar: "civil_from_days (int n) = (next_date ^^ n) (1970, 1, 1)"
proof (induction n)
  case 0
  show ?case by code_simp
next
  case (Suc n)
  then show ?case using civil_from_days_step [of "int n"] by (simp add: add.commute)
qed

section \<open>Percent encoding\<close>

definition hex_value :: "char \<Rightarrow> nat" where
  "hex_value c = (if byte_val c < 65 then byte_val c - 48 else byte_val c - 55)"

fun uri_decode :: "string \<Rightarrow> string" where
  "uri_decode (c # h # l # rest) =
     (if c = CHR 0x25 then char_of (16 * hex_value h + hex_value l) # uri_decode rest
      else c # uri_decode (h # l # rest))"
| "uri_decode s = s"

lemma hex_value_upper: "d < 16 \<Longrightarrow> hex_value (hex_upper d) = d"
  by (simp add: hex_value_def hex_upper_def of_char_of)

lemma uri_decode_plain: "c \<noteq> CHR 0x25 \<Longrightarrow> uri_decode (c # s) = c # uri_decode s"
  by (cases s; cases "tl s") simp_all

lemma uri_decode_percent: "uri_decode (percent_encode c @ s) = c # uri_decode s"
proof -
  have "byte_val c div 16 < 16" using nat_of_char_less_256 [of c] by (simp add: less_mult_imp_div_less)
  then show ?thesis by (simp add: percent_encode_def hex_value_upper)
qed

text \<open>
  C40. The model name in the signed path is recoverable: decoding the percent-encoded segment gives the name
  back, so two models never share a path.
\<close>

theorem uri_encode_segment_roundtrip: "uri_decode (uri_encode_segment model) = model"
proof (induction model)
  case (Cons c model)
  have "unreserved c \<Longrightarrow> c \<noteq> CHR 0x25" by (auto simp: unreserved_def byte_in_def)
  with Cons show ?case
    by (simp add: uri_encode_segment_def uri_decode_plain uri_decode_percent)
qed (simp add: uri_encode_segment_def)

end
