(* ===== verification/Cost.thy ===== *)
theory Cost
  imports Provider SpendTracker
begin

text \<open>
  Cost accounting (\<open>cost.rs\<close>): the price of a response from its token usage and the pricing
  table, in \<open>f64\<close> arithmetic.
\<close>

definition cost_compute :: "pricing \<Rightarrow> string \<Rightarrow> string \<Rightarrow> usage \<Rightarrow> f64 option" where
  "cost_compute pricing provider model u =
     (case tget (pricing_providers pricing) provider of
        None \<Rightarrow> None
      | Some models \<Rightarrow>
          (case tget models model of
             None \<Rightarrow> None
           | Some mp \<Rightarrow>
               let input = f64_mul (f64_div (f64_of_nat (unat (prompt_tokens u))) (Fin 1000)) (input_per_1k_tokens_usd mp);
                   output = f64_mul (f64_div (f64_of_nat (unat (completion_tokens u))) (Fin 1000)) (output_per_1k_tokens_usd mp)
               in Some (f64_add input output)))"

lemma cost_compute_priced:
  "cost_compute pricing provider model u =
     map_option (\<lambda>mp. f64_add
        (f64_mul (f64_div (f64_of_nat (unat (prompt_tokens u))) (Fin 1000)) (input_per_1k_tokens_usd mp))
        (f64_mul (f64_div (f64_of_nat (unat (completion_tokens u))) (Fin 1000)) (output_per_1k_tokens_usd mp)))
       (price_of pricing provider model)"
  by (simp add: cost_compute_def price_of_def Let_def split: option.split)

section \<open>Costs are amounts\<close>

text \<open>A price a configuration can state: finite and not negative.\<close>

fun f64_price :: "f64 \<Rightarrow> bool" where
  "f64_price (Fin r) = (0 \<le> r)"
| "f64_price _ = False"

definition pricing_ok :: "pricing \<Rightarrow> bool" where
  "pricing_ok p = (\<forall>provider model mp. price_of p provider model = Some mp \<longrightarrow>
     f64_price (input_per_1k_tokens_usd mp) \<and> f64_price (output_per_1k_tokens_usd mp))"

lemma f64_of_rat_amount: "0 \<le> q \<Longrightarrow> f64_amount (f64_of_rat q)"
  using f64_round_nonneg [of q] by (simp add: f64_of_rat_def Let_def f64_max_exclusive_def)

lemma f64_tokens_thousands:
  "\<exists>r. f64_div (f64_of_nat (unat (n :: u32))) (Fin 1000) = Fin r \<and> 0 \<le> r"
proof -
  have n: "unat n < 2 ^ 32" using unsigned_less [of n] by simp
  then have "f64_of_nat (unat n) = Fin (of_nat (unat n))"
    by (intro f64_of_nat_exact) simp
  moreover have nn: "(of_nat (unat n) :: rat) \<le> 2 ^ 53"
  proof -
    have "unat n \<le> 2 ^ 53" using n by simp
    then show ?thesis by (metis of_nat_le_iff of_nat_numeral of_nat_power)
  qed
  have "\<bar>of_nat (unat n) / 1000 :: rat\<bar> \<le> f64_big"
  proof (rule le_f64_big)
    have "(0 :: rat) \<le> of_nat (unat n)" by (rule of_nat_0_le_iff)
    then show "\<bar>of_nat (unat n) / 1000 :: rat\<bar> \<le> 2 ^ 53" using nn by (simp add: field_simps)
  qed
  then have "f64_of_rat (of_nat (unat n) / 1000) = Fin (f64_round (of_nat (unat n) / 1000))"
    by (rule f64_of_rat_Fin)
  ultimately show ?thesis
    by (simp add: f64_round_nonneg del: of_nat_unat)
qed

lemma f64_mul_price: "0 \<le> r \<Longrightarrow> f64_price p \<Longrightarrow> f64_amount (f64_mul (Fin r) p)"
  by (cases p) (simp_all add: f64_of_rat_amount)

lemma cost_compute_amount: "pricing_ok pricing \<Longrightarrow> cost_compute pricing provider model u = Some c \<Longrightarrow> f64_amount c"
proof -
  assume ok: "pricing_ok pricing" and c: "cost_compute pricing provider model u = Some c"
  then obtain mp where mp: "price_of pricing provider model = Some mp"
    "c = f64_add
      (f64_mul (f64_div (f64_of_nat (unat (prompt_tokens u))) (Fin 1000)) (input_per_1k_tokens_usd mp))
      (f64_mul (f64_div (f64_of_nat (unat (completion_tokens u))) (Fin 1000)) (output_per_1k_tokens_usd mp))"
    by (auto simp: cost_compute_priced)
  have p: "f64_price (input_per_1k_tokens_usd mp)" "f64_price (output_per_1k_tokens_usd mp)"
    using ok mp(1) by (auto simp: pricing_ok_def)
  obtain r where r: "f64_div (f64_of_nat (unat (prompt_tokens u))) (Fin 1000) = Fin r" "0 \<le> r"
    using f64_tokens_thousands by blast
  obtain s where s: "f64_div (f64_of_nat (unat (completion_tokens u))) (Fin 1000) = Fin s" "0 \<le> s"
    using f64_tokens_thousands by blast
  show ?thesis unfolding mp(2) r(1) s(1) using p r(2) s(2) by (intro f64_add_amount f64_mul_price)
qed

end
