(* ===== verification/Cache.thy ===== *)
theory Cache
  imports Provider
begin

text \<open>
  The response cache (\<open>cache.rs\<close>): its entries, the derivation of the key, and the eviction
  weight. The cache structure itself is the crate \<open>moka\<close>, a parameter.
\<close>

record cached_response =
  cr_status :: u16
  cr_content_type :: "string option"
  cr_body :: bytes
  cr_provider :: string
  cr_model :: string
  cr_usage :: "usage option"

text \<open>The operations of \<open>moka::future::Cache\<close>; a lookup may change its state (recency, expiry).\<close>

record 'c moka =
  moka_build :: "nat \<Rightarrow> (cached_response \<Rightarrow> u32) \<Rightarrow> nat \<Rightarrow> 'c"
  moka_get :: "'c \<Rightarrow> string \<Rightarrow> cached_response option \<times> 'c"
  moka_insert :: "'c \<Rightarrow> string \<Rightarrow> cached_response \<Rightarrow> 'c"

text \<open>\<open>u32::try_from(len).unwrap_or(u32::MAX)\<close>.\<close>

definition cache_weight :: "cached_response \<Rightarrow> u32" where
  "cache_weight v = (if length (cr_body v) < 2 ^ 32 then of_nat (length (cr_body v)) else - 1)"

definition cache_new :: "'c moka \<Rightarrow> u64 \<Rightarrow> nat \<Rightarrow> 'c" where
  "cache_new M max_size_bytes ttl = moka_build M (unat max_size_bytes) cache_weight ttl"

definition cache_key :: "crypto \<Rightarrow> string \<Rightarrow> string \<Rightarrow> bytes \<Rightarrow> string" where
  "cache_key C scope model body =
     hex_encode C (sha256 C (scope @ [NUL] @ model @ [NUL] @ body))"

definition cache_get :: "'c moka \<Rightarrow> 'c \<Rightarrow> string \<Rightarrow> cached_response option \<times> 'c" where
  "cache_get M c key = moka_get M c key"

definition cache_insert :: "'c moka \<Rightarrow> 'c \<Rightarrow> string \<Rightarrow> cached_response \<Rightarrow> 'c" where
  "cache_insert M c key v = moka_insert M c key v"

text \<open>
  What the crate documents: a lookup returns a value only if it is held under that key, and a
  value is held only if it was inserted under that key. \<open>held\<close> is what a cache state may hold.
\<close>

definition moka_law :: "'c moka \<Rightarrow> ('c \<Rightarrow> (string \<times> cached_response) set) \<Rightarrow> bool" where
  "moka_law M held =
     (\<forall>c k v. (\<forall>n f t. held (moka_build M n f t) = {}) \<and>
        (fst (moka_get M c k) = Some v \<longrightarrow> (k, v) \<in> held c) \<and>
        held (snd (moka_get M c k)) \<subseteq> held c \<and>
        held (moka_insert M c k v) \<subseteq> insert (k, v) {(k', v') \<in> held c. k' \<noteq> k})"

lemma moka_lawD:
  assumes "moka_law M held"
  shows "held (moka_build M n f t) = {}"
    and "fst (moka_get M c k) = Some v \<Longrightarrow> (k, v) \<in> held c"
    and "held (snd (moka_get M c k)) \<subseteq> held c"
    and "held (moka_insert M c k v) \<subseteq> insert (k, v) {(k', v') \<in> held c. k' \<noteq> k}"
  using assms unfolding moka_law_def by blast+

text \<open>Collision freedom of the digest on the inputs at hand, the assumption every hash key rests on.\<close>

definition collision_free :: "crypto \<Rightarrow> bytes set \<Rightarrow> bool" where
  "collision_free C S = inj_on (\<lambda>x. hex_encode C (sha256 C x)) S"

text \<open>What is digested: the tenant's scope up to the first NUL byte, then model and body.\<close>

definition cache_material :: "string \<Rightarrow> string \<Rightarrow> bytes \<Rightarrow> bytes" where
  "cache_material scope model body = scope @ [NUL] @ model @ [NUL] @ body"

lemma cache_key_material: "cache_key C scope model body = hex_encode C (sha256 C (cache_material scope model body))"
  by (simp add: cache_key_def cache_material_def)

lemma split_at_NUL:
  "NUL \<notin> set a \<Longrightarrow> NUL \<notin> set b \<Longrightarrow> a @ NUL # x = b @ NUL # y \<Longrightarrow> a = b \<and> x = y"
proof (induction a arbitrary: b)
  case Nil
  then show ?case by (cases b) auto
next
  case (Cons c a)
  then show ?case by (cases b) auto
qed

lemma cache_material_scope:
  "cache_material s m b = cache_material s' m' b' \<Longrightarrow> NUL \<notin> set s \<Longrightarrow> NUL \<notin> set s' \<Longrightarrow> s = s'"
  using split_at_NUL [of s s' "m @ NUL # b" "m' @ NUL # b'"] by (simp add: cache_material_def)

lemma cache_key_scope:
  assumes "collision_free C S" "cache_material s m b \<in> S" "cache_material s' m' b' \<in> S"
    and "NUL \<notin> set s" "NUL \<notin> set s'" "cache_key C s m b = cache_key C s' m' b'"
  shows "s = s'"
  using assms inj_onD [of "\<lambda>x. hex_encode C (sha256 C x)" S "cache_material s m b" "cache_material s' m' b'"]
  by (auto simp: collision_free_def cache_key_material dest: cache_material_scope)

end
