(* ===== verification/StreamObserver.thy ===== *)
theory StreamObserver
  imports Cost AuditLog Sse
begin

text \<open>
  The usage observer on streamed responses (\<open>stream_observer.rs\<close>): it forwards every item
  unchanged and charges the first usage record it reads in the stream.
\<close>

record usage_observer =
  ob_parser :: sse_parser
  ob_pricing :: pricing
  ob_key_id :: string
  ob_spend_limit :: "spend_limit option"
  ob_provider :: string
  ob_model :: string
  ob_found_usage :: bool

definition observer_new ::
  "pricing \<Rightarrow> string \<Rightarrow> spend_limit option \<Rightarrow> string \<Rightarrow> string \<Rightarrow> usage_observer" where
  "observer_new pricing key_id limit provider model =
     \<lparr>ob_parser = sse_new, ob_pricing = pricing, ob_key_id = key_id, ob_spend_limit = limit,
      ob_provider = provider, ob_model = model, ob_found_usage = False\<rparr>"

definition parse_chunk_usage :: "serde_json \<Rightarrow> string \<Rightarrow> usage option" where
  "parse_chunk_usage J data =
     (if str_trim data = ''[DONE]'' then None
      else
        Option.bind (result_ok (from_slice J data)) (\<lambda>v.
        Option.bind (json_get v ''usage'') (\<lambda>u.
        Option.bind (Option.bind (json_get u ''prompt_tokens'') json_as_u64) (\<lambda>p.
        Option.bind (Option.bind (json_get u ''completion_tokens'') json_as_u64) (\<lambda>c.
        Some \<lparr>prompt_tokens = as_u32 p, completion_tokens = as_u32 c\<rparr>)))))"

definition usage_spans :: "usage \<Rightarrow> span_record list" where
  "usage_spans u =
     [(''gen_ai.usage.input_tokens'', SpanNat (unat (prompt_tokens u))),
      (''gen_ai.usage.output_tokens'', SpanNat (unat (completion_tokens u)))]"

text \<open>The body of the loop for an event that carries usage, at clock reading \<open>now\<close>.\<close>

definition observer_charge ::
  "usage_observer \<Rightarrow> spend_tracker \<Rightarrow> utc \<Rightarrow> usage \<Rightarrow> spend_tracker \<times> span_record list" where
  "observer_charge ob st now u =
     (case cost_compute (ob_pricing ob) (ob_provider ob) (ob_model ob) u of
        None \<Rightarrow> (st, usage_spans u)
      | Some c \<Rightarrow>
          ((case ob_spend_limit ob of
              Some limit \<Rightarrow> spend_record st (ob_key_id ob) (sl_period limit) c now
            | None \<Rightarrow> st),
           usage_spans u @ [(''vaultplane.cost_usd'', SpanF64 c)]))"

function observer_loop ::
  "serde_json \<Rightarrow> utc \<Rightarrow> usage_observer \<Rightarrow> spend_tracker \<Rightarrow> usage_observer \<times> spend_tracker \<times> span_record list" where
  "observer_loop J now ob st =
     (case sse_next_event (ob_parser ob) of
        (p, None) \<Rightarrow> (ob\<lparr>ob_parser := p\<rparr>, st, [])
      | (p, Some ev) \<Rightarrow>
          (case parse_chunk_usage J (ev_data ev) of
             Some u \<Rightarrow>
               (case observer_charge ob st now u of
                  (st', spans) \<Rightarrow> (ob\<lparr>ob_parser := p, ob_found_usage := True\<rparr>, st', spans))
           | None \<Rightarrow> observer_loop J now (ob\<lparr>ob_parser := p\<rparr>) st))"
  by pat_completeness auto
termination
  by (relation "measure (\<lambda>(J, now, ob, st). length (sse_buffer (ob_parser ob)))")
    (auto dest!: sym [of _ "sse_next_event _"] sse_next_event_shrinks)

declare observer_loop.simps [simp del]

text \<open>One poll that the inner stream answers with \<open>item\<close>; the item is returned as it came.\<close>

definition observer_poll ::
  "serde_json \<Rightarrow> utc \<Rightarrow> usage_observer \<Rightarrow> spend_tracker \<Rightarrow> (string + bytes) \<Rightarrow>
     usage_observer \<times> spend_tracker \<times> span_record list \<times> (string + bytes)" where
  "observer_poll J now ob st item =
     (case item of
        Inr chunk \<Rightarrow>
          if \<not> ob_found_usage ob
          then (case observer_loop J now (ob\<lparr>ob_parser := sse_feed (ob_parser ob) chunk\<rparr>) st of
                  (ob', st', spans) \<Rightarrow> (ob', st', spans, item))
          else (ob, st, [], item)
      | Inl e \<Rightarrow> (ob, st, [], item))"

fun observer_run ::
  "serde_json \<Rightarrow> usage_observer \<Rightarrow> spend_tracker \<Rightarrow> (utc \<times> (string + bytes)) list \<Rightarrow>
     usage_observer \<times> spend_tracker \<times> span_record list \<times> body_stream" where
  "observer_run J ob st [] = (ob, st, [], [])"
| "observer_run J ob st ((now, item) # items) =
     (case observer_poll J now ob st item of
        (ob', st', spans, out) \<Rightarrow>
          (case observer_run J ob' st' items of
             (ob'', st'', spans', outs) \<Rightarrow> (ob'', st'', spans @ spans', out # outs)))"

section \<open>What the observer does\<close>

fun first_usage :: "serde_json \<Rightarrow> sse_event list \<Rightarrow> usage option" where
  "first_usage J [] = None"
| "first_usage J (ev # evs) =
     (case parse_chunk_usage J (ev_data ev) of Some u \<Rightarrow> Some u | None \<Rightarrow> first_usage J evs)"

definition ok_chunks :: "(utc \<times> (string + bytes)) list \<Rightarrow> bytes list" where
  "ok_chunks items = List.map_filter (\<lambda>(now, item). result_ok item) items"

lemma ok_chunks_simps [simp]:
  "ok_chunks [] = []"
  "ok_chunks ((now, Inr c) # items) = c # ok_chunks items"
  "ok_chunks ((now, Inl e) # items) = ok_chunks items"
  by (simp_all add: ok_chunks_def List.map_filter_simps)

lemma first_usage_append:
  "first_usage J (xs @ ys) = (case first_usage J xs of Some u \<Rightarrow> Some u | None \<Rightarrow> first_usage J ys)"
  by (induction xs) (auto split: option.split)

lemma observer_charge_parser [simp]:
  "observer_charge (ob\<lparr>ob_parser := p\<rparr>) st now u = observer_charge ob st now u"
  by (simp add: observer_charge_def split: option.split)

lemma observer_loop_None:
  "first_usage J (snd (sse_drain (ob_parser ob))) = None \<Longrightarrow>
     observer_loop J now ob st = (ob\<lparr>ob_parser := fst (sse_drain (ob_parser ob))\<rparr>, st, [])"
proof (induction J now ob st rule: observer_loop.induct)
  case (1 J now ob st)
  show ?case
  proof (cases "sse_next_event (ob_parser ob)")
    case (Pair p r)
    show ?thesis
    proof (cases r)
      case None
      with Pair show ?thesis
        by (simp add: observer_loop.simps [of J now ob] sse_drain_None)
    next
      case (Some ev)
      have dr: "sse_drain (ob_parser ob) = (fst (sse_drain p), ev # snd (sse_drain p))"
        using Pair Some by (intro sse_drain_Some) simp
      then have none: "parse_chunk_usage J (ev_data ev) = None" "first_usage J (snd (sse_drain p)) = None"
        using 1(2) by (auto split: option.splits)
      from 1(1) [OF Pair [symmetric] Some none(1)] none dr Pair Some show ?thesis
        by (simp add: observer_loop.simps [of J now ob] split_def)
    qed
  qed
qed

lemma observer_loop_Some:
  "first_usage J (snd (sse_drain (ob_parser ob))) = Some u \<Longrightarrow>
     \<exists>p. observer_loop J now ob st =
       (ob\<lparr>ob_parser := p, ob_found_usage := True\<rparr>, observer_charge ob st now u)"
proof (induction J now ob st rule: observer_loop.induct)
  case (1 J now ob st)
  show ?case
  proof (cases "sse_next_event (ob_parser ob)")
    case (Pair p r)
    show ?thesis
    proof (cases r)
      case None
      then have "sse_drain (ob_parser ob) = (p, [])" using Pair by (simp add: sse_drain_None)
      with 1(2) show ?thesis by simp
    next
      case (Some ev)
      have dr: "sse_drain (ob_parser ob) = (fst (sse_drain p), ev # snd (sse_drain p))"
        using Pair Some by (intro sse_drain_Some) simp
      show ?thesis
      proof (cases "parse_chunk_usage J (ev_data ev)")
        case none: None
        then have "first_usage J (snd (sse_drain p)) = Some u" using 1(2) dr by simp
        with 1(1) [OF Pair [symmetric] Some none] Pair Some none show ?thesis
          by (simp add: observer_loop.simps [of J now ob])
      next
        case (Some u')
        moreover from this have "u' = u" using 1(2) dr by simp
        ultimately show ?thesis using Pair \<open>r = Some ev\<close>
          by (auto simp: observer_loop.simps [of J now ob] split_def)
      qed
    qed
  qed
qed

lemma observer_run_found:
  "ob_found_usage ob \<Longrightarrow> observer_run J ob st items = (ob, st, [], map snd items)"
  by (induction items) (auto simp: observer_poll_def split: sum.split)

text \<open>The outcome of a run: nothing charged, or one charge at the instant of some poll.\<close>

definition observed ::
  "usage_observer \<Rightarrow> spend_tracker \<Rightarrow> utc set \<Rightarrow> body_stream \<Rightarrow> usage option \<Rightarrow>
     usage_observer \<times> spend_tracker \<times> span_record list \<times> body_stream \<Rightarrow> bool" where
  "observed ob st nows outs fu r =
     (case fu of
        None \<Rightarrow> \<exists>ob'. \<not> ob_found_usage ob' \<and> r = (ob', st, [], outs)
      | Some u \<Rightarrow> \<exists>ob' now. now \<in> nows \<and> ob_found_usage ob' \<and>
          r = (ob', fst (observer_charge ob st now u), snd (observer_charge ob st now u), outs))"

lemma observed_Cons:
  assumes "observed ob st nows outs fu r" "nows \<subseteq> nows'"
  shows "observed ob st nows' (item # outs) fu
    (case r of (ob', st', spans, outs) \<Rightarrow> (ob', st', spans, item # outs))"
proof (cases fu)
  case None
  with assms show ?thesis by (auto simp: observed_def)
next
  case (Some u)
  with assms obtain ob' now where "now \<in> nows'" "ob_found_usage ob'"
    "r = (ob', fst (observer_charge ob st now u), snd (observer_charge ob st now u), outs)"
    by (auto simp: observed_def)
  with Some show ?thesis unfolding observed_def by auto
qed

lemma observed_parser [simp]:
  "observed (ob\<lparr>ob_parser := p\<rparr>) st nows outs fu r = observed ob st nows outs fu r"
  by (simp add: observed_def split: option.split)

lemma observer_run_spec:
  assumes "\<not> ob_found_usage ob"
  shows "observed ob st (fst ` set items) (map snd items)
    (first_usage J (snd (sse_run (ob_parser ob) (ok_chunks items)))) (observer_run J ob st items)"
  using assms
proof (induction items arbitrary: ob)
  case Nil
  then show ?case by (simp add: observed_def)
next
  case (Cons x items)
  obtain now item where x: "x = (now, item)" by (cases x)
  have sub: "fst ` set items \<subseteq> fst ` set (x # items)" by auto
  show ?case
  proof (cases item)
    case (Inl e)
    then show ?thesis
      using observed_Cons [OF Cons.IH [OF Cons.prems] sub, of item] by (simp add: x observer_poll_def)
  next
    case (Inr c)
    define p where "p = sse_feed (ob_parser ob) c"
    let ?ob = "ob\<lparr>ob_parser := fst (sse_drain p)\<rparr>"
    show ?thesis
    proof (cases "first_usage J (snd (sse_drain p))")
      case None
      then have "observer_loop J now (ob\<lparr>ob_parser := p\<rparr>) st = (?ob, st, [])"
        using observer_loop_None [of J "ob\<lparr>ob_parser := p\<rparr>"] by simp
      with Cons.prems have run: "observer_run J ob st (x # items) =
          (case observer_run J ?ob st items of (ob', st', spans, outs) \<Rightarrow> (ob', st', spans, item # outs))"
        by (simp add: x Inr observer_poll_def p_def)
      have evs: "first_usage J (snd (sse_run (ob_parser ob) (ok_chunks (x # items)))) =
          first_usage J (snd (sse_run (ob_parser ?ob) (ok_chunks items)))"
        using None by (simp add: x Inr p_def split_def Let_def first_usage_append)
      have "\<not> ob_found_usage ?ob" using Cons.prems by simp
      from observed_Cons [OF Cons.IH [OF this] sub, of item] show ?thesis
        unfolding evs run by (simp add: x)
    next
      case (Some u)
      then obtain q where "observer_loop J now (ob\<lparr>ob_parser := p\<rparr>) st =
          (ob\<lparr>ob_parser := q, ob_found_usage := True\<rparr>, observer_charge ob st now u)"
        using observer_loop_Some [of J "ob\<lparr>ob_parser := p\<rparr>" u now st] by auto
      then have "observer_run J ob st (x # items) =
          (ob\<lparr>ob_parser := q, ob_found_usage := True\<rparr>, fst (observer_charge ob st now u),
           snd (observer_charge ob st now u), map snd (x # items))"
        using Cons.prems by (simp add: x Inr observer_poll_def p_def observer_run_found split_def)
      moreover have "first_usage J (snd (sse_run (ob_parser ob) (ok_chunks (x # items)))) = Some u"
        using Some by (simp add: x Inr p_def split_def Let_def first_usage_append)
      ultimately show ?thesis by (auto simp: x observed_def)
    qed
  qed
qed

text \<open>
  C27. Streamed usage is charged once: for a stream the upstream delivers in any chunks, the client
  gets every item unchanged, and the ledger and the span receive exactly the charge of the first
  event that carries usage, or nothing when no event does.
\<close>

theorem observer_charges_first_usage:
  assumes "list_all sse_event_ok evs"
    and "concat (ok_chunks items) = concat (map sse_encode evs)"
  shows "case first_usage J evs of
      None \<Rightarrow> \<exists>ob'. observer_run J (observer_new pricing key_id limit provider model) st items =
        (ob', st, [], map snd items)
    | Some u \<Rightarrow> \<exists>ob' now. now \<in> fst ` set items \<and>
        observer_run J (observer_new pricing key_id limit provider model) st items =
          (let (st', spans) = observer_charge (observer_new pricing key_id limit provider model) st now u
           in (ob', st', spans, map snd items))"
proof -
  let ?ob = "observer_new pricing key_id limit provider model"
  have "snd (sse_run (ob_parser ?ob) (ok_chunks items)) = evs"
    using sse_run_encoded [OF assms] by (simp add: observer_new_def)
  moreover have "\<not> ob_found_usage ?ob" by (simp add: observer_new_def)
  ultimately have "observed ?ob st (fst ` set items) (map snd items) (first_usage J evs)
      (observer_run J ?ob st items)"
    using observer_run_spec [of ?ob st items J] by simp
  then show ?thesis unfolding observed_def split_def Let_def
    by (cases "first_usage J evs") (simp_all, blast+)
qed

definition usage_serde :: serde_json where
  "usage_serde =
     \<lparr>from_slice = (\<lambda>b. if b = ''{u}'' then Inr (json_object [(''usage'', json_object
          [(''prompt_tokens'', json_nat 1000), (''completion_tokens'', json_nat 2000)])]) else Inl ''unsupported''),
      to_vec = (\<lambda>v. Inr ''{u}''), display = (\<lambda>v. ''{u}'')\<rparr>"

theorem observer_charges_first_usage_witness:
  "\<exists>ob' now. now = \<lparr>utc_instant = 0, unix_timestamp = 0, utc_year = 1970, utc_month = 1, utc_iso_week = 1\<rparr> \<and>
     observer_run usage_serde (observer_new pricing_default ''k'' None ''openai'' ''m'') []
       [(now, Inr ''data: {''), (now, Inr (''u}'' @ [NL, NL]))] =
     (ob', [], usage_spans \<lparr>prompt_tokens = 1000, completion_tokens = 2000\<rparr>,
      [Inr ''data: {'', Inr (''u}'' @ [NL, NL])])"
proof -
  define now where "now = \<lparr>utc_instant = 0, unix_timestamp = 0, utc_year = 1970, utc_month = 1, utc_iso_week = 1\<rparr>"
  let ?ev = "\<lparr>ev_event = None, ev_data = ''{u}''\<rparr>"
  let ?items = "[(now, Inr ''data: {''), (now, Inr (''u}'' @ [NL, NL]))]"
  have ok: "list_all sse_event_ok [?ev]" by (simp add: sse_data_ok byte_in_def)
  have enc: "concat (ok_chunks ?items) = concat (map sse_encode [?ev])"
    by (simp add: sse_encode_def sse_data_line_def)
  have "str_trim ''{u}'' \<noteq> ''[DONE]''" by (subst str_trim_visible) (simp_all add: byte_in_def)
  then have u: "first_usage usage_serde [?ev] = Some \<lparr>prompt_tokens = 1000, completion_tokens = 2000\<rparr>"
    by (simp add: parse_chunk_usage_def usage_serde_def as_u32_def)
  from observer_charges_first_usage [OF ok enc, of usage_serde pricing_default "''k''" None "''openai''" "''m''" "[]"]
  show ?thesis unfolding u
    by (auto simp: observer_charge_def cost_compute_def observer_new_def pricing_default_def now_def)
qed

end
