(* ===== verification/Anthropic_Billing.thy ===== *)
theory Anthropic_Billing
  imports Anthropic StreamObserver
begin

text \<open>
  The Anthropic stream adapter followed by the usage observer, as the proxy composes them: what
  the adapter emits for a message is what the observer charges.
\<close>

section \<open>What the adapter emits\<close>

definition transform_values :: "serde_json \<Rightarrow> anthropic_transform \<Rightarrow> sse_event \<Rightarrow> json list" where
  "transform_values J t ev =
     (case from_slice J (ev_data ev) of
        Inl _ \<Rightarrow> []
      | Inr data \<Rightarrow>
          let kind = unwrap_or (ev_event ev) []; t' = fst (transform_process J t ev)
          in if kind = ''message_start'' then [chunk_json t' (json_object [(''role'', JString ''assistant'')]) None]
             else if kind = ''content_block_delta'' then
               (if Option.bind (json_path2 data ''delta'' ''type'') json_as_str = Some ''text_delta''
                then (case Option.bind (json_path2 data ''delta'' ''text'') json_as_str of
                        Some text \<Rightarrow> [chunk_json t' (json_object [(''content'', JString text)]) None]
                      | None \<Rightarrow> [])
                else [])
             else if kind = ''message_delta'' then
               [chunk_json t' (json_object []) (map_option map_finish_reason
                  (Option.bind (json_path2 data ''delta'' ''stop_reason'') json_as_str)),
                usage_chunk_json t']
             else [])"

fun emitted_values :: "serde_json \<Rightarrow> anthropic_transform \<Rightarrow> sse_event list \<Rightarrow> json list" where
  "emitted_values J t [] = []"
| "emitted_values J t (ev # evs) = transform_values J t ev @ emitted_values J (fst (transform_process J t ev)) evs"

lemma transform_process_values:
  "snd (transform_process J t ev) = map (\<lambda>v. sse_data_line (display J v)) (transform_values J t ev)"
  by (simp add: transform_process_def transform_values_def process_message_start_def process_content_delta_def
      process_message_delta_def transform_chunk_def usage_chunk_def Let_def split: sum.split option.split)

lemma process_events_values:
  "snd (process_events J t evs) = map (\<lambda>v. sse_data_line (display J v)) (emitted_values J t evs)"
  by (induction evs arbitrary: t) (simp_all add: Let_def split_def transform_process_values)

lemma emitted_values_append:
  "emitted_values J t (xs @ ys) = emitted_values J t xs @ emitted_values J (fst (process_events J t xs)) ys"
  by (induction xs arbitrary: t) (simp_all add: Let_def split_def)

section \<open>What the observer reads\<close>

text \<open>A value whose rendering survives the stream: it parses back, fits on a line, is no end marker.\<close>

definition stream_value_ok :: "serde_json \<Rightarrow> json \<Rightarrow> bool" where
  "stream_value_ok J v \<longleftrightarrow>
     display_roundtrip J v \<and> utf8_valid (display J v) \<and> str_trim (display J v) \<noteq> ''[DONE]''"

definition value_event :: "serde_json \<Rightarrow> json \<Rightarrow> sse_event" where
  "value_event J v = \<lparr>ev_event = None, ev_data = display J v\<rparr>"

definition done_event :: sse_event where
  "done_event = \<lparr>ev_event = None, ev_data = ''[DONE]''\<rparr>"

lemma done_event_ok: "sse_event_ok done_event" "sse_encode done_event = DONE_MARKER"
  by (simp add: done_event_def sse_data_ok byte_in_def)
    (simp add: done_event_def sse_encode_def sse_data_line_def DONE_MARKER_def)

lemma done_event_usage: "parse_chunk_usage J (ev_data done_event) = None"
proof -
  have "str_trim (ev_data done_event) = ''[DONE]''"
    by (subst str_trim_visible) (simp_all add: done_event_def byte_in_def)
  then show ?thesis by (simp add: parse_chunk_usage_def)
qed

definition value_usage :: "json \<Rightarrow> usage option" where
  "value_usage v =
     Option.bind (json_get v ''usage'') (\<lambda>u.
     Option.bind (Option.bind (json_get u ''prompt_tokens'') json_as_u64) (\<lambda>p.
     Option.bind (Option.bind (json_get u ''completion_tokens'') json_as_u64) (\<lambda>c.
     Some \<lparr>prompt_tokens = as_u32 p, completion_tokens = as_u32 c\<rparr>)))"

lemma parse_value_event: "stream_value_ok J v \<Longrightarrow> parse_chunk_usage J (ev_data (value_event J v)) = value_usage v"
  by (simp add: stream_value_ok_def display_roundtrip_def parse_chunk_usage_def value_event_def value_usage_def)

lemma chunk_no_usage [simp]: "value_usage (chunk_json t delta reason) = None"
  by (simp add: value_usage_def chunk_json_def)

lemma usage_chunk_usage [simp]:
  "value_usage (usage_chunk_json t) = Some \<lparr>prompt_tokens = at_input_tokens t, completion_tokens = at_output_tokens t\<rparr>"
  by (simp add: value_usage_def usage_chunk_json_def usage_json_def as_u32_def)

lemma map_filter_append: "List.map_filter f (xs @ ys) = List.map_filter f xs @ List.map_filter f ys"
  by (simp add: List.map_filter_def)

lemma value_event_ok: "stream_value_ok J v \<Longrightarrow> sse_event_ok (value_event J v)"
  by (simp add: value_event_def sse_event_ok_def stream_value_ok_def display_roundtrip_def)

lemma first_usage_values:
  "list_all (stream_value_ok J) vs \<Longrightarrow>
     first_usage J (map (value_event J) vs @ rest) =
     (case List.map_filter value_usage vs of u # _ \<Rightarrow> Some u | [] \<Rightarrow> first_usage J rest)"
  by (induction vs) (simp_all add: parse_value_event List.map_filter_simps split: option.split)

definition is_message_delta :: "serde_json \<Rightarrow> sse_event \<Rightarrow> bool" where
  "is_message_delta J ev \<longleftrightarrow> ev_event ev = Some ''message_delta'' \<and> (\<exists>d. from_slice J (ev_data ev) = Inr d)"

lemma transform_values_usage:
  "List.map_filter value_usage (transform_values J t ev) =
     (if is_message_delta J ev
      then [\<lparr>prompt_tokens = at_input_tokens (fst (transform_process J t ev)),
             completion_tokens = at_output_tokens (fst (transform_process J t ev))\<rparr>]
      else [])"
  by (auto simp: transform_values_def is_message_delta_def List.map_filter_simps Let_def unwrap_or_def
      split: sum.split option.splits)

lemma emitted_values_usage:
  "\<forall>ev \<in> set evs. \<not> is_message_delta J ev \<Longrightarrow> List.map_filter value_usage (emitted_values J t evs) = []"
  by (induction evs arbitrary: t) (simp_all add: map_filter_append transform_values_usage)

lemma adapter_output_events:
  assumes "list_all sse_event_ok evs" "concat chunks = concat (map sse_encode evs)"
    and "list_all (stream_value_ok J) (emitted_values J t evs)"
  shows "list_all sse_event_ok (map (value_event J) (emitted_values J t evs) @ [done_event])"
    and "adapter_stream J (adapter_new (map Inr chunks) t) =
      map Inr (map sse_encode (map (value_event J) (emitted_values J t evs) @ [done_event]))"
proof -
  show "list_all sse_event_ok (map (value_event J) (emitted_values J t evs) @ [done_event])"
    using assms(3) by (auto simp: list_all_iff done_event_ok value_event_ok)
  have "sse_run sse_new chunks = (sse_new, evs)" using assms(1,2) by (rule sse_run_encoded)
  then show "adapter_stream J (adapter_new (map Inr chunks) t) =
      map Inr (map sse_encode (map (value_event J) (emitted_values J t evs) @ [done_event]))"
    by (simp add: adapter_stream_new translated_chunks process_events_values done_event_ok)
      (simp add: value_event_def sse_encode_def)
qed

section \<open>Properties\<close>

text \<open>
  C16. A streamed Anthropic message is billed: whatever way the upstream cuts the stream, the client gets
  the translated stream unchanged and the key is charged exactly once, for the input tokens known and
  the output tokens reported by the first message delta.
\<close>

theorem anthropic_stream_billed:
  assumes "list_all sse_event_ok (pre @ delta # post)"
    and "concat chunks = concat (map sse_encode (pre @ delta # post))"
    and "\<forall>ev \<in> set pre. \<not> is_message_delta J ev" and "is_message_delta J delta"
    and "list_all (stream_value_ok J) (emitted_values J t (pre @ delta # post))"
    and "map snd items = adapter_stream J (adapter_new (map Inr chunks) t)"
  shows "\<exists>ob' now. now \<in> fst ` set items \<and>
     observer_run J (observer_new pricing key_id limit provider model) st items =
       (let t' = fst (process_events J t (pre @ [delta]));
            (st', spans) = observer_charge (observer_new pricing key_id limit provider model) st now
              \<lparr>prompt_tokens = at_input_tokens t', completion_tokens = at_output_tokens t'\<rparr>
        in (ob', st', spans, map snd items))"
proof -
  let ?ob = "observer_new pricing key_id limit provider model"
  let ?vs = "emitted_values J t (pre @ delta # post)"
  let ?evs = "map (value_event J) ?vs @ [done_event]"
  let ?t = "fst (process_events J t (pre @ [delta]))"
  let ?u = "\<lparr>prompt_tokens = at_input_tokens ?t, completion_tokens = at_output_tokens ?t\<rparr>"
  note out = adapter_output_events [OF assms(1,2,5)]
  have chunks: "ok_chunks items = map sse_encode ?evs"
  proof -
    have "ok_chunks items = List.map_filter result_ok (map snd items)"
      by (simp add: ok_chunks_def List.map_filter_def filter_map comp_def split_def)
    also have "map snd items = map Inr (map sse_encode ?evs)" using assms(6) out(2) by simp
    also have "List.map_filter result_ok (map Inr xs) = xs" for xs :: "bytes list"
      by (induction xs) (simp_all add: List.map_filter_simps)
    finally show ?thesis .
  qed
  have run: "snd (sse_run (ob_parser ?ob) (ok_chunks items)) = ?evs"
    using sse_run_encoded [OF out(1), of "ok_chunks items"] chunks by (simp add: observer_new_def)
  have "\<exists>us. List.map_filter value_usage ?vs = ?u # us"
    using assms(3,4) emitted_values_usage [of pre J t]
    by (simp add: emitted_values_append map_filter_append transform_values_usage process_events_append Let_def split_def)
  then have usage: "first_usage J ?evs = Some ?u"
    using first_usage_values [OF assms(5)] by force
  have "\<not> ob_found_usage ?ob" by (simp add: observer_new_def)
  from observer_run_spec [OF this, of st items J] show ?thesis
    unfolding run usage observed_def by (auto simp: Let_def split_def)
qed

text \<open>
  A codec for the witness that knows three documents: the upstream's delta, and the two chunks
  the adapter makes of it.
\<close>

definition example_delta :: json where
  "example_delta = json_object [(''usage'', json_object [(''output_tokens'', json_nat 7)])]"

definition example_usage_chunk :: json where
  "example_usage_chunk = usage_chunk_json (example_transform\<lparr>at_output_tokens := 7\<rparr>)"

definition example_stop_chunk :: json where
  "example_stop_chunk = chunk_json (example_transform\<lparr>at_output_tokens := 7\<rparr>) (json_object []) None"

definition example_stream_serde :: serde_json where
  "example_stream_serde =
     \<lparr>from_slice = (\<lambda>b. if b = ''d'' then Inr example_delta else if b = ''u'' then Inr example_usage_chunk
                        else if b = ''s'' then Inr example_stop_chunk else Inl ''unsupported''),
      to_vec = (\<lambda>v. Inl ''unsupported''), display = (\<lambda>v. if v = example_usage_chunk then ''u'' else ''s'')\<rparr>"

definition example_delta_event :: sse_event where
  "example_delta_event = \<lparr>ev_event = Some ''message_delta'', ev_data = ''d''\<rparr>"

lemma example_process:
  "transform_process example_stream_serde example_transform example_delta_event =
     (example_transform\<lparr>at_output_tokens := 7\<rparr>,
      [transform_chunk example_stream_serde (example_transform\<lparr>at_output_tokens := 7\<rparr>) (json_object []) None,
       usage_chunk example_stream_serde (example_transform\<lparr>at_output_tokens := 7\<rparr>)])"
  by (simp add: transform_process_def example_delta_event_def example_stream_serde_def unwrap_or_def
      process_message_delta_def json_path2_def example_delta_def as_u32_def Let_def)

lemma example_chunks_differ: "example_stop_chunk \<noteq> example_usage_chunk"
proof
  assume "example_stop_chunk = example_usage_chunk"
  then have "value_usage example_stop_chunk = value_usage example_usage_chunk" by simp
  then show False by (simp add: example_stop_chunk_def example_usage_chunk_def)
qed

lemma example_documents:
  "from_slice example_stream_serde (ev_data example_delta_event) = Inr example_delta"
  "ev_event example_delta_event = Some ''message_delta''"
  "display example_stream_serde example_usage_chunk = ''u''" "display example_stream_serde example_stop_chunk = ''s''"
  "from_slice example_stream_serde ''u'' = Inr example_usage_chunk"
  "from_slice example_stream_serde ''s'' = Inr example_stop_chunk"
  using example_chunks_differ by (simp_all add: example_stream_serde_def example_delta_event_def)

lemma example_values:
  "emitted_values example_stream_serde example_transform ([] @ example_delta_event # []) =
     [example_stop_chunk, example_usage_chunk]"
proof -
  have "json_path2 example_delta ''delta'' ''stop_reason'' = None" by (simp add: json_path2_def example_delta_def)
  then show ?thesis
    by (simp add: transform_values_def example_documents unwrap_or_def example_process Let_def)
      (simp add: example_stop_chunk_def example_usage_chunk_def)
qed

lemma example_values_ok:
  "list_all (stream_value_ok example_stream_serde)
     (emitted_values example_stream_serde example_transform ([] @ example_delta_event # []))"
proof -
  have "utf8_valid ''u''" "utf8_valid ''s''" by (simp_all add: byte_in_def)
  moreover have "str_trim ''u'' = ''u''" "str_trim ''s'' = ''s''"
    by (rule str_trim_visible; simp add: byte_in_def)+
  ultimately show ?thesis
    unfolding example_values by (simp add: stream_value_ok_def display_roundtrip_def example_documents)
qed

theorem anthropic_stream_billed_witness:
  "\<exists>ob' now st' spans. observer_run example_stream_serde
      (observer_new pricing_default ''vp_a'' None ''anthropic'' ''m'') []
      (map (Pair (example_day 1)) (adapter_stream example_stream_serde
         (adapter_new (map Inr [sse_encode example_delta_event]) example_transform))) =
    (ob', st', spans, adapter_stream example_stream_serde
         (adapter_new (map Inr [sse_encode example_delta_event]) example_transform)) \<and>
    (st', spans) = observer_charge (observer_new pricing_default ''vp_a'' None ''anthropic'' ''m'') [] now
      \<lparr>prompt_tokens = 0, completion_tokens = 7\<rparr>"
proof -
  let ?items = "map (Pair (example_day 1)) (adapter_stream example_stream_serde
         (adapter_new (map Inr [sse_encode example_delta_event]) example_transform))"
  have ok: "list_all sse_event_ok ([] @ example_delta_event # [])"
    by (simp add: example_delta_event_def sse_named_ok byte_in_def)
  have delta: "is_message_delta example_stream_serde example_delta_event"
    by (simp add: is_message_delta_def example_documents)
  have enc: "concat [sse_encode example_delta_event] = concat (map sse_encode ([] @ example_delta_event # []))" by simp
  have pre: "\<forall>ev \<in> set []. \<not> is_message_delta example_stream_serde ev" by simp
  have snds: "map snd ?items = adapter_stream example_stream_serde
         (adapter_new (map Inr [sse_encode example_delta_event]) example_transform)"
    by (simp only: map_map comp_def snd_conv map_ident)
  note billed = anthropic_stream_billed [OF ok enc pre delta example_values_ok snds,
      of pricing_default "''vp_a''" None "''anthropic''" "''m''" "[]", unfolded snds]
  have t': "fst (process_events example_stream_serde example_transform ([] @ [example_delta_event])) =
      example_transform\<lparr>at_output_tokens := 7\<rparr>"
    by (simp add: example_process)
  have tokens: "at_input_tokens (example_transform\<lparr>at_output_tokens := 7\<rparr>) = 0"
    "at_output_tokens (example_transform\<lparr>at_output_tokens := 7\<rparr>) = 7"
    by (simp_all add: example_transform_def)
  show ?thesis using billed unfolding t' Let_def tokens split_def by (metis prod.collapse)
qed

end
