(* ===== verification/Plugin.thy ===== *)
theory Plugin
  imports Config Json AuditLog
begin

text \<open>
  Inline plugins (\<open>plugin.rs\<close>, \<open>plugin/wasm.rs\<close>): the decision type, the native PII redaction
  plugin, the WebAssembly host with its circuit breaker, and the chain the proxy runs
  (\<open>run_plugins\<close> of \<open>proxy.rs\<close>). The crates \<open>regex\<close> and \<open>wasmtime\<close> are parameters.
\<close>

section \<open>Decisions\<close>

record plugin_request =
  pq_method :: string
  pq_path :: string
  pq_headers :: "(string \<times> string) list"
  pq_body :: bytes

record reject_info =
  ri_reason :: string
  ri_status_code :: u16

datatype decision = Pass | Modify plugin_request | Reject reject_info

text \<open>A plugin may run guest code, so inspecting threads the world.\<close>

record 'w plugin =
  pl_name :: string
  pl_inspect_request :: "plugin_request \<Rightarrow> 'w \<Rightarrow> decision \<times> 'w"

record 'w plugin_entry =
  pe_plugin :: "'w plugin"
  pe_bind_routes :: "string list"

definition applies_to :: "'w plugin_entry \<Rightarrow> string \<Rightarrow> bool" where
  "applies_to e virtual_model =
     (pe_bind_routes e = [] \<or> list_ex (\<lambda>r. r = virtual_model) (pe_bind_routes e))"

section \<open>PII redaction\<close>

text \<open>A raw string literal of the source, with \<open>!\<close> in place of the backslash.\<close>

definition raw_regex :: "string \<Rightarrow> string" where
  "raw_regex s = map (\<lambda>c. if c = CHR ''!'' then CHR 0x5C else c) s"

fun pii_regex :: "pii_pattern \<Rightarrow> string" where
  "pii_regex Ssn = raw_regex ''!b!d{3}-!d{2}-!d{4}!b''"
| "pii_regex CreditCard = raw_regex ''!b!d{4}[- ]?!d{4}[- ]?!d{4}[- ]?!d{4}!b''"
| "pii_regex PhoneUs = raw_regex ''!b!d{3}[-.]!d{3}[-.]!d{4}!b''"
| "pii_regex Email = raw_regex ''!b[A-Za-z0-9._%+-]+@[A-Za-z0-9.-]+!.[A-Za-z]{2,}!b''"

text \<open>\<open>Regex::new\<close> and \<open>replace_all\<close>: text, replacement, result.\<close>

record 'r regex_crate =
  regex_new :: "string \<Rightarrow> 'r option"
  replace_all :: "'r \<Rightarrow> string \<Rightarrow> string \<Rightarrow> string"

record 'r pii_plugin =
  pp_patterns :: "'r list"
  pp_replacement :: string

definition pii_new :: "'r regex_crate \<Rightarrow> pii_pattern list \<Rightarrow> string \<Rightarrow> 'r pii_plugin" where
  "pii_new R patterns replacement =
     \<lparr>pp_patterns = List.map_filter (\<lambda>p. regex_new R (pii_regex p)) patterns,
      pp_replacement = replacement\<rparr>"

definition pii_default :: "'r regex_crate \<Rightarrow> 'r pii_plugin" where
  "pii_default R = pii_new R pii_pattern_all ''[REDACTED]''"

definition redact :: "'r regex_crate \<Rightarrow> 'r pii_plugin \<Rightarrow> string \<Rightarrow> string" where
  "redact R p text = fold (\<lambda>pattern result. replace_all R pattern result (pp_replacement p)) (pp_patterns p) text"

text \<open>The loop body for one message: the new message and whether it changed.\<close>

definition redact_message :: "'r regex_crate \<Rightarrow> 'r pii_plugin \<Rightarrow> json \<Rightarrow> json \<times> bool" where
  "redact_message R p message =
     (case message of
        JObject m \<Rightarrow>
          (case map_of m ''content'' of
             Some (JString s) \<Rightarrow>
               let new = redact R p s
               in if new \<noteq> s then (JObject (obj_insert ''content'' (JString new) m), True) else (message, False)
           | _ \<Rightarrow> (message, False))
      | _ \<Rightarrow> (message, False))"

definition redact_body :: "'r regex_crate \<Rightarrow> 'r pii_plugin \<Rightarrow> json \<Rightarrow> json \<times> bool" where
  "redact_body R p doc =
     (case doc of
        JObject m \<Rightarrow>
          (case map_of m ''messages'' of
             Some (JArray messages) \<Rightarrow>
               let rs = map (redact_message R p) messages
               in (JObject (obj_insert ''messages'' (JArray (map fst rs)) m), list_ex snd rs)
           | _ \<Rightarrow> (doc, False))
      | _ \<Rightarrow> (doc, False))"

definition pii_inspect_request ::
  "'r regex_crate \<Rightarrow> serde_json \<Rightarrow> 'r pii_plugin \<Rightarrow> plugin_request \<Rightarrow> decision" where
  "pii_inspect_request R J p request =
     (case from_slice J (pq_body request) of
        Inl _ \<Rightarrow> Pass
      | Inr v \<Rightarrow>
          (case redact_body R p v of (v', modified) \<Rightarrow>
             if \<not> modified then Pass
             else (case to_vec J v' of
                     Inr bs \<Rightarrow> Modify \<lparr>pq_method = pq_method request, pq_path = pq_path request,
                                       pq_headers = pq_headers request, pq_body = bs\<rparr>
                   | Inl _ \<Rightarrow> Pass)))"

definition pii_plugin_impl :: "'r regex_crate \<Rightarrow> serde_json \<Rightarrow> 'r pii_plugin \<Rightarrow> 'w plugin" where
  "pii_plugin_impl R J p =
     \<lparr>pl_name = ''pii-redaction'', pl_inspect_request = (\<lambda>rq w. (pii_inspect_request R J p rq, w))\<rparr>"

section \<open>The WebAssembly host\<close>

text \<open>An \<open>anyhow\<close> error is the stack of its messages, the outermost context first.\<close>

type_synonym anyhow = "string list"

fun show_anyhow_chain :: "anyhow \<Rightarrow> string" where
  "show_anyhow_chain [] = []"
| "show_anyhow_chain [m] = m"
| "show_anyhow_chain (m # ms) = m @ '': '' @ show_anyhow_chain ms"

definition with_context :: "string \<Rightarrow> anyhow + 'a \<Rightarrow> anyhow + 'a" where
  "with_context ctx r = (case r of Inl e \<Rightarrow> Inl (ctx # e) | Inr v \<Rightarrow> Inr v)"

text \<open>The hooks of the plugin contract (\<open>vaultplane-plugin-sdk/src/lib.rs\<close>).\<close>

datatype hook = InspectRequest

fun hook_as_str :: "hook \<Rightarrow> string" where
  "hook_as_str InspectRequest = ''inspect-request''"

datatype guest_action = GuestPass | GuestModify plugin_request | GuestReject reject_info

text \<open>
  A pre-instantiated component: instantiation under an epoch deadline (in ticks) and a memory
  limit, and the call of its \<open>inspect-request\<close> export. Both may trap.
\<close>

record 'w wasm_component =
  wc_instantiate :: "nat \<Rightarrow> nat \<Rightarrow> 'w \<Rightarrow> (anyhow + unit) \<times> 'w"
  wc_call_inspect :: "plugin_request \<Rightarrow> 'w \<Rightarrow> (anyhow + guest_action) \<times> 'w"

text \<open>
  The blocking HTTP client of the download thread: building it with a timeout, in milliseconds, and one GET,
  which panics, fails, or yields the status with the outcome of reading the body; the error that
  \<open>error_for_status\<close> makes of a status is the crate's.
\<close>

record blocking_http =
  bh_build :: "nat \<Rightarrow> anyhow + unit"
  bh_get :: "nat \<Rightarrow> string \<Rightarrow> (anyhow + u16 \<times> (anyhow + bytes)) exec"
  bh_status_error :: "u16 \<Rightarrow> string \<Rightarrow> anyhow"

record ('c, 'w) wasmtime =
  wt_http :: blocking_http
  wt_from_binary :: "bytes \<Rightarrow> anyhow + 'c"
  wt_from_file :: "string \<Rightarrow> anyhow + 'c"
  wt_add_wasi :: "anyhow + unit"
  wt_instantiate_pre :: "'c \<Rightarrow> anyhow + 'c"
  wt_plugin_pre :: "'c \<Rightarrow> anyhow + 'w wasm_component"

definition DEFAULT_MEMORY_BYTES :: nat where "DEFAULT_MEMORY_BYTES = 64 * 1024 * 1024"
definition FAIL_CLOSED_STATUS :: u16 where "FAIL_CLOSED_STATUS = 403"

definition is_http_url :: "string \<Rightarrow> bool" where
  "is_http_url source = (starts_with ''http://'' source \<or> starts_with ''https://'' source)"

definition REMOTE_FETCH_TIMEOUT :: nat where "REMOTE_FETCH_TIMEOUT = 30 * 1000"

definition fetch_remote :: "blocking_http \<Rightarrow> string \<Rightarrow> anyhow + bytes" where
  "fetch_remote H url =
     (case bh_build H REMOTE_FETCH_TIMEOUT of
        Inl e \<Rightarrow> Inl e
      | Inr _ \<Rightarrow>
          (case bh_get H REMOTE_FETCH_TIMEOUT url of
             Panic \<Rightarrow> Inl [''wasm plugin download thread panicked'']
           | Ret (Inl e) \<Rightarrow> Inl e
           | Ret (Inr (status, body)) \<Rightarrow>
               if 400 \<le> status \<and> status < 600 then Inl (bh_status_error H status url) else body))"

record 'w wasm_plugin =
  wpl_name :: string
  wpl_pre :: "'w wasm_component"
  wpl_budget_ticks :: nat
  wpl_on_timeout :: fail_mode
  wpl_memory_bytes :: nat

definition quoted :: "string \<Rightarrow> string" where
  "quoted s = [CHR 0x27] @ s @ [CHR 0x27]"

definition wasm_load_component :: "('c, 'w) wasmtime \<Rightarrow> string \<Rightarrow> string \<Rightarrow> anyhow + 'c" where
  "wasm_load_component W name source =
     (if is_http_url source then
        (case with_context (''failed to download wasm plugin '' @ quoted name @ '' from '' @ source)
                (fetch_remote (wt_http W) source) of
           Inl e \<Rightarrow> Inl e
         | Inr bs \<Rightarrow>
             with_context (''wasm plugin '' @ quoted name @ '' downloaded from '' @ source @ '' is invalid'')
               (wt_from_binary W bs))
      else
        let path = unwrap_or (strip_prefix ''file://'' source) source
        in with_context (''failed to load wasm plugin '' @ quoted name @ '' from '' @ path)
             (wt_from_file W path))"

definition wasm_load ::
  "('c, 'w) wasmtime \<Rightarrow> string \<Rightarrow> string \<Rightarrow> u32 \<Rightarrow> fail_mode \<Rightarrow> anyhow + 'w wasm_plugin" where
  "wasm_load W name source latency_budget_ms on_timeout =
     (case wasm_load_component W name source of
        Inl e \<Rightarrow> Inl e
      | Inr component \<Rightarrow>
          (case with_context ''failed to add WASI to the plugin linker'' (wt_add_wasi W) of
             Inl e \<Rightarrow> Inl e
           | Inr _ \<Rightarrow>
               (case with_context (''wasm plugin '' @ quoted name @ '' failed to link'')
                       (wt_instantiate_pre W component) of
                  Inl e \<Rightarrow> Inl e
                | Inr linked \<Rightarrow>
                    (case with_context (''wasm plugin '' @ quoted name @ '' does not implement the inspect contract'')
                            (wt_plugin_pre W linked) of
                       Inl e \<Rightarrow> Inl e
                     | Inr pre \<Rightarrow>
                         Inr \<lparr>wpl_name = name, wpl_pre = pre,
                              wpl_budget_ticks = max (unat latency_budget_ms) 1,
                              wpl_on_timeout = on_timeout,
                              wpl_memory_bytes = DEFAULT_MEMORY_BYTES\<rparr>))))"

definition circuit_break :: "'w wasm_plugin \<Rightarrow> decision" where
  "circuit_break p =
     (case wpl_on_timeout p of
        FailOpen \<Rightarrow> Pass
      | FailClosed \<Rightarrow>
          Reject \<lparr>ri_reason = ''request blocked: plugin '' @ quoted (wpl_name p) @ '' could not evaluate it'',
                  ri_status_code = FAIL_CLOSED_STATUS\<rparr>)"

definition map_action :: "guest_action \<Rightarrow> decision" where
  "map_action a =
     (case a of
        GuestPass \<Rightarrow> Pass
      | GuestModify req \<Rightarrow> Modify req
      | GuestReject info \<Rightarrow> Reject info)"

definition wasm_run :: "'w wasm_plugin \<Rightarrow> plugin_request \<Rightarrow> 'w \<Rightarrow> decision \<times> 'w" where
  "wasm_run p request w =
     (case wc_instantiate (wpl_pre p) (wpl_budget_ticks p) (wpl_memory_bytes p) w of
        (Inl e, w') \<Rightarrow> (circuit_break p, w')
      | (Inr _, w') \<Rightarrow>
          (case wc_call_inspect (wpl_pre p) request w' of
             (Inr action, w'') \<Rightarrow> (map_action action, w'')
           | (Inl e, w'') \<Rightarrow> (circuit_break p, w'')))"

definition wasm_plugin_impl :: "'w wasm_plugin \<Rightarrow> 'w plugin" where
  "wasm_plugin_impl p = \<lparr>pl_name = wpl_name p, pl_inspect_request = wasm_run p\<rparr>"

section \<open>The chain\<close>

record plugin_rejection =
  rej_plugin :: string
  rej_info :: reject_info

fun run_plugins ::
  "'w plugin_entry list \<Rightarrow> string \<Rightarrow> string \<Rightarrow> bytes \<Rightarrow> 'w \<Rightarrow> (plugin_rejection + bytes) \<times> 'w" where
  "run_plugins [] path virtual_model current w = (Inr current, w)"
| "run_plugins (entry # entries) path virtual_model current w =
     (if \<not> applies_to entry virtual_model then run_plugins entries path virtual_model current w
      else
        (case pl_inspect_request (pe_plugin entry)
                \<lparr>pq_method = ''POST'', pq_path = path, pq_headers = [], pq_body = current\<rparr> w of
           (Pass, w') \<Rightarrow> run_plugins entries path virtual_model current w'
         | (Modify updated, w') \<Rightarrow> run_plugins entries path virtual_model (pq_body updated) w'
         | (Reject info, w') \<Rightarrow>
             (Inl \<lparr>rej_plugin = pl_name (pe_plugin entry), rej_info = info\<rparr>, w')))"

section \<open>The reference guest component\<close>

text \<open>
  The PII plugin as a WebAssembly component (\<open>plugins/pii-redaction/src/lib.rs\<close>), which the host
  loads through the interface above.
\<close>

definition guest_patterns :: "'r regex_crate \<Rightarrow> 'r list" where
  "guest_patterns R =
     List.map_filter (regex_new R)
       (map raw_regex
         [''!b!d{3}-!d{2}-!d{4}!b'',
          ''!b!d{4}[- ]?!d{4}[- ]?!d{4}[- ]?!d{4}!b'',
          ''!b!d{3}[-.]!d{3}[-.]!d{4}!b'',
          ''!b[A-Za-z0-9._%+-]+@[A-Za-z0-9.-]+!.[A-Za-z]{2,}!b''])"

definition guest_redact :: "'r regex_crate \<Rightarrow> string \<Rightarrow> string" where
  "guest_redact R text = fold (\<lambda>pattern result. replace_all R pattern result ''[REDACTED]'') (guest_patterns R) text"

definition guest_redact_content :: "'r regex_crate \<Rightarrow> json \<Rightarrow> json \<times> bool" where
  "guest_redact_content R content =
     (case json_as_str content of
        Some text \<Rightarrow>
          let redacted = guest_redact R text
          in if redacted \<noteq> text then (JString redacted, True) else (content, False)
      | None \<Rightarrow> (content, False))"

definition guest_redact_message :: "'r regex_crate \<Rightarrow> json \<Rightarrow> json \<times> bool" where
  "guest_redact_message R message =
     (case message of
        JObject m \<Rightarrow>
          (case map_of m ''content'' of
             Some content \<Rightarrow>
               (case guest_redact_content R content of
                  (content', changed) \<Rightarrow>
                    (if changed then JObject (obj_insert ''content'' content' m) else message, changed))
           | None \<Rightarrow> (message, False))
      | _ \<Rightarrow> (message, False))"

definition guest_inspect_request :: "'r regex_crate \<Rightarrow> serde_json \<Rightarrow> plugin_request \<Rightarrow> guest_action" where
  "guest_inspect_request R J req =
     (case from_slice J (pq_body req) of
        Inl _ \<Rightarrow> GuestPass
      | Inr v \<Rightarrow>
          (case (case v of JObject m \<Rightarrow> Option.bind (map_of m ''messages'') json_as_array | _ \<Rightarrow> None) of
             None \<Rightarrow> GuestPass
           | Some messages \<Rightarrow>
               let rs = map (guest_redact_message R) messages
               in if \<not> list_ex snd rs then GuestPass
                  else
                    (case to_vec J (case v of
                              JObject m \<Rightarrow> JObject (obj_insert ''messages'' (JArray (map fst rs)) m)
                            | _ \<Rightarrow> v) of
                       Inr body \<Rightarrow> GuestModify \<lparr>pq_method = pq_method req, pq_path = pq_path req,
                                                pq_headers = pq_headers req, pq_body = body\<rparr>
                     | Inl _ \<Rightarrow> GuestPass)))"

lemma map_filter_map: "List.map_filter f (map g xs) = List.map_filter (\<lambda>x. f (g x)) xs"
  by (simp add: List.map_filter_def filter_map o_def)

lemma guest_patterns_default: "guest_patterns R = pp_patterns (pii_default R)"
proof -
  have "guest_patterns R = List.map_filter (regex_new R) (map pii_regex pii_pattern_all)"
    by (simp add: guest_patterns_def pii_pattern_all_def)
  then show ?thesis by (simp add: pii_default_def pii_new_def map_filter_map)
qed

lemma guest_redact_default: "guest_redact R = redact R (pii_default R)"
  by (rule ext) (simp add: guest_redact_def redact_def guest_patterns_default, simp add: pii_default_def pii_new_def)

lemma guest_redact_message_default: "guest_redact_message R m = redact_message R (pii_default R) m"
proof (cases m)
  case (JObject fields)
  then show ?thesis
    by (cases "map_of fields ''content''")
      (auto simp: guest_redact_message_def redact_message_def guest_redact_content_def
        guest_redact_default Let_def split: json.split)
qed (simp_all add: guest_redact_message_def redact_message_def)

section \<open>The chain, composed\<close>

lemma run_plugins_append:
  "run_plugins (xs @ ys) path vm body w =
     (case run_plugins xs path vm body w of
        (Inl rej, w') \<Rightarrow> (Inl rej, w')
      | (Inr body', w') \<Rightarrow> run_plugins ys path vm body' w')"
  by (induction xs arbitrary: body w) (auto split: decision.split prod.split)

lemma run_plugins_filter:
  "run_plugins entries path vm body w = run_plugins (filter (\<lambda>e. applies_to e vm) entries) path vm body w"
  by (induction entries arbitrary: body w) (auto split: decision.split prod.split)

section \<open>Properties\<close>

text \<open>
  The chain is the bound plugins in order: plugins not bound to the model have no effect
  at all, a plugin sees the body its predecessors left, and once one rejects, none of the later
  ones runs.
\<close>

theorem run_plugins_chain:
  "run_plugins (xs @ e # ys) path vm body w =
     (case run_plugins (filter (\<lambda>x. applies_to x vm) xs) path vm body w of
        (Inl rej, w') \<Rightarrow> (Inl rej, w')
      | (Inr body', w') \<Rightarrow>
          if \<not> applies_to e vm then run_plugins ys path vm body' w'
          else
            (case pl_inspect_request (pe_plugin e)
                    \<lparr>pq_method = ''POST'', pq_path = path, pq_headers = [], pq_body = body'\<rparr> w' of
               (Pass, w'') \<Rightarrow> run_plugins ys path vm body' w''
             | (Modify updated, w'') \<Rightarrow> run_plugins ys path vm (pq_body updated) w''
             | (Reject info, w'') \<Rightarrow>
                 (Inl \<lparr>rej_plugin = pl_name (pe_plugin e), rej_info = info\<rparr>, w'')))"
  by (subst run_plugins_append, subst run_plugins_filter [of xs]) (simp split: prod.split sum.split)

text \<open>
  The circuit breaker: a WebAssembly plugin that traps, overruns its deadline or fails to
  instantiate passes the request under fail-open and rejects it with status 403 under fail-closed;
  it never modifies the request.
\<close>

theorem wasm_failure_policy:
  assumes "\<exists>err w'. wc_instantiate (wpl_pre p) (wpl_budget_ticks p) (wpl_memory_bytes p) w = (Inl err, w') \<or>
    (\<exists>w1. wc_instantiate (wpl_pre p) (wpl_budget_ticks p) (wpl_memory_bytes p) w = (Inr (), w1) \<and>
       wc_call_inspect (wpl_pre p) request w1 = (Inl err, w'))"
  shows "fst (wasm_run p request w) =
    (case wpl_on_timeout p of
       FailOpen \<Rightarrow> Pass
     | FailClosed \<Rightarrow> Reject \<lparr>ri_reason = ''request blocked: plugin '' @ quoted (wpl_name p) @ '' could not evaluate it'',
                             ri_status_code = 403\<rparr>)"
  using assms by (auto simp: wasm_run_def circuit_break_def FAIL_CLOSED_STATUS_def split: fail_mode.split)

definition trapping_plugin :: "unit wasm_plugin" where
  "trapping_plugin = \<lparr>wpl_name = ''p'',
     wpl_pre = \<lparr>wc_instantiate = (\<lambda>b m w. (Inr (), w)), wc_call_inspect = (\<lambda>rq w. (Inl [''trap''], w))\<rparr>,
     wpl_budget_ticks = 5, wpl_on_timeout = FailClosed, wpl_memory_bytes = DEFAULT_MEMORY_BYTES\<rparr>"

theorem wasm_failure_policy_witness:
  "\<exists>info. fst (wasm_run trapping_plugin
     \<lparr>pq_method = ''POST'', pq_path = ''/'', pq_headers = [], pq_body = []\<rparr> ()) = Reject info \<and>
   ri_status_code info = 403"
  by (subst wasm_failure_policy) (simp_all add: trapping_plugin_def)

text \<open>The two PII implementations agree on what a request deserves.\<close>

lemma guest_decides_natively:
  "map_action (guest_inspect_request R J req) = pii_inspect_request R J (pii_default R) req"
proof (cases "from_slice J (pq_body req)")
  case (Inr v)
  show ?thesis
  proof (cases v)
    case (JObject m)
    have eq: "map (guest_redact_message R) = map (redact_message R (pii_default R))"
      by (simp add: guest_redact_message_default fun_eq_iff)
    show ?thesis
    proof (cases "map_of m ''messages''")
      case None
      with Inr JObject show ?thesis
        by (simp add: guest_inspect_request_def pii_inspect_request_def redact_body_def map_action_def)
    next
      case (Some ms)
      then show ?thesis using Inr JObject
        by (cases ms) (simp_all add: guest_inspect_request_def pii_inspect_request_def redact_body_def
            map_action_def eq Let_def split: sum.split)
    qed
  qed (simp_all add: Inr guest_inspect_request_def pii_inspect_request_def redact_body_def map_action_def)
qed (simp add: guest_inspect_request_def pii_inspect_request_def map_action_def)

text \<open>
  A component compiled from the guest: when a call of \<open>inspect\<close> returns, it returns what the guest computes. That
  it returns is not promised; it traps when it overruns its deadline or its memory.
\<close>

definition runs_guest :: "'r regex_crate \<Rightarrow> serde_json \<Rightarrow> 'w wasm_component \<Rightarrow> bool" where
  "runs_guest R J c \<longleftrightarrow>
     (\<forall>req w action w'. wc_call_inspect c req w = (Inr action, w') \<longrightarrow> action = guest_inspect_request R J req)"

definition wasm_completes :: "'w wasm_plugin \<Rightarrow> plugin_request \<Rightarrow> 'w \<Rightarrow> bool" where
  "wasm_completes p req w =
     (case wc_instantiate (wpl_pre p) (wpl_budget_ticks p) (wpl_memory_bytes p) w of
        (Inl e, w') \<Rightarrow> False
      | (Inr _, w') \<Rightarrow> (case wc_call_inspect (wpl_pre p) req w' of (Inl e, w'') \<Rightarrow> False | (Inr a, w'') \<Rightarrow> True))"

text \<open>
  C35. The PII component decides as the native plugin or not at all: run by the host, the plugin compiled from the
  guest decides a request exactly as the native plugin with its default patterns and replacement when it
  finishes within its limits; when it does not, the request passes unredacted under fail-open and is rejected
  with 403 under fail-closed.
\<close>

theorem pii_guest_equivalent:
  assumes "runs_guest R J (wpl_pre p)"
  shows "fst (wasm_run p req w) =
    (if wasm_completes p req w then pii_inspect_request R J (pii_default R) req
     else case wpl_on_timeout p of
            FailOpen \<Rightarrow> Pass
          | FailClosed \<Rightarrow> Reject \<lparr>ri_reason = ''request blocked: plugin '' @ quoted (wpl_name p) @ '' could not evaluate it'',
                                  ri_status_code = 403\<rparr>)"
  using assms guest_decides_natively [of R J req]
  by (auto simp: wasm_run_def wasm_completes_def runs_guest_def circuit_break_def FAIL_CLOSED_STATUS_def
      split: prod.splits sum.splits fail_mode.split)

text \<open>
  A machine whose state is whether the guest gets to finish, and a request whose message is a secret: native
  plugin and component redact it, and a component that is cut off under fail-open lets it pass.
\<close>

definition secret_regex :: "unit regex_crate" where
  "secret_regex = \<lparr>regex_new = (\<lambda>_. Some ()), replace_all = (\<lambda>_ s r. if s = ''secret'' then r else s)\<rparr>"

definition secret_chat :: "json \<Rightarrow> json" where
  "secret_chat content = JObject [(''messages'', JArray [JObject [(''content'', content)]])]"

definition secret_serde :: serde_json where
  "secret_serde = \<lparr>from_slice = (\<lambda>b. if b = ''secret'' then Inr (secret_chat (JString ''secret'')) else Inl []),
     to_vec = (\<lambda>v. Inr (if v = secret_chat (JString ''[REDACTED]'') then ''redacted'' else ''other'')), display = (\<lambda>_. [])\<rparr>"

definition secret_plugin :: "bool wasm_plugin" where
  "secret_plugin = \<lparr>wpl_name = ''pii'',
     wpl_pre = \<lparr>wc_instantiate = (\<lambda>b m w. (Inr (), w)),
       wc_call_inspect = (\<lambda>req w. (if w then Inr (guest_inspect_request secret_regex secret_serde req) else Inl [''interrupt''], w))\<rparr>,
     wpl_budget_ticks = 5, wpl_on_timeout = FailOpen, wpl_memory_bytes = DEFAULT_MEMORY_BYTES\<rparr>"

definition secret_request :: plugin_request where
  "secret_request = \<lparr>pq_method = ''POST'', pq_path = ''/'', pq_headers = [], pq_body = ''secret''\<rparr>"

lemma secret_redacted:
  "pii_inspect_request secret_regex secret_serde (pii_default secret_regex) secret_request =
     Modify (secret_request\<lparr>pq_body := ''redacted''\<rparr>)"
  by code_simp

theorem pii_guest_equivalent_witness:
  "fst (wasm_run secret_plugin secret_request True) = Modify (secret_request\<lparr>pq_body := ''redacted''\<rparr>) \<and>
   fst (wasm_run secret_plugin secret_request False) = Pass"
proof -
  have "runs_guest secret_regex secret_serde (wpl_pre secret_plugin)"
    by (auto simp: runs_guest_def secret_plugin_def split: if_splits)
  from pii_guest_equivalent [OF this, of secret_request True] pii_guest_equivalent [OF this, of secret_request False]
  show ?thesis by (simp add: secret_redacted wasm_completes_def) (simp add: secret_plugin_def)
qed

end
