(* ===== verification/Tls.thy ===== *)
theory Tls
  imports Config Plugin
begin

text \<open>
  TLS material of the proxy listener (\<open>tls.rs\<close>). File reading, PEM parsing and the \<open>rustls\<close>
  builders are parameters; \<open>'s\<close> is a built server configuration and \<open>'v\<close> a client verifier.
\<close>

record ('s, 'v) rustls_crate =
  fs_read :: "string \<Rightarrow> anyhow + bytes"
  pem_certs :: "bytes \<Rightarrow> anyhow + bytes list"
  pem_private_key :: "bytes \<Rightarrow> anyhow + bytes option"
  root_add :: "bytes \<Rightarrow> anyhow + unit"
  client_verifier :: "bytes list \<Rightarrow> anyhow + 'v"
  safe_protocol_versions :: "anyhow + unit"
  single_cert :: "'v \<Rightarrow> bytes list \<Rightarrow> bytes \<Rightarrow> string list \<Rightarrow> anyhow + 's"
  server_from_pem_file :: "string \<Rightarrow> string \<Rightarrow> anyhow + 's"

text \<open>
  \<open>Once::call_once\<close> around \<open>install_default\<close>, which does nothing when a provider is installed: the state
  is the installed provider and whether the cell was called.
\<close>

definition ensure_default_provider :: "'p \<Rightarrow> 'p option \<times> bool \<Rightarrow> 'p option \<times> bool" where
  "ensure_default_provider aws_lc_rs g =
     (case g of (installed, called) \<Rightarrow>
        if called then g else (Some (case installed of None \<Rightarrow> aws_lc_rs | Some p \<Rightarrow> p), True))"

lemma ensure_default_provider_idem:
  "ensure_default_provider q (ensure_default_provider p g) = ensure_default_provider p g"
  by (simp add: ensure_default_provider_def split: prod.split)

definition load_certs :: "('s, 'v) rustls_crate \<Rightarrow> string \<Rightarrow> anyhow + bytes list" where
  "load_certs R path =
     (case fs_read R path of
        Inl e \<Rightarrow> Inl e
      | Inr data \<Rightarrow> with_context ''failed to parse PEM certificates'' (pem_certs R data))"

definition load_key :: "('s, 'v) rustls_crate \<Rightarrow> string \<Rightarrow> anyhow + bytes" where
  "load_key R path =
     (case fs_read R path of
        Inl e \<Rightarrow> Inl e
      | Inr data \<Rightarrow>
          (case with_context ''failed to parse PEM private key'' (pem_private_key R data) of
             Inl e \<Rightarrow> Inl e
           | Inr k \<Rightarrow> ok_or [''no private key found in '' @ path] k))"

fun add_roots :: "('s, 'v) rustls_crate \<Rightarrow> bytes list \<Rightarrow> anyhow + bytes list" where
  "add_roots R [] = Inr []"
| "add_roots R (ca # cas) =
     (case with_context ''failed to add a client CA certificate to the trust store'' (root_add R ca) of
        Inl e \<Rightarrow> Inl e
      | Inr _ \<Rightarrow> (case add_roots R cas of Inl e \<Rightarrow> Inl e | Inr roots \<Rightarrow> Inr (ca # roots)))"

definition client_roots :: "('s, 'v) rustls_crate \<Rightarrow> string \<Rightarrow> anyhow + bytes list" where
  "client_roots R ca_path =
     (case with_context (''failed to load client CA bundle '' @ ca_path) (load_certs R ca_path) of
        Inl e \<Rightarrow> Inl e
      | Inr cas \<Rightarrow>
          (case add_roots R cas of
             Inl e \<Rightarrow> Inl e
           | Inr roots \<Rightarrow>
               if roots = [] then Inl [''client CA bundle '' @ ca_path @ '' contained no certificates'']
               else Inr roots))"

definition mtls_server_config :: "('s, 'v) rustls_crate \<Rightarrow> string \<Rightarrow> string \<Rightarrow> string \<Rightarrow> anyhow + 's" where
  "mtls_server_config R cert key client_ca =
     (case with_context (''failed to load TLS cert '' @ cert) (load_certs R cert) of
        Inl e \<Rightarrow> Inl e
      | Inr certs \<Rightarrow>
          (case with_context (''failed to load TLS key '' @ key) (load_key R key) of
             Inl e \<Rightarrow> Inl e
           | Inr k \<Rightarrow>
               (case client_roots R client_ca of
                  Inl e \<Rightarrow> Inl e
                | Inr roots \<Rightarrow>
                    (case with_context ''failed to build the client certificate verifier'' (client_verifier R roots) of
                       Inl e \<Rightarrow> Inl e
                     | Inr verifier \<Rightarrow>
                         (case with_context ''failed to select TLS protocol versions'' (safe_protocol_versions R) of
                            Inl e \<Rightarrow> Inl e
                          | Inr _ \<Rightarrow>
                              with_context ''failed to build the mTLS server config''
                                (single_cert R verifier certs k [''h2'', ''http/1.1'']))))))"

definition build_rustls_config :: "('s, 'v) rustls_crate \<Rightarrow> tls_config \<Rightarrow> anyhow + 's" where
  "build_rustls_config R tls =
     (case client_ca_path tls of
        None \<Rightarrow>
          with_context (''failed to load TLS material (cert: '' @ cert_path tls @ '', key: '' @ key_path tls @ '')'')
            (server_from_pem_file R (cert_path tls) (key_path tls))
      | Some ca \<Rightarrow> mtls_server_config R (cert_path tls) (key_path tls) ca)"

text \<open>The live configuration is swapped only after the new one has been built.\<close>

definition reload_certs :: "('s, 'v) rustls_crate \<Rightarrow> 's \<Rightarrow> tls_config \<Rightarrow> (anyhow + unit) \<times> 's" where
  "reload_certs R live tls =
     (case client_ca_path tls of
        None \<Rightarrow>
          (case with_context (''failed to reload TLS material (cert: '' @ cert_path tls @ '', key: '' @ key_path tls @ '')'')
                  (server_from_pem_file R (cert_path tls) (key_path tls)) of
             Inl e \<Rightarrow> (Inl e, live)
           | Inr s \<Rightarrow> (Inr (), s))
      | Some ca \<Rightarrow>
          (case mtls_server_config R (cert_path tls) (key_path tls) ca of
             Inl e \<Rightarrow> (Inl e, live)
           | Inr s \<Rightarrow> (Inr (), s)))"

lemma with_context_Inr [simp]: "with_context ctx r = Inr v \<longleftrightarrow> r = Inr v"
  by (simp add: with_context_def split: sum.split)

lemma add_roots_same: "add_roots R cas = Inr roots \<Longrightarrow> roots = cas"
  by (induction cas arbitrary: roots) (auto split: sum.splits)

lemma client_roots_Inr:
  "client_roots R ca = Inr roots \<Longrightarrow> roots \<noteq> [] \<and> load_certs R ca = Inr roots"
  by (auto simp: client_roots_def split: sum.splits if_splits dest: add_roots_same)

lemma reload_certs_Inl: "reload_certs R live tls = (Inl e, live') \<Longrightarrow> live' = live"
  by (auto simp: reload_certs_def split: option.splits sum.splits)

section \<open>Properties\<close>

lemma mtls_server_config_Inr:
  "mtls_server_config R cert key ca = Inr s \<Longrightarrow>
     \<exists>roots verifier certs k. roots \<noteq> [] \<and> load_certs R ca = Inr roots \<and> client_verifier R roots = Inr verifier \<and>
       load_certs R cert = Inr certs \<and> load_key R key = Inr k \<and> single_cert R verifier certs k [''h2'', ''http/1.1''] = Inr s"
  by (auto simp: mtls_server_config_def split: sum.splits dest: client_roots_Inr)

text \<open>
  C30. Mutual TLS cannot be lost silently: when a client CA is configured, a listener configuration that is built
  or reloaded verifies clients against the certificates of that bundle, of which there is at least
  one, and presents the configured certificate; in every other case the call fails.
\<close>

theorem mtls_requires_client_certificates:
  assumes "client_ca_path tls = Some ca"
    and "build_rustls_config R tls = Inr s \<or> reload_certs R live tls = (Inr (), s)"
  shows "\<exists>roots verifier certs k. roots \<noteq> [] \<and> load_certs R ca = Inr roots \<and> client_verifier R roots = Inr verifier \<and>
     load_certs R (cert_path tls) = Inr certs \<and> load_key R (key_path tls) = Inr k \<and>
     single_cert R verifier certs k [''h2'', ''http/1.1''] = Inr s"
proof -
  have "mtls_server_config R (cert_path tls) (key_path tls) ca = Inr s"
    using assms by (auto simp: build_rustls_config_def reload_certs_def split: sum.splits)
  then show ?thesis by (rule mtls_server_config_Inr)
qed

text \<open>A concrete crate for the witness: a file holds its path, a bundle is one certificate.\<close>

definition example_rustls :: "(bytes list \<times> bytes list, bytes list) rustls_crate" where
  "example_rustls = \<lparr>fs_read = (\<lambda>p. Inr p), pem_certs = (\<lambda>d. Inr [d]), pem_private_key = (\<lambda>d. Inr (Some d)), root_add = (\<lambda>_. Inr ()),
     client_verifier = (\<lambda>roots. Inr roots), safe_protocol_versions = Inr (), single_cert = (\<lambda>v certs k alpn. Inr (v, certs)),
     server_from_pem_file = (\<lambda>c k. Inr ([], [c]))\<rparr>"

definition example_tls :: tls_config where
  "example_tls = \<lparr>cert_path = ''cert.pem'', key_path = ''key.pem'', client_ca_path = Some ''ca.pem''\<rparr>"

theorem mtls_requires_client_certificates_witness:
  "build_rustls_config example_rustls example_tls = Inr ([''ca.pem''], [''cert.pem'']) \<and>
   (\<exists>roots verifier certs k. roots \<noteq> [] \<and> load_certs example_rustls ''ca.pem'' = Inr roots \<and>
      client_verifier example_rustls roots = Inr verifier \<and> load_certs example_rustls ''cert.pem'' = Inr certs \<and>
      load_key example_rustls ''key.pem'' = Inr k \<and>
      single_cert example_rustls verifier certs k [''h2'', ''http/1.1''] = Inr ([''ca.pem''], [''cert.pem'']))"
proof -
  have b: "build_rustls_config example_rustls example_tls = Inr ([''ca.pem''], [''cert.pem''])" by code_simp
  have "client_ca_path example_tls = Some ''ca.pem''" by (simp add: example_tls_def)
  from mtls_requires_client_certificates [OF this disjI1 [OF b]] b show ?thesis by (simp add: example_tls_def)
qed

end
