(* ===== verification/Runtime.thy ===== *)
theory Runtime
  imports Registry Bedrock Cache Plugin Tls
begin

text \<open>
  The swappable runtime (\<open>runtime.rs\<close>): building it from a configuration and reloading it. The
  handle is an atomic pointer, so the model's handle is the runtime it points to.
\<close>

record registered_model =
  rgm_id :: string
  rgm_provider :: string

text \<open>\<open>Arc<dyn Connector>\<close> as the handlers call it: the registry also emits audit events.\<close>

record 'w dispatcher =
  ds_chat :: "chat_request \<Rightarrow> 'w \<Rightarrow> 'w dispatched"
  ds_embeddings :: "embeddings_request \<Rightarrow> 'w \<Rightarrow> 'w dispatched"
  ds_reachable :: "'w \<Rightarrow> bool"

definition registry_dispatcher :: "'w timeout \<Rightarrow> 'w registry \<Rightarrow> 'w dispatcher" where
  "registry_dispatcher T reg =
     \<lparr>ds_chat = registry_chat T reg, ds_embeddings = registry_embeddings T reg,
      ds_reachable = registry_reachable reg\<rparr>"

record ('w, 'c) runtime =
  rn_connector :: "'w dispatcher"
  rn_pricing :: pricing
  rn_cache :: "'c option"
  rn_plugins :: "'w plugin_entry list"
  rn_models :: "registered_model list"

text \<open>The outside of the builder: environment variables, clients, and the other crates.\<close>

record ('w, 'c, 'r, 'k) build_env =
  be_var :: "string \<Rightarrow> string option"
  be_client :: "string \<Rightarrow> client_build"
  be_json :: serde_json
  be_codec :: anthropic_codec
  be_bedrock_ser :: "bedrock_request \<Rightarrow> string + bytes"
  be_crypto :: crypto
  be_entropy :: "'w \<Rightarrow> bytes"
  be_clock :: "'w \<Rightarrow> nat"
  be_http :: "'w http"
  be_timeout :: "'w timeout"
  be_bundled :: "pricing option"
  be_moka :: "'c moka"
  be_regex :: "'r regex_crate"
  be_wasmtime :: "('k, 'w) wasmtime"

definition read_key :: "('w, 'c, 'r, 'k) build_env \<Rightarrow> string \<Rightarrow> string" where
  "read_key E var = unwrap_or (be_var E var) []"

definition optional_env :: "('w, 'c, 'r, 'k) build_env \<Rightarrow> string \<Rightarrow> string option" where
  "optional_env E var = (let v = unwrap_or (be_var E var) [] in if v = [] then None else Some v)"

definition core_context :: "string \<Rightarrow> core_error + 'a \<Rightarrow> anyhow + 'a" where
  "core_context ctx r = (case r of Inl e \<Rightarrow> Inl [ctx, show_core_error e] | Inr v \<Rightarrow> Inr v)"

section \<open>Connectors\<close>

definition build_openai :: "('w, 'c, 'r, 'k) build_env \<Rightarrow> config \<Rightarrow> anyhow + 'w connector" where
  "build_openai E cfg =
     (let c = pr_openai (cfg_providers cfg)
      in case core_context ''failed to build OpenAI connector''
                (openai_new (be_client E ''openai'') (oa_base_url c) (read_key E (oa_api_key_env c))) of
           Inl e \<Rightarrow> Inl e
         | Inr conn \<Rightarrow> Inr (openai_connector_impl (be_json E) (be_http E) conn))"

definition build_anthropic :: "('w, 'c, 'r, 'k) build_env \<Rightarrow> config \<Rightarrow> anyhow + 'w connector" where
  "build_anthropic E cfg =
     (let c = pr_anthropic (cfg_providers cfg)
      in case core_context ''failed to build Anthropic connector''
                (anthropic_new (be_client E ''anthropic'') (an_base_url c) (read_key E (an_api_key_env c))) of
           Inl e \<Rightarrow> Inl e
         | Inr conn \<Rightarrow>
             Inr (anthropic_connector_impl (be_json E) (be_codec E) (be_crypto E) (be_entropy E) (be_clock E)
                    (be_http E) conn))"

definition build_azure :: "('w, 'c, 'r, 'k) build_env \<Rightarrow> config \<Rightarrow> anyhow + 'w connector" where
  "build_azure E cfg =
     (let c = pr_azure (cfg_providers cfg)
      in case core_context ''failed to build Azure OpenAI connector''
                (azure_new (be_client E ''azure'') (az_base_url c) (read_key E (az_api_key_env c)) (az_api_version c)) of
           Inl e \<Rightarrow> Inl e
         | Inr conn \<Rightarrow> Inr (azure_connector_impl (be_json E) (be_http E) conn))"

definition build_bedrock :: "('w, 'c, 'r, 'k) build_env \<Rightarrow> config \<Rightarrow> anyhow + 'w connector" where
  "build_bedrock E cfg =
     (let c = pr_bedrock (cfg_providers cfg)
      in case core_context ''failed to build Bedrock connector''
                (bedrock_new (be_client E ''bedrock'') (br_region c) (read_key E (br_access_key_env c))
                   (unwrap_or (be_var E (br_secret_key_env c)) []) (optional_env E (br_session_token_env c))) of
           Inl e \<Rightarrow> Inl e
         | Inr conn \<Rightarrow>
             Inr (bedrock_connector_impl (be_json E) (be_codec E) (be_bedrock_ser E) (be_crypto E) (be_clock E)
                    (be_http E) conn))"

definition build_connectors :: "('w, 'c, 'r, 'k) build_env \<Rightarrow> config \<Rightarrow> anyhow + 'w connector table" where
  "build_connectors E cfg =
     (case build_openai E cfg of
        Inl e \<Rightarrow> Inl e
      | Inr openai \<Rightarrow>
          (case build_anthropic E cfg of
             Inl e \<Rightarrow> Inl e
           | Inr anthropic \<Rightarrow>
               (case build_azure E cfg of
                  Inl e \<Rightarrow> Inl e
                | Inr azure \<Rightarrow>
                    (case build_bedrock E cfg of
                       Inl e \<Rightarrow> Inl e
                     | Inr bedrock \<Rightarrow>
                         Inr [(''openai'', openai), (''anthropic'', anthropic), (''azure'', azure),
                              (''bedrock'', bedrock)]))))"

section \<open>Plugins\<close>

definition unsupported_hook :: "wasm_plugin_config \<Rightarrow> anyhow" where
  "unsupported_hook c =
     [''wasm plugin '' @ quoted (wp_name c) @ '' binds unsupported hook '' @ quoted (wp_hook c) @
      ''; only '' @ quoted ''inspect-request'' @ '' is supported'']"

definition load_plugin ::
  "('w, 'c, 'r, 'k) build_env \<Rightarrow> plugin_config \<Rightarrow> anyhow + ('w plugin_entry \<times> audit_event)" where
  "load_plugin E p =
     (case p of
        PiiRedaction c \<Rightarrow>
          let plugin = pii_plugin_impl (be_regex E) (be_json E)
                (pii_new (be_regex E) (prc_patterns c) (prc_replacement c))
          in Inr (\<lparr>pe_plugin = plugin, pe_bind_routes = []\<rparr>,
                  plugin_loaded (pl_name plugin) ''pii_redaction'' ''built-in'')
      | WasmComponent c \<Rightarrow>
          if wp_hook c \<noteq> ''inspect-request'' then Inl (unsupported_hook c)
          else
            (case with_context (''failed to load wasm plugin '' @ quoted (wp_name c))
                    (wasm_load (be_wasmtime E) (wp_name c) (wp_path c) (wp_latency_budget_ms c) (wp_on_timeout c)) of
               Inl e \<Rightarrow> Inl e
             | Inr plugin \<Rightarrow>
                 Inr (\<lparr>pe_plugin = wasm_plugin_impl plugin, pe_bind_routes = wp_bind_routes c\<rparr>,
                      plugin_loaded (wpl_name plugin) ''wasm'' (wp_path c))))"

text \<open>The loader knows exactly the hooks of the plugin contract, and the default is one of them.\<close>

lemma load_plugin_hook:
  "wp_hook c \<notin> range hook_as_str \<Longrightarrow> load_plugin E (WasmComponent c) = Inl (unsupported_hook c)"
  using rangeI [of hook_as_str InspectRequest] by (auto simp: load_plugin_def)

lemma default_plugin_hook_known: "default_plugin_hook = hook_as_str InspectRequest"
  by (simp add: default_plugin_hook_def)

text \<open>The events of the plugins loaded before a failing one have been emitted.\<close>

fun load_plugins ::
  "('w, 'c, 'r, 'k) build_env \<Rightarrow> plugin_config list \<Rightarrow> (anyhow + 'w plugin_entry list) \<times> audit_event list" where
  "load_plugins E [] = (Inr [], [])"
| "load_plugins E (p # ps) =
     (case load_plugin E p of
        Inl e \<Rightarrow> (Inl e, [])
      | Inr (entry, ev) \<Rightarrow>
          (case load_plugins E ps of
             (Inl e, evs) \<Rightarrow> (Inl e, ev # evs)
           | (Inr entries, evs) \<Rightarrow> (Inr (entry # entries), ev # evs)))"

section \<open>Building and reloading\<close>

text \<open>\<open>size_mb.saturating_mul(1024 * 1024)\<close> on \<open>u64\<close>.\<close>

definition cache_size_bytes :: "u64 \<Rightarrow> u64" where
  "cache_size_bytes size_mb =
     (if unat size_mb * 1048576 < 2 ^ 64 then size_mb * 1048576 else - 1)"

definition build_runtime ::
  "('w, 'c, 'r, 'k) build_env \<Rightarrow> config \<Rightarrow> (anyhow + ('w, 'c) runtime) \<times> audit_event list" where
  "build_runtime E cfg =
     (case build_connectors E cfg of
        Inl e \<Rightarrow> (Inl e, [])
      | Inr connectors \<Rightarrow>
          (case core_context ''failed to build model registry'' (registry_new connectors (cfg_models cfg)) of
             Inl e \<Rightarrow> (Inl e, [])
           | Inr registry \<Rightarrow>
               (case load_plugins E (cfg_plugins cfg) of
                  (Inl e, evs) \<Rightarrow> (Inl e, evs)
                | (Inr entries, evs) \<Rightarrow>
                    (Inr \<lparr>rn_connector = registry_dispatcher (be_timeout E) registry,
                          rn_pricing = overlaid_with (pricing_bundled (be_bundled E)) (cfg_pricing cfg),
                          rn_cache =
                            (if cc_enabled (cfg_cache cfg)
                             then Some (cache_new (be_moka E) (cache_size_bytes (cc_size_mb (cfg_cache cfg)))
                                          (unat (cc_ttl_seconds (cfg_cache cfg))))
                             else None),
                          rn_plugins = entries,
                          rn_models = map (\<lambda>m. \<lparr>rgm_id = mc_name m, rgm_provider = rt_provider (mc_primary m)\<rparr>)
                                        (cfg_models cfg)\<rparr>, evs))))"

text \<open>
  The state a reload touches: the runtime handle and the live TLS configuration of the
  listener, when it was started with TLS.
\<close>

record ('w, 'c, 's) live =
  lv_runtime :: "('w, 'c) runtime"
  lv_rustls :: "'s option"

definition reload ::
  "('w, 'c, 'r, 'k) build_env \<Rightarrow> ('s, 'v) rustls_crate \<Rightarrow> (config \<Rightarrow> string option \<Rightarrow> string + config) \<Rightarrow>
     string option \<Rightarrow> ('w, 'c, 's) live \<Rightarrow> (anyhow + unit) \<times> ('w, 'c, 's) live \<times> audit_event list" where
  "reload E R extract path lv =
     (case core_context ''failed to load configuration'' (config_load extract path) of
        Inl e \<Rightarrow> (Inl e, lv, [])
      | Inr cfg \<Rightarrow>
          (case build_runtime E cfg of
             (Inl e, evs) \<Rightarrow> (Inl (''failed to build runtime from new config'' # e), lv, evs)
           | (Inr new_runtime, evs) \<Rightarrow>
               (case (lv_rustls lv, ls_tls (cfg_listen cfg)) of
                  (Some rustls, Some tls) \<Rightarrow>
                    (case reload_certs R rustls tls of
                       (Inl e, rustls') \<Rightarrow> (Inl e, lv\<lparr>lv_rustls := Some rustls'\<rparr>, evs)
                     | (Inr _, rustls') \<Rightarrow>
                         (Inr (), lv\<lparr>lv_rustls := Some rustls', lv_runtime := new_runtime\<rparr>, evs))
                | _ \<Rightarrow> (Inr (), lv\<lparr>lv_runtime := new_runtime\<rparr>, evs))))"

section \<open>Properties\<close>

text \<open>
  C32. A reload is all or nothing: a failed reload leaves the runtime and the TLS material as they
  were; a successful one installs exactly the runtime built from the configuration it read.
\<close>

theorem reload_atomic:
  "case reload E R extract path lv of
     (Inl e, lv', evs) \<Rightarrow> lv' = lv
   | (Inr _, lv', evs) \<Rightarrow>
       (\<exists>cfg rt. config_load extract path = Inr cfg \<and> build_runtime E cfg = (Inr rt, evs) \<and>
          lv_runtime lv' = rt \<and> (lv_rustls lv' = None \<longleftrightarrow> lv_rustls lv = None))"
proof -
  have same: "lv\<lparr>lv_rustls := Some r\<rparr> = lv" if "lv_rustls lv = Some r" for r
    using that by (cases lv) simp
  show ?thesis
    by (auto simp: reload_def core_context_def same dest: reload_certs_Inl
        split: sum.splits prod.splits option.splits)
qed

end
