(* ===== verification/Proxy.thy ===== *)
theory Proxy
  imports Runtime RateLimiter StreamObserver
begin

text \<open>
  The proxy API (\<open>proxy.rs\<close>): authentication, the gates every request passes, the cache, the
  dispatch and the accounting of the response. A handler maps the shared state and the
  request to the reply, the new state, the telemetry it emits and the world it leaves.
\<close>

section \<open>Replies, telemetry, state\<close>

datatype reply_body =
    JsonBody json
  | BytesBody bytes
  | StreamBody body_stream
  | ObservedBody usage_observer body_stream
  | TextBody string

record reply =
  rp_status :: u16
  rp_headers :: "(string \<times> string) list"
  rp_body :: reply_body

datatype metric =
    RejectionsTotal string
  | RequestsTotal string string u16
  | RequestDuration string string string f64
  | CostCentsTotal string string nat

record effects =
  fx_audit :: "audit_event list"
  fx_spans :: "span_record list"
  fx_metrics :: "metric list"

definition no_effects :: effects where
  "no_effects = \<lparr>fx_audit = [], fx_spans = [], fx_metrics = []\<rparr>"

definition fx_append :: "effects \<Rightarrow> effects \<Rightarrow> effects" where
  "fx_append a b = \<lparr>fx_audit = fx_audit a @ fx_audit b, fx_spans = fx_spans a @ fx_spans b,
     fx_metrics = fx_metrics a @ fx_metrics b\<rparr>"

record ('w, 'c) proxy_state =
  ps_runtime :: "('w, 'c) runtime"
  ps_keys :: key_store
  ps_rate_limiter :: rate_limiter
  ps_spend_tracker :: spend_tracker

text \<open>
  The clock readings of one request, in the order they are taken: for the expiry check, the two
  of the rate limiter, the spend pre-check, the elapsed nanoseconds at a rejection or cache hit,
  after the dispatch and at completion, and the ledger's.
\<close>

record clocks =
  tc_expiry :: utc
  tc_bucket_new :: nat
  tc_consume :: nat
  tc_pre_check :: utc
  tc_early_ms :: nat
  tc_early_total :: nat
  tc_dispatched :: nat
  tc_completed :: nat
  tc_record :: utc

record chat_meta =
  meta_model :: "string option"
  meta_stream :: bool

record embeddings_meta =
  emeta_model :: "string option"

text \<open>
  The crates the handlers call: the derived decoders of the request metadata, the RFC 3339
  parser, and the \<open>http\<close> crate's validation of status codes and header values.
\<close>

record 'c proxy_env =
  px_json :: serde_json
  px_crypto :: crypto
  px_moka :: "'c moka"
  px_rfc3339 :: "string \<Rightarrow> int option"
  px_chat_meta :: "bytes \<Rightarrow> chat_meta option"
  px_embeddings_meta :: "bytes \<Rightarrow> embeddings_meta option"
  px_status_ok :: "u16 \<Rightarrow> bool"
  px_header_ok :: "string \<Rightarrow> bool"

section \<open>Headers\<close>

definition CACHE_HEADER :: string where "CACHE_HEADER = ''x-vaultplane-cache''"
definition TRACE_ID_HEADER :: string where "TRACE_ID_HEADER = ''x-vaultplane-trace-id''"
definition IDEMPOTENCY_HEADER :: string where "IDEMPOTENCY_HEADER = ''x-vaultplane-idempotency-key''"

type_synonym header_map = "(string \<times> string) list"

text \<open>\<open>HeaderMap::get\<close> gives the first value; \<open>to_str\<close> accepts visible ASCII and tabs.\<close>

definition header_to_str :: "string \<Rightarrow> string option" where
  "header_to_str v = (if list_all (\<lambda>c. byte_in 32 126 c \<or> byte_val c = 9) v then Some v else None)"

definition header_get :: "header_map \<Rightarrow> string \<Rightarrow> string option" where
  "header_get headers name = Option.bind (map_of headers name) header_to_str"

definition header_str :: "header_map \<Rightarrow> string \<Rightarrow> string option" where
  "header_str headers name =
     (case header_get headers name of Some s \<Rightarrow> if s = [] then None else Some s | None \<Rightarrow> None)"

definition bearer_token :: "header_map \<Rightarrow> string option" where
  "bearer_token headers = Option.bind (header_get headers ''authorization'') (strip_prefix ''Bearer '')"

definition cache_key_for :: "crypto \<Rightarrow> string \<Rightarrow> string \<Rightarrow> string option \<Rightarrow> bytes \<Rightarrow> string" where
  "cache_key_for C scope model idempotency_key body =
     (case idempotency_key of
        Some k \<Rightarrow> cache_key C scope model (''idempotency:'' @ k)
      | None \<Rightarrow> cache_key C scope model body)"

section \<open>Responses\<close>

definition error_reply :: "u16 \<Rightarrow> string \<Rightarrow> reply" where
  "error_reply status msg =
     \<lparr>rp_status = status, rp_headers = [(''content-type'', JSON_TYPE)],
      rp_body = JsonBody (json_object [(''error'', json_object [(''message'', JString msg)])])\<rparr>"

definition upstream_error_response :: "core_error \<Rightarrow> reply" where
  "upstream_error_response err =
     (let (status, kind, msg) =
            (case err of
               UpstreamTimeout detail \<Rightarrow> (504, ''upstream_timeout'', ''upstream request timed out: '' @ detail)
             | other \<Rightarrow> (502, ''upstream_error'', show_core_error other))
      in \<lparr>rp_status = status, rp_headers = [(''content-type'', JSON_TYPE)],
          rp_body = JsonBody (json_object [(''error'',
             json_object [(''message'', JString msg), (''type'', JString kind)])])\<rparr>)"

definition build_response :: "'c proxy_env \<Rightarrow> u16 \<Rightarrow> string option \<Rightarrow> reply_body \<Rightarrow> string \<Rightarrow> reply" where
  "build_response E status content_type body cache =
     (if px_status_ok E status \<and> (case content_type of Some ct \<Rightarrow> px_header_ok E ct | None \<Rightarrow> True)
      then \<lparr>rp_status = status,
            rp_headers = (CACHE_HEADER, cache) #
              (case content_type of Some ct \<Rightarrow> [(''content-type'', ct)] | None \<Rightarrow> []),
            rp_body = body\<rparr>
      else error_reply 502 ''invalid upstream response'')"

definition fallback_reply :: reply where
  "fallback_reply = error_reply 404 ''not found''"

definition proxy_list_models :: "('w, 'c) proxy_state \<Rightarrow> reply" where
  "proxy_list_models st =
     \<lparr>rp_status = 200, rp_headers = [(''content-type'', JSON_TYPE)],
      rp_body = JsonBody (json_object [(''object'', JString ''list''),
        (''data'', JArray (map (\<lambda>m. json_object
           [(''id'', JString (rgm_id m)), (''object'', JString ''model''),
            (''owned_by'', JString (rgm_provider m))]) (rn_models (ps_runtime st))))])\<rparr>"

section \<open>Metrics\<close>

definition elapsed_ms :: "nat \<Rightarrow> nat" where
  "elapsed_ms ns = ns div 10 ^ 6 mod 2 ^ 64"

definition cost_cents :: "f64 \<Rightarrow> nat" where
  "cost_cents cost = f64_as_u64 (f64_round_int (f64_mul cost (Fin 100)))"

definition record_completion ::
  "string \<Rightarrow> string \<Rightarrow> u16 \<Rightarrow> string \<Rightarrow> f64 \<Rightarrow> f64 option \<Rightarrow> metric list" where
  "record_completion provider model status cache_label duration_seconds cost_usd =
     [RequestsTotal provider model status, RequestDuration provider model cache_label duration_seconds] @
     (case cost_usd of
        None \<Rightarrow> []
      | Some cost \<Rightarrow>
          if f64_is_finite cost \<and> f64_lt (Fin 0) cost \<and> cost_cents cost > 0
          then [CostCentsTotal provider model (cost_cents cost)] else [])"

section \<open>Authentication\<close>

definition unauthorized :: reply where
  "unauthorized = error_reply 401 ''missing or invalid virtual key''"

definition identify :: "'c proxy_env \<Rightarrow> key_store \<Rightarrow> header_map \<Rightarrow> virtual_key option" where
  "identify E keys headers =
     (if keystore_is_empty keys then Some anonymous
      else Option.bind (bearer_token headers) (keystore_authenticate (px_crypto E) keys))"

definition rejection :: "string \<Rightarrow> effects" where
  "rejection reason = no_effects\<lparr>fx_metrics := [RejectionsTotal reason]\<rparr>"

definition authenticate ::
  "'c proxy_env \<Rightarrow> ('w, 'c) proxy_state \<Rightarrow> clocks \<Rightarrow> header_map \<Rightarrow>
     (reply + virtual_key) \<times> ('w, 'c) proxy_state \<times> effects" where
  "authenticate E st tc headers =
     (case identify E (ps_keys st) headers of
        None \<Rightarrow> (Inl unauthorized, st, rejection ''auth'')
      | Some key \<Rightarrow>
          if is_expired (px_rfc3339 E) (tc_expiry tc) key
          then (Inl (error_reply 401 ''virtual key has expired''), st, rejection ''expired'')
          else
            (case vk_rate_limit_rps key of
               None \<Rightarrow> (Inr key, st, no_effects)
             | Some rps \<Rightarrow>
                 (case rate_limiter_check (ps_rate_limiter st) (key_identifier key) rps
                         (tc_bucket_new tc) (tc_consume tc) of
                    (rl, ok) \<Rightarrow>
                      let st' = st\<lparr>ps_rate_limiter := rl\<rparr>
                      in if ok then (Inr key, st', no_effects)
                         else (Inl (error_reply 429 ''rate limit exceeded''), st', rejection ''rate_limit''))))"

section \<open>Gates\<close>

definition early_spans :: "nat \<Rightarrow> clocks \<Rightarrow> span_record list" where
  "early_spans status tc =
     [(''vaultplane.cache.hit'', SpanBool False), (''http.response.status_code'', SpanNat status),
      (''duration_ms'', SpanNat (elapsed_ms (tc_early_ms tc)))]"

definition early_rejection :: "string \<Rightarrow> nat \<Rightarrow> clocks \<Rightarrow> effects" where
  "early_rejection reason status tc = (rejection reason)\<lparr>fx_spans := early_spans status tc\<rparr>"

definition over_budget :: "('w, 'c) proxy_state \<Rightarrow> clocks \<Rightarrow> virtual_key \<Rightarrow> bool" where
  "over_budget st tc key =
     (case vk_spend_limit key of
        Some limit \<Rightarrow> \<not> spend_pre_check (ps_spend_tracker st) (key_identifier key) limit (tc_pre_check tc)
      | None \<Rightarrow> False)"

definition plugin_rejection_reply :: "'c proxy_env \<Rightarrow> reject_info \<Rightarrow> reply" where
  "plugin_rejection_reply E info =
     error_reply (if px_status_ok E (ri_status_code info) then ri_status_code info else 403) (ri_reason info)"

definition plugin_rejection_effects :: "virtual_key \<Rightarrow> plugin_rejection \<Rightarrow> clocks \<Rightarrow> effects" where
  "plugin_rejection_effects key rej tc =
     (early_rejection ''plugin'' (unat (ri_status_code (rej_info rej))) tc)
       \<lparr>fx_audit := [plugin_rejected (key_identifier key) (rej_plugin rej) (ri_reason (rej_info rej))
                       (ri_status_code (rej_info rej))]\<rparr>"

text \<open>The model scope, the budget and the plugin chain, in that order; the body goes on modified.\<close>

definition request_gates ::
  "'c proxy_env \<Rightarrow> ('w, 'c) proxy_state \<Rightarrow> clocks \<Rightarrow> virtual_key \<Rightarrow> string \<Rightarrow> string \<Rightarrow> bytes \<Rightarrow> 'w \<Rightarrow>
     (reply + bytes) \<times> effects \<times> 'w" where
  "request_gates E st tc key path virtual_model body w =
     (if \<not> allows_model key virtual_model then
        (Inl (error_reply 403 ''virtual key is not allowed to use this model''),
         early_rejection ''forbidden_model'' 403 tc, w)
      else if over_budget st tc key then
        (Inl (error_reply 402 ''spend limit exceeded for this period''),
         early_rejection ''spend_limit'' 402 tc, w)
      else
        (case run_plugins (rn_plugins (ps_runtime st)) path virtual_model body w of
           (Inl rej, w') \<Rightarrow>
             (Inl (plugin_rejection_reply E (rej_info rej)), plugin_rejection_effects key rej tc, w')
         | (Inr body', w') \<Rightarrow> (Inr body', no_effects, w')))"

section \<open>Cache\<close>

definition cache_lookup ::
  "'c proxy_env \<Rightarrow> ('w, 'c) proxy_state \<Rightarrow> string option \<Rightarrow> cached_response option \<times> ('w, 'c) proxy_state" where
  "cache_lookup E st cache_key_opt =
     (case (rn_cache (ps_runtime st), cache_key_opt) of
        (Some cache, Some k) \<Rightarrow>
          (case cache_get (px_moka E) cache k of
             (r, cache') \<Rightarrow> (r, st\<lparr>ps_runtime := (ps_runtime st)\<lparr>rn_cache := Some cache'\<rparr>\<rparr>))
      | _ \<Rightarrow> (None, st))"

definition cache_store ::
  "'c proxy_env \<Rightarrow> ('w, 'c) proxy_state \<Rightarrow> string option \<Rightarrow> cached_response \<Rightarrow> ('w, 'c) proxy_state" where
  "cache_store E st cache_key_opt cached =
     (case (rn_cache (ps_runtime st), cache_key_opt) of
        (Some cache, Some k) \<Rightarrow>
          st\<lparr>ps_runtime := (ps_runtime st)\<lparr>rn_cache := Some (cache_insert (px_moka E) cache k cached)\<rparr>\<rparr>
      | _ \<Rightarrow> st)"

definition serve_from_cache ::
  "'c proxy_env \<Rightarrow> pricing \<Rightarrow> cached_response \<Rightarrow> clocks \<Rightarrow> reply \<times> effects" where
  "serve_from_cache E pricing cached tc =
     (build_response E (cr_status cached) (cr_content_type cached) (BytesBody (cr_body cached)) ''HIT'',
      no_effects
        \<lparr>fx_spans :=
           [(''gen_ai.system'', SpanStr (cr_provider cached)),
            (''gen_ai.response.model'', SpanStr (cr_model cached)),
            (''vaultplane.provider.attempts'', SpanNat 0),
            (''http.response.status_code'', SpanNat (unat (cr_status cached))),
            (''vaultplane.cache.hit'', SpanBool True)] @
           (case cr_usage cached of
              None \<Rightarrow> []
            | Some u \<Rightarrow> usage_spans u @
                (case cost_compute pricing (cr_provider cached) (cr_model cached) u of
                   Some cost \<Rightarrow> [(''vaultplane.cost_usd'', SpanF64 cost)] | None \<Rightarrow> [])) @
           [(''duration_ms'', SpanNat (elapsed_ms (tc_early_ms tc)))],
         fx_metrics :=
           record_completion (cr_provider cached) (cr_model cached) (cr_status cached) ''hit''
             (as_secs_f64 (tc_early_total tc)) None\<rparr>)"

section \<open>Accounting\<close>

definition upstream_cost :: "('w, 'c) proxy_state \<Rightarrow> chat_response \<Rightarrow> f64 option" where
  "upstream_cost st upstream =
     Option.bind (rs_usage upstream)
       (cost_compute (rn_pricing (ps_runtime st)) (rs_provider upstream) (rs_model upstream))"

definition charge ::
  "('w, 'c) proxy_state \<Rightarrow> clocks \<Rightarrow> virtual_key \<Rightarrow> f64 option \<Rightarrow> ('w, 'c) proxy_state" where
  "charge st tc key cost =
     (case (cost, vk_spend_limit key) of
        (Some c, Some limit) \<Rightarrow>
          st\<lparr>ps_spend_tracker :=
               spend_record (ps_spend_tracker st) (key_identifier key) (sl_period limit) c (tc_record tc)\<rparr>
      | _ \<Rightarrow> st)"

definition upstream_spans :: "chat_response \<Rightarrow> span_record list" where
  "upstream_spans upstream =
     [(''gen_ai.system'', SpanStr (rs_provider upstream)),
      (''gen_ai.response.model'', SpanStr (rs_model upstream)),
      (''vaultplane.provider.attempts'', SpanNat (unat (rs_attempts upstream))),
      (''http.response.status_code'', SpanNat (unat (rs_status upstream))),
      (''vaultplane.cache.hit'', SpanBool False)]"

definition cost_spans :: "f64 option \<Rightarrow> clocks \<Rightarrow> span_record list" where
  "cost_spans cost tc =
     (case cost of Some c \<Rightarrow> [(''vaultplane.cost_usd'', SpanF64 c)] | None \<Rightarrow> []) @
     [(''duration_ms'', SpanNat (elapsed_ms (tc_dispatched tc)))]"

definition completion_effects ::
  "chat_response \<Rightarrow> span_record list \<Rightarrow> f64 option \<Rightarrow> clocks \<Rightarrow> effects" where
  "completion_effects upstream usage_attrs cost tc =
     no_effects
       \<lparr>fx_spans := upstream_spans upstream @ usage_attrs @ cost_spans cost tc,
        fx_metrics := record_completion (rs_provider upstream) (rs_model upstream) (rs_status upstream)
          ''miss'' (as_secs_f64 (tc_completed tc)) cost\<rparr>"

text \<open>Buffer a cacheable reply, store it, and answer with the buffered bytes.\<close>

definition store_and_reply ::
  "'c proxy_env \<Rightarrow> ('w, 'c) proxy_state \<Rightarrow> string option \<Rightarrow> chat_response \<Rightarrow> reply \<times> ('w, 'c) proxy_state" where
  "store_and_reply E st cache_key_opt upstream =
     (case collect_stream (rs_body upstream) of
        Inr bs \<Rightarrow>
          let cached = \<lparr>cr_status = rs_status upstream, cr_content_type = rs_content_type upstream,
                        cr_body = bs, cr_provider = rs_provider upstream, cr_model = rs_model upstream,
                        cr_usage = rs_usage upstream\<rparr>
          in (build_response E (cr_status cached) (cr_content_type cached) (BytesBody bs) ''MISS'',
              cache_store E st cache_key_opt cached)
      | Inl e \<Rightarrow> (error_reply 502 ''failed to read upstream response'', st))"

definition upstream_failure :: "core_error \<Rightarrow> clocks \<Rightarrow> reply \<times> effects" where
  "upstream_failure err tc =
     (let response = upstream_error_response err
      in (response,
          (rejection ''upstream_error'')
            \<lparr>fx_spans := [(''vaultplane.cache.hit'', SpanBool False),
               (''http.response.status_code'', SpanNat (unat (rp_status response))),
               (''duration_ms'', SpanNat (elapsed_ms (tc_dispatched tc)))]\<rparr>))"

section \<open>Chat completions\<close>

definition key_spans :: "virtual_key \<Rightarrow> string \<Rightarrow> header_map \<Rightarrow> span_record list" where
  "key_spans key virtual_model headers =
     [(''gen_ai.request.model'', SpanStr virtual_model),
      (''vaultplane.virtual_key.id'', SpanStr (key_identifier key)),
      (''vaultplane.team'', SpanStr (vk_team key)), (''vaultplane.app'', SpanStr (vk_app key)),
      (''vaultplane.env'', SpanStr (vk_env key))] @
     (case header_str headers TRACE_ID_HEADER of
        Some t \<Rightarrow> [(''vaultplane.trace_id'', SpanStr t)] | None \<Rightarrow> [])"

definition chat_success ::
  "'c proxy_env \<Rightarrow> ('w, 'c) proxy_state \<Rightarrow> clocks \<Rightarrow> virtual_key \<Rightarrow> bool \<Rightarrow> string option \<Rightarrow> chat_response \<Rightarrow>
     reply \<times> ('w, 'c) proxy_state \<times> effects" where
  "chat_success E st tc key stream cache_key_opt upstream =
     (let cost = upstream_cost st upstream;
          st' = charge st tc key cost;
          fx = completion_effects upstream (case rs_usage upstream of Some u \<Rightarrow> usage_spans u | None \<Rightarrow> []) cost tc;
          should_cache = (cache_key_opt \<noteq> None \<and> rn_cache (ps_runtime st) \<noteq> None \<and> rs_status upstream = 200)
      in if should_cache then (case store_and_reply E st' cache_key_opt upstream of (r, st'') \<Rightarrow> (r, st'', fx))
         else
           let body =
                 (if stream
                  then ObservedBody
                         (observer_new (rn_pricing (ps_runtime st)) (key_identifier key) (vk_spend_limit key)
                            (rs_provider upstream) (rs_model upstream)) (rs_body upstream)
                  else StreamBody (rs_body upstream))
           in (build_response E (rs_status upstream) (rs_content_type upstream) body ''MISS'', st', fx))"

definition chat_upstream ::
  "'c proxy_env \<Rightarrow> ('w, 'c) proxy_state \<Rightarrow> clocks \<Rightarrow> virtual_key \<Rightarrow> string \<Rightarrow> bool \<Rightarrow> string option \<Rightarrow> bytes \<Rightarrow> 'w \<Rightarrow>
     reply exec \<times> ('w, 'c) proxy_state \<times> effects \<times> 'w" where
  "chat_upstream E st tc key virtual_model stream cache_key_opt body w =
     (case ds_chat (rn_connector (ps_runtime st))
             \<lparr>cq_model = virtual_model, cq_stream = stream, cq_body = body\<rparr> w of
        (result, evs, w') \<Rightarrow>
          let fx0 = no_effects\<lparr>fx_audit := evs\<rparr>
          in case result of
               Ret (Inr upstream) \<Rightarrow>
                 (case chat_success E st tc key stream cache_key_opt upstream of
                    (r, st', fx) \<Rightarrow> (Ret r, st', fx_append fx0 fx, w'))
             | Ret (Inl err) \<Rightarrow>
                 (case upstream_failure err tc of (r, fx) \<Rightarrow> (Ret r, st, fx_append fx0 fx, w'))
             | Panic \<Rightarrow> (Panic, st, fx0, w'))"

definition chat_completions ::
  "'c proxy_env \<Rightarrow> ('w, 'c) proxy_state \<Rightarrow> clocks \<Rightarrow> virtual_key \<Rightarrow> header_map \<Rightarrow> bytes \<Rightarrow> 'w \<Rightarrow>
     reply exec \<times> ('w, 'c) proxy_state \<times> effects \<times> 'w" where
  "chat_completions E st tc key headers body w =
     (let meta = unwrap_or (px_chat_meta E body) \<lparr>meta_model = None, meta_stream = False\<rparr>;
          virtual_model = unwrap_or (meta_model meta) [];
          fx0 = no_effects\<lparr>fx_spans := key_spans key virtual_model headers\<rparr>
      in case request_gates E st tc key ''/v1/chat/completions'' virtual_model body w of
           (Inl r, fx, w') \<Rightarrow> (Ret r, st, fx_append fx0 fx, w')
         | (Inr body', fx, w') \<Rightarrow>
             let cache_key_opt =
                   (if \<not> meta_stream meta
                    then Some (cache_key_for (px_crypto E) (key_identifier key) virtual_model
                                 (header_str headers IDEMPOTENCY_HEADER) body')
                    else None)
             in case cache_lookup E st cache_key_opt of
                  (Some cached, st') \<Rightarrow>
                    (case serve_from_cache E (rn_pricing (ps_runtime st')) cached tc of
                       (r, fx') \<Rightarrow> (Ret r, st', fx_append fx0 fx', w'))
                | (None, st') \<Rightarrow>
                    (case chat_upstream E st' tc key virtual_model (meta_stream meta) cache_key_opt body' w' of
                       (r, st'', fx', w'') \<Rightarrow> (r, st'', fx_append fx0 fx', w'')))"

section \<open>Embeddings\<close>

definition embeddings_success ::
  "'c proxy_env \<Rightarrow> ('w, 'c) proxy_state \<Rightarrow> clocks \<Rightarrow> virtual_key \<Rightarrow> string option \<Rightarrow> chat_response \<Rightarrow>
     reply \<times> ('w, 'c) proxy_state \<times> effects" where
  "embeddings_success E st tc key cache_key_opt upstream =
     (let cost = upstream_cost st upstream;
          st' = charge st tc key cost;
          fx = completion_effects upstream
                 (case rs_usage upstream of
                    Some u \<Rightarrow> [(''gen_ai.usage.input_tokens'', SpanNat (unat (prompt_tokens u)))] | None \<Rightarrow> [])
                 cost tc;
          cacheable = (rn_cache (ps_runtime st) \<noteq> None \<and> rs_status upstream = 200)
      in if cacheable then (case store_and_reply E st' cache_key_opt upstream of (r, st'') \<Rightarrow> (r, st'', fx))
         else (build_response E (rs_status upstream) (rs_content_type upstream) (StreamBody (rs_body upstream))
                 ''MISS'', st', fx))"

definition embeddings_upstream ::
  "'c proxy_env \<Rightarrow> ('w, 'c) proxy_state \<Rightarrow> clocks \<Rightarrow> virtual_key \<Rightarrow> string \<Rightarrow> string option \<Rightarrow> bytes \<Rightarrow> 'w \<Rightarrow>
     reply exec \<times> ('w, 'c) proxy_state \<times> effects \<times> 'w" where
  "embeddings_upstream E st tc key virtual_model cache_key_opt body w =
     (case ds_embeddings (rn_connector (ps_runtime st)) \<lparr>eq_model = virtual_model, eq_body = body\<rparr> w of
        (result, evs, w') \<Rightarrow>
          let fx0 = no_effects\<lparr>fx_audit := evs\<rparr>
          in case result of
               Ret (Inr upstream) \<Rightarrow>
                 (case embeddings_success E st tc key cache_key_opt upstream of
                    (r, st', fx) \<Rightarrow> (Ret r, st', fx_append fx0 fx, w'))
             | Ret (Inl err) \<Rightarrow>
                 (case upstream_failure err tc of (r, fx) \<Rightarrow> (Ret r, st, fx_append fx0 fx, w'))
             | Panic \<Rightarrow> (Panic, st, fx0, w'))"

definition embeddings ::
  "'c proxy_env \<Rightarrow> ('w, 'c) proxy_state \<Rightarrow> clocks \<Rightarrow> virtual_key \<Rightarrow> header_map \<Rightarrow> bytes \<Rightarrow> 'w \<Rightarrow>
     reply exec \<times> ('w, 'c) proxy_state \<times> effects \<times> 'w" where
  "embeddings E st tc key headers body w =
     (let meta = unwrap_or (px_embeddings_meta E body) \<lparr>emeta_model = None\<rparr>;
          virtual_model = unwrap_or (emeta_model meta) [];
          fx0 = no_effects\<lparr>fx_spans := key_spans key virtual_model headers\<rparr>
      in case request_gates E st tc key ''/v1/embeddings'' virtual_model body w of
           (Inl r, fx, w') \<Rightarrow> (Ret r, st, fx_append fx0 fx, w')
         | (Inr body', fx, w') \<Rightarrow>
             let cache_key_opt =
                   Some (cache_key_for (px_crypto E) (key_identifier key) virtual_model
                           (header_str headers IDEMPOTENCY_HEADER) body')
             in case cache_lookup E st cache_key_opt of
                  (Some cached, st') \<Rightarrow>
                    (case serve_from_cache E (rn_pricing (ps_runtime st')) cached tc of
                       (r, fx') \<Rightarrow> (Ret r, st', fx_append fx0 fx', w'))
                | (None, st') \<Rightarrow>
                    (case embeddings_upstream E st' tc key virtual_model cache_key_opt body' w' of
                       (r, st'', fx', w'') \<Rightarrow> (r, st'', fx_append fx0 fx', w'')))"

section \<open>The router\<close>

datatype proxy_route = ChatCompletions | Embeddings | ListModels | Fallback

text \<open>Every route, the fallback included, sits behind the authentication layer.\<close>

definition proxy_handle ::
  "'c proxy_env \<Rightarrow> ('w, 'c) proxy_state \<Rightarrow> clocks \<Rightarrow> proxy_route \<Rightarrow> header_map \<Rightarrow> bytes \<Rightarrow> 'w \<Rightarrow>
     reply exec \<times> ('w, 'c) proxy_state \<times> effects \<times> 'w" where
  "proxy_handle E st tc r headers body w =
     (case authenticate E st tc headers of
        (Inl rep, st', fx) \<Rightarrow> (Ret rep, st', fx, w)
      | (Inr key, st', fx) \<Rightarrow>
          (case r of
             ChatCompletions \<Rightarrow> chat_completions E st' tc key headers body w
           | Embeddings \<Rightarrow> embeddings E st' tc key headers body w
           | ListModels \<Rightarrow> (Ret (proxy_list_models st'), st', fx, w)
           | Fallback \<Rightarrow> (Ret fallback_reply, st', fx, w)))"

end
