(* ===== verification/Proxy_Safety.thy ===== *)
theory Proxy_Safety
  imports Proxy
begin

text \<open>
  What the proxy handlers guarantee, on top of their model in \<open>Proxy\<close>: the gates and the status
  each answers with, what a request may touch of the shared state, the invariants it keeps, and
  the separation of tenants in the response cache.
\<close>

section \<open>Frame\<close>

text \<open>
  What serving a request of the tenant \<open>i\<close> may change: that tenant's limiter and ledger entries and
  the contents of the cache; neither the key store nor the rest of the runtime.
\<close>

definition tenant_frame :: "string \<Rightarrow> ('w, 'c) proxy_state \<Rightarrow> ('w, 'c) proxy_state \<Rightarrow> bool" where
  "tenant_frame i st st' \<longleftrightarrow>
     ps_keys st' = ps_keys st \<and>
     ps_runtime st' = (ps_runtime st)\<lparr>rn_cache := rn_cache (ps_runtime st')\<rparr> \<and>
     (\<forall>k. k \<noteq> i \<longrightarrow> tget (ps_rate_limiter st') k = tget (ps_rate_limiter st) k \<and>
        tget (ps_spend_tracker st') k = tget (ps_spend_tracker st) k)"

lemma tenant_frame_refl [simp]: "tenant_frame i st st"
  by (simp add: tenant_frame_def)

lemma tenant_frame_trans: "tenant_frame i a b \<Longrightarrow> tenant_frame i b c \<Longrightarrow> tenant_frame i a c"
  unfolding tenant_frame_def by (cases "ps_runtime a"; cases "ps_runtime b"; cases "ps_runtime c") simp

lemma charge_frame: "tenant_frame (key_identifier key) st (charge st tc key cost)"
  by (simp add: charge_def tenant_frame_def tget_spend_record split: option.split)

lemma cache_lookup_frame: "cache_lookup E st ck = (r, st') \<Longrightarrow> tenant_frame i st st'"
  by (auto simp: cache_lookup_def tenant_frame_def split: option.splits prod.splits)

lemma cache_store_frame: "tenant_frame i st (cache_store E st ck v)"
  by (simp add: cache_store_def tenant_frame_def split: option.split)

lemma store_and_reply_frame: "store_and_reply E st ck up = (r, st') \<Longrightarrow> tenant_frame i st st'"
  by (auto simp: store_and_reply_def Let_def intro: cache_store_frame split: sum.splits)

lemma chat_success_frame:
  "chat_success E st tc key stream ck up = (r, st', fx) \<Longrightarrow> tenant_frame (key_identifier key) st st'"
  by (auto simp: chat_success_def Let_def intro: charge_frame
      tenant_frame_trans [OF charge_frame store_and_reply_frame] split: if_splits prod.splits)

lemma embeddings_success_frame:
  "embeddings_success E st tc key ck up = (r, st', fx) \<Longrightarrow> tenant_frame (key_identifier key) st st'"
  by (auto simp: embeddings_success_def Let_def intro: charge_frame
      tenant_frame_trans [OF charge_frame store_and_reply_frame] split: if_splits prod.splits)

lemma chat_upstream_frame:
  "chat_upstream E st tc key vm stream ck body w = (r, st', fx, w') \<Longrightarrow> tenant_frame (key_identifier key) st st'"
  by (auto simp: chat_upstream_def Let_def intro: chat_success_frame
      split: prod.splits exec.splits sum.splits)

lemma embeddings_upstream_frame:
  "embeddings_upstream E st tc key vm ck body w = (r, st', fx, w') \<Longrightarrow> tenant_frame (key_identifier key) st st'"
  by (auto simp: embeddings_upstream_def Let_def intro: embeddings_success_frame
      split: prod.splits exec.splits sum.splits)

lemma chat_completions_frame:
  "chat_completions E st tc key headers body w = (r, st', fx, w') \<Longrightarrow> tenant_frame (key_identifier key) st st'"
  by (auto simp: chat_completions_def Let_def split: prod.splits sum.splits option.splits
      dest: cache_lookup_frame intro: tenant_frame_trans [OF cache_lookup_frame chat_upstream_frame])

lemma embeddings_frame:
  "embeddings E st tc key headers body w = (r, st', fx, w') \<Longrightarrow> tenant_frame (key_identifier key) st st'"
  by (auto simp: embeddings_def Let_def split: prod.splits sum.splits option.splits
      dest: cache_lookup_frame intro: tenant_frame_trans [OF cache_lookup_frame embeddings_upstream_frame])

lemma authenticate_frame:
  "authenticate E st tc headers = (r, st', fx) \<Longrightarrow> identify E (ps_keys st) headers = Some key \<Longrightarrow>
     tenant_frame (key_identifier key) st st'"
  using rate_limiter_check_entry [of "ps_rate_limiter st" "key_identifier key"]
  by (auto simp: authenticate_def Let_def tenant_frame_def split: if_splits option.splits prod.splits)
    (metis fst_conv)+

lemma authenticate_key:
  "authenticate E st tc headers = (Inr key, st', fx) \<Longrightarrow> identify E (ps_keys st) headers = Some key"
  by (auto simp: authenticate_def Let_def split: if_splits option.splits prod.splits)

lemma handler_frame:
  assumes "proxy_handle E st tc r headers body w = (res, st', fx, w')"
    and "identify E (ps_keys st) headers = Some key"
  shows "tenant_frame (key_identifier key) st st'"
proof (cases "authenticate E st tc headers")
  case (fields a st1 fx1)
  note f = authenticate_frame [OF fields assms(2)]
  show ?thesis
  proof (cases a)
    case (Inl rep)
    with fields assms(1) f show ?thesis by (simp add: proxy_handle_def)
  next
    case (Inr key')
    with fields assms(2) have "key' = key" by (auto dest: authenticate_key)
    with Inr fields assms(1) f show ?thesis
      by (auto simp: proxy_handle_def split: proxy_route.splits
          dest!: chat_completions_frame embeddings_frame intro: tenant_frame_trans)
  qed
qed

section \<open>Invariants\<close>

text \<open>
  The key store, the limiter and the ledger are in the states their own operations produce. The totals of the
  ledger are amounts when the prices charged are: prices are read from files and from the Control Node as any
  number, so that part holds under the condition \<open>b\<close> that those in use are finite and not negative.
\<close>

definition proxy_ok :: "bool \<Rightarrow> ('w, 'c) proxy_state \<Rightarrow> bool" where
  "proxy_ok b st \<longleftrightarrow> keystore_wf (ps_keys st) \<and> rate_limiter_ok (ps_rate_limiter st) \<and> table_wf (ps_spend_tracker st) \<and>
     (b \<longrightarrow> spend_tracker_ok (ps_spend_tracker st) \<and> pricing_ok (rn_pricing (ps_runtime st)))"

lemma charge_ok: "proxy_ok b st \<Longrightarrow> (\<And>c. b \<Longrightarrow> cost = Some c \<Longrightarrow> f64_amount c) \<Longrightarrow> proxy_ok b (charge st tc key cost)"
  by (simp add: charge_def proxy_ok_def spend_tracker_ok_record split: option.split)

lemma upstream_cost_amount: "proxy_ok True st \<Longrightarrow> upstream_cost st up = Some c \<Longrightarrow> f64_amount c"
  by (auto simp: proxy_ok_def upstream_cost_def bind_eq_Some_conv intro: cost_compute_amount)

lemma charge_upstream_ok: "proxy_ok b st \<Longrightarrow> proxy_ok b (charge st tc key (upstream_cost st up))"
  by (rule charge_ok) (auto intro: upstream_cost_amount)

lemma cache_lookup_ok: "cache_lookup E st ck = (r, st') \<Longrightarrow> proxy_ok b st \<Longrightarrow> proxy_ok b st'"
  by (auto simp: cache_lookup_def proxy_ok_def split: option.splits prod.splits)

lemma store_and_reply_ok: "store_and_reply E st ck up = (r, st') \<Longrightarrow> proxy_ok b st \<Longrightarrow> proxy_ok b st'"
  by (auto simp: store_and_reply_def cache_store_def Let_def proxy_ok_def split: sum.splits option.splits)

lemma chat_upstream_ok:
  "chat_upstream E st tc key vm stream ck body w = (r, st', fx, w') \<Longrightarrow> proxy_ok b st \<Longrightarrow> proxy_ok b st'"
  by (auto simp: chat_upstream_def chat_success_def Let_def intro: charge_upstream_ok
      store_and_reply_ok [OF _ charge_upstream_ok] split: prod.splits exec.splits sum.splits if_splits)

lemma embeddings_upstream_ok:
  "embeddings_upstream E st tc key vm ck body w = (r, st', fx, w') \<Longrightarrow> proxy_ok b st \<Longrightarrow> proxy_ok b st'"
  by (auto simp: embeddings_upstream_def embeddings_success_def Let_def intro: charge_upstream_ok
      store_and_reply_ok [OF _ charge_upstream_ok] split: prod.splits exec.splits sum.splits if_splits)

lemma chat_completions_ok:
  "chat_completions E st tc key headers body w = (r, st', fx, w') \<Longrightarrow> proxy_ok b st \<Longrightarrow> proxy_ok b st'"
  by (auto simp: chat_completions_def Let_def split: prod.splits sum.splits option.splits
      dest: cache_lookup_ok chat_upstream_ok)

lemma embeddings_ok:
  "embeddings E st tc key headers body w = (r, st', fx, w') \<Longrightarrow> proxy_ok b st \<Longrightarrow> proxy_ok b st'"
  by (auto simp: embeddings_def Let_def split: prod.splits sum.splits option.splits
      dest: cache_lookup_ok embeddings_upstream_ok)

lemma authenticate_ok: "authenticate E st tc headers = (r, st', fx) \<Longrightarrow> proxy_ok b st \<Longrightarrow> proxy_ok b st'"
  using rate_limiter_ok_check [of "ps_rate_limiter st"]
  by (auto simp: authenticate_def Let_def proxy_ok_def split: if_splits option.splits prod.splits)
    (metis fst_conv)+

lemma handler_ok:
  "proxy_handle E st tc r headers body w = (res, st', fx, w') \<Longrightarrow> proxy_ok b st \<Longrightarrow> proxy_ok b st'"
  by (auto simp: proxy_handle_def split: prod.splits sum.splits proxy_route.splits
      dest: authenticate_ok chat_completions_ok embeddings_ok)

section \<open>Admission\<close>

definition request_model :: "'c proxy_env \<Rightarrow> proxy_route \<Rightarrow> bytes \<Rightarrow> string option" where
  "request_model E r body =
     (case r of
        ChatCompletions \<Rightarrow> Some (unwrap_or (Option.bind (px_chat_meta E body) meta_model) [])
      | Embeddings \<Rightarrow> Some (unwrap_or (Option.bind (px_embeddings_meta E body) emeta_model) [])
      | _ \<Rightarrow> None)"

definition rate_limited :: "('w, 'c) proxy_state \<Rightarrow> clocks \<Rightarrow> virtual_key \<Rightarrow> bool" where
  "rate_limited st tc key =
     (case vk_rate_limit_rps key of
        None \<Rightarrow> False
      | Some rps \<Rightarrow> \<not> snd (rate_limiter_check (ps_rate_limiter st) (key_identifier key) rps
                              (tc_bucket_new tc) (tc_consume tc)))"

definition limiter_after :: "('w, 'c) proxy_state \<Rightarrow> clocks \<Rightarrow> virtual_key \<Rightarrow> rate_limiter" where
  "limiter_after st tc key =
     (case vk_rate_limit_rps key of
        None \<Rightarrow> ps_rate_limiter st
      | Some rps \<Rightarrow> fst (rate_limiter_check (ps_rate_limiter st) (key_identifier key) rps
                          (tc_bucket_new tc) (tc_consume tc)))"

text \<open>The contract of the gates: the status and the rejection label, or admission.\<close>

definition admission ::
  "'c proxy_env \<Rightarrow> ('w, 'c) proxy_state \<Rightarrow> clocks \<Rightarrow> proxy_route \<Rightarrow> header_map \<Rightarrow> bytes \<Rightarrow> (u16 \<times> string) option" where
  "admission E st tc r headers body =
     (case identify E (ps_keys st) headers of
        None \<Rightarrow> Some (401, ''auth'')
      | Some key \<Rightarrow>
          if is_expired (px_rfc3339 E) (tc_expiry tc) key then Some (401, ''expired'')
          else if rate_limited st tc key then Some (429, ''rate_limit'')
          else
            (case request_model E r body of
               None \<Rightarrow> None
             | Some vm \<Rightarrow>
                 if \<not> allows_model key vm then Some (403, ''forbidden_model'')
                 else if over_budget st tc key then Some (402, ''spend_limit'')
                 else None))"

lemma chat_model: "meta_model (unwrap_or m \<lparr>meta_model = None, meta_stream = False\<rparr>) = Option.bind m meta_model"
  by (simp add: unwrap_or_def split: option.split)

lemma embeddings_model: "emeta_model (unwrap_or m \<lparr>emeta_model = None\<rparr>) = Option.bind m emeta_model"
  by (simp add: unwrap_or_def split: option.split)

lemma over_budget_limiter [simp]: "over_budget (st\<lparr>ps_rate_limiter := rl\<rparr>) tc key = over_budget st tc key"
  by (simp add: over_budget_def split: option.split)

lemma authenticate_cases:
  "authenticate E st tc headers =
     (case identify E (ps_keys st) headers of
        None \<Rightarrow> (Inl unauthorized, st, rejection ''auth'')
      | Some key \<Rightarrow>
          if is_expired (px_rfc3339 E) (tc_expiry tc) key
          then (Inl (error_reply 401 ''virtual key has expired''), st, rejection ''expired'')
          else
            let st' = st\<lparr>ps_rate_limiter := limiter_after st tc key\<rparr>
            in if rate_limited st tc key
               then (Inl (error_reply 429 ''rate limit exceeded''), st', rejection ''rate_limit'')
               else (Inr key, st', no_effects))"
  by (simp add: authenticate_def rate_limited_def limiter_after_def Let_def split_def split: option.split)

lemma effects_simps [simp]:
  "fx_metrics no_effects = []" "fx_metrics (fx_append a b) = fx_metrics a @ fx_metrics b"
  "fx_metrics (rejection reason) = [RejectionsTotal reason]"
  "fx_metrics (early_rejection reason n tc) = [RejectionsTotal reason]"
  by (simp_all add: no_effects_def fx_append_def rejection_def early_rejection_def)

lemma error_reply_status [simp]: "rp_status (error_reply s m) = s"
  by (simp add: error_reply_def)

definition hit_reply :: "reply \<Rightarrow> bool" where
  "hit_reply rep \<longleftrightarrow> (CACHE_HEADER, ''HIT'') \<in> set (rp_headers rep)"

lemma hit_reply_error [simp]: "\<not> hit_reply (error_reply s m)"
  by (simp add: hit_reply_def error_reply_def CACHE_HEADER_def)

text \<open>The observers of streamed replies live on after the handler returns.\<close>

definition opened_streams :: "reply exec \<Rightarrow> usage_observer list" where
  "opened_streams res =
     (case res of
        Ret rep \<Rightarrow> (case rp_body rep of ObservedBody ob body \<Rightarrow> [ob] | _ \<Rightarrow> [])
      | Panic \<Rightarrow> [])"

lemma opened_error [simp]: "opened_streams (Ret (error_reply s m)) = []"
  by (simp add: opened_streams_def error_reply_def)

lemma opened_bytes [simp]: "opened_streams (Ret (build_response E s ct (BytesBody b) label)) = []"
  by (simp add: opened_streams_def build_response_def error_reply_def)

lemma refused_reply:
  assumes "admission E st tc r headers body = Some (status, label)"
  shows "\<exists>rep st' fx. proxy_handle E st tc r headers body w = (Ret rep, st', fx, w) \<and>
     rp_status rep = status \<and> \<not> hit_reply rep \<and> opened_streams (Ret rep) = [] \<and> st'\<lparr>ps_rate_limiter := ps_rate_limiter st\<rparr> = st \<and> fx_metrics fx = [RejectionsTotal label]"
  using assms
  by (auto simp: admission_def proxy_handle_def authenticate_cases unauthorized_def request_model_def
      chat_completions_def embeddings_def request_gates_def chat_model embeddings_model Let_def
      split: option.splits if_splits proxy_route.splits)

section \<open>After the gates\<close>

text \<open>The reply a stored response was first delivered as, and the one a hit delivers.\<close>

definition reply_of :: "'c proxy_env \<Rightarrow> cached_response \<Rightarrow> string \<Rightarrow> reply" where
  "reply_of E v label = build_response E (cr_status v) (cr_content_type v) (BytesBody (cr_body v)) label"

definition request_path :: "proxy_route \<Rightarrow> string" where
  "request_path r = (case r of Embeddings \<Rightarrow> ''/v1/embeddings'' | _ \<Rightarrow> ''/v1/chat/completions'')"

definition request_stream :: "'c proxy_env \<Rightarrow> proxy_route \<Rightarrow> bytes \<Rightarrow> bool" where
  "request_stream E r body \<longleftrightarrow> r = ChatCompletions \<and> (case px_chat_meta E body of Some m \<Rightarrow> meta_stream m | None \<Rightarrow> False)"

text \<open>The key a passed request looks up and stores under.\<close>

definition request_cache_key ::
  "'c proxy_env \<Rightarrow> virtual_key \<Rightarrow> proxy_route \<Rightarrow> string \<Rightarrow> bool \<Rightarrow> header_map \<Rightarrow> bytes \<Rightarrow> string option" where
  "request_cache_key E key r vm stream headers body' =
     (if stream then None
      else Some (cache_key_for (px_crypto E) (key_identifier key) vm (header_str headers IDEMPOTENCY_HEADER) body'))"

text \<open>Both handlers after their gates: the cache, then the route's upstream call.\<close>

definition upstream_of ::
  "'c proxy_env \<Rightarrow> ('w, 'c) proxy_state \<Rightarrow> clocks \<Rightarrow> virtual_key \<Rightarrow> proxy_route \<Rightarrow> string \<Rightarrow> bool \<Rightarrow> string option \<Rightarrow>
     bytes \<Rightarrow> 'w \<Rightarrow> reply exec \<times> ('w, 'c) proxy_state \<times> effects \<times> 'w" where
  "upstream_of E st tc key r vm stream ck body w =
     (if r = Embeddings then embeddings_upstream E st tc key vm ck body w
      else chat_upstream E st tc key vm stream ck body w)"

lemma stream_meta:
  "meta_stream (unwrap_or m \<lparr>meta_model = None, meta_stream = False\<rparr>) = (case m of Some x \<Rightarrow> meta_stream x | None \<Rightarrow> False)"
  by (simp add: unwrap_or_def split: option.split)

text \<open>
  An admitted request for a model: the plugin chain's verdict, the cache hit, or the upstream
  call. This is the case analysis the properties below rest on.
\<close>

lemma admitted_cases:
  assumes adm: "admission E st tc r headers body = None" and vm: "request_model E r body = Some vm"
    and h: "proxy_handle E st tc r headers body w = (res, st', fx, w')"
  obtains (rejected) key st1 rej where
      "identify E (ps_keys st) headers = Some key"
      "run_plugins (rn_plugins (ps_runtime st)) (request_path r) vm body w = (Inl rej, w')"
      "res = Ret (plugin_rejection_reply E (rej_info rej))" "st' = st\<lparr>ps_rate_limiter := st1\<rparr>"
  | (hit) key rl body' c ck where
      "identify E (ps_keys st) headers = Some key"
      "run_plugins (rn_plugins (ps_runtime st)) (request_path r) vm body w = (Inr body', w')"
      "ck = request_cache_key E key r vm (request_stream E r body) headers body'"
      "cache_lookup E (st\<lparr>ps_rate_limiter := rl\<rparr>) ck = (Some c, st')"
      "res = Ret (reply_of E c ''HIT'')"
  | (miss) key rl body' w1 st2 fx2 ck where
      "identify E (ps_keys st) headers = Some key"
      "run_plugins (rn_plugins (ps_runtime st)) (request_path r) vm body w = (Inr body', w1)"
      "ck = request_cache_key E key r vm (request_stream E r body) headers body'"
      "cache_lookup E (st\<lparr>ps_rate_limiter := rl\<rparr>) ck = (None, st2)"
      "upstream_of E st2 tc key r vm (request_stream E r body) ck body' w1 = (res, st', fx2, w')"
proof -
  obtain key rl where auth: "authenticate E st tc headers = (Inr key, st\<lparr>ps_rate_limiter := rl\<rparr>, no_effects)"
    and gates: "allows_model key vm" "\<not> over_budget st tc key"
    using adm vm by (auto simp: admission_def authenticate_cases Let_def split: option.splits if_splits)
  note key = authenticate_key [OF auth]
  obtain a w1 where pl: "run_plugins (rn_plugins (ps_runtime st)) (request_path r) vm body w = (a, w1)"
    by fastforce
  show ?thesis
  proof (cases a)
    case (Inl rej)
    with pl gates h auth vm have "res = Ret (plugin_rejection_reply E (rej_info rej))"
      "st' = st\<lparr>ps_rate_limiter := rl\<rparr>" "w' = w1"
      by (auto simp: proxy_handle_def request_model_def request_path_def chat_completions_def embeddings_def
          chat_model embeddings_model request_gates_def Let_def split: proxy_route.splits)
    with pl Inl key show ?thesis by (intro rejected) simp_all
  next
    case (Inr body')
    define ck where "ck = request_cache_key E key r vm (request_stream E r body) headers body'"
    obtain hitc st2 where lk: "cache_lookup E (st\<lparr>ps_rate_limiter := rl\<rparr>) ck = (hitc, st2)" by fastforce
    have pl': "run_plugins (rn_plugins (ps_runtime st)) (request_path r) vm body w = (Inr body', w1)"
      using pl Inr by simp
    show ?thesis
    proof (cases hitc)
      case (Some c)
      with pl' gates h auth vm lk
      have "res = Ret (reply_of E c ''HIT'')"
        "st' = st2" "w' = w1"
        by (auto simp: proxy_handle_def request_model_def request_path_def chat_completions_def embeddings_def
            chat_model embeddings_model stream_meta request_gates_def Let_def serve_from_cache_def ck_def reply_of_def
            request_cache_key_def request_stream_def split: proxy_route.splits if_splits option.splits)
      with hit [OF key _ ck_def] pl' lk Some show ?thesis by simp
    next
      case None
      with pl' gates h auth vm lk have "\<exists>fx2. upstream_of E st2 tc key r vm (request_stream E r body) ck body' w1 = (res, st', fx2, w')"
        by (auto simp: proxy_handle_def request_model_def request_path_def chat_completions_def embeddings_def
            chat_model embeddings_model stream_meta request_gates_def Let_def ck_def upstream_of_def
            request_cache_key_def request_stream_def split: proxy_route.splits if_splits option.splits prod.splits)
      with miss [OF key pl' ck_def] lk None show ?thesis by blast
    qed
  qed
qed

text \<open>An idempotency key is shared by the endpoints: neither the endpoint nor the body enters the cache key.\<close>

lemma idempotency_key_crosses_endpoints:
  "header_str headers IDEMPOTENCY_HEADER = Some k \<Longrightarrow>
     request_cache_key E key ChatCompletions vm False headers body =
     request_cache_key E key Embeddings vm False headers body'"
  by (simp add: request_cache_key_def cache_key_for_def)

section \<open>A concrete gateway\<close>

text \<open>
  For the witnesses: one key with the token \<open>t\<close>, one upstream that answers \<open>hi\<close> and counts its
  calls in the world, a cache that is an association list, and a digest that is the identity.
\<close>

definition example_moka :: "(string \<times> cached_response) list moka" where
  "example_moka = \<lparr>moka_build = (\<lambda>_ _ _. []), moka_get = (\<lambda>c k. (map_of c k, c)),
     moka_insert = (\<lambda>c k v. (k, v) # filter (\<lambda>(k', _). k' \<noteq> k) c)\<rparr>"

definition example_crypto :: crypto where
  "example_crypto = \<lparr>sha256 = (\<lambda>b. b), hmac_sha256_mac = (\<lambda>k b. k @ b), hex_encode = (\<lambda>b. b),
     url_safe_no_pad = (\<lambda>b. b)\<rparr>"

definition example_env :: "(string \<times> cached_response) list proxy_env" where
  "example_env = \<lparr>px_json = empty_object_serde, px_crypto = example_crypto, px_moka = example_moka,
     px_rfc3339 = (\<lambda>_. None), px_chat_meta = (\<lambda>_. Some \<lparr>meta_model = Some ''m'', meta_stream = False\<rparr>),
     px_embeddings_meta = (\<lambda>_. None), px_status_ok = (\<lambda>s. 100 \<le> s \<and> s < 1000), px_header_ok = (\<lambda>_. True)\<rparr>"

definition example_upstream :: chat_response where
  "example_upstream = \<lparr>rs_status = 200, rs_content_type = None, rs_body = [Inr ''hi''], rs_provider = ''openai'',
     rs_model = ''m'', rs_usage = None, rs_attempts = 1\<rparr>"

definition example_key :: virtual_key where
  "example_key = anonymous\<lparr>vk_id := ''vp_a'', vk_hash := ''t''\<rparr>"

definition example_state :: "(nat, (string \<times> cached_response) list) proxy_state" where
  "example_state = \<lparr>ps_runtime =
      \<lparr>rn_connector = \<lparr>ds_chat = (\<lambda>_ w. (Ret (Inr example_upstream), [], Suc w)),
         ds_embeddings = (\<lambda>_ w. (Ret (Inr example_upstream), [], Suc w)), ds_reachable = (\<lambda>_. True)\<rparr>,
       rn_pricing = pricing_default, rn_cache = Some [], rn_plugins = [], rn_models = []\<rparr>,
     ps_keys = keystore_new [example_key], ps_rate_limiter = [], ps_spend_tracker = []\<rparr>"

definition example_utc :: utc where
  "example_utc = \<lparr>utc_instant = 0, unix_timestamp = 0, utc_year = 1970, utc_month = 1, utc_iso_week = 1\<rparr>"

definition example_clocks :: clocks where
  "example_clocks = \<lparr>tc_expiry = example_utc, tc_bucket_new = 0, tc_consume = 0, tc_pre_check = example_utc,
     tc_early_ms = 0, tc_early_total = 0, tc_dispatched = 0, tc_completed = 0, tc_record = example_utc\<rparr>"

definition example_headers :: header_map where
  "example_headers = [(''authorization'', ''Bearer t'')]"

definition example_cached :: cached_response where
  "example_cached = \<lparr>cr_status = 200, cr_content_type = None, cr_body = ''hi'', cr_provider = ''openai'',
     cr_model = ''m'', cr_usage = None\<rparr>"

lemmas example_defs = example_moka_def example_crypto_def example_env_def example_upstream_def example_key_def
  example_state_def example_utc_def example_clocks_def example_headers_def example_cached_def

lemma example_moka_law: "moka_law example_moka set"
  by (auto simp: moka_law_def example_moka_def dest: map_of_SomeD)

lemma example_identify:
  "identify example_env (keystore_new [example_key]) example_headers = Some example_key"
  by code_simp

section \<open>Properties of one request\<close>

text \<open>
  C1. Refusals: a request without a known key, with an expired key, over its rate limit, for a model
  outside its scope or over its budget gets exactly that status, checked in this order. Nothing
  outside is reached (no plugin, no provider: the world is unchanged), nothing but the tenant's
  token bucket changes, and one rejection with the matching label is counted.
\<close>

theorem proxy_refuses:
  assumes "admission E st tc r headers body = Some (status, label)"
  shows "\<exists>rep st' fx. proxy_handle E st tc r headers body w = (Ret rep, st', fx, w) \<and> rp_status rep = status \<and>
     st'\<lparr>ps_rate_limiter := ps_rate_limiter st\<rparr> = st \<and> fx_metrics fx = [RejectionsTotal label]"
  using refused_reply [OF assms, of w] by blast

theorem proxy_refuses_witness:
  "\<exists>rep st' fx. proxy_handle example_env example_state example_clocks ChatCompletions [] ''{}'' 0 =
     (Ret rep, st', fx, 0) \<and> rp_status rep = 401 \<and>
     st'\<lparr>ps_rate_limiter := ps_rate_limiter example_state\<rparr> = example_state \<and>
     fx_metrics fx = [RejectionsTotal ''auth'']"
  by (rule proxy_refuses) code_simp

text \<open>
  C2. Confinement: whatever the outcome, serving a request changes the limiter and ledger entries of
  the authenticated tenant and the cache contents only; an unauthenticated request changes nothing.
\<close>

theorem proxy_confined:
  "case proxy_handle E st tc r headers body w of (res, st', fx, w') \<Rightarrow>
     (case identify E (ps_keys st) headers of
        None \<Rightarrow> st' = st
      | Some key \<Rightarrow> tenant_frame (key_identifier key) st st')"
proof (cases "identify E (ps_keys st) headers")
  case None
  then show ?thesis by (simp add: proxy_handle_def authenticate_cases)
next
  case (Some key)
  then show ?thesis by (auto intro: handler_frame split: prod.split)
qed

lemma upstream_world:
  "upstream_of E st tc key r vm stream ck body w = (res, st', fx, w') \<Longrightarrow>
     w' = (case r of
             Embeddings \<Rightarrow> snd (snd (ds_embeddings (rn_connector (ps_runtime st)) \<lparr>eq_model = vm, eq_body = body\<rparr> w))
           | _ \<Rightarrow> snd (snd (ds_chat (rn_connector (ps_runtime st))
                      \<lparr>cq_model = vm, cq_stream = stream, cq_body = body\<rparr> w)))"
  by (auto simp: upstream_of_def chat_upstream_def embeddings_upstream_def Let_def
      split: proxy_route.splits if_splits prod.splits exec.splits sum.splits)

lemma cache_lookup_keeps:
  "cache_lookup E st ck = (x, st') \<Longrightarrow> rn_connector (ps_runtime st') = rn_connector (ps_runtime st) \<and>
     ps_spend_tracker st' = ps_spend_tracker st"
  by (auto simp: cache_lookup_def split: option.splits prod.splits)

text \<open>
  C25. Only the filtered body leaves the gateway: an admitted request first runs the plugin chain. When a
  plugin rejects it, the client gets that rejection and no provider is called. Otherwise the reply
  either comes from the cache, with no provider called and nothing charged, or from one call
  of the dispatcher with the requested model and the body the plugins left.
\<close>

theorem proxy_forwards_filtered_body:
  assumes "admission E st tc r headers body = None" and "request_model E r body = Some vm"
  shows "case run_plugins (rn_plugins (ps_runtime st)) (request_path r) vm body w of
      (Inl rej, w1) \<Rightarrow>
        (\<exists>st' fx. proxy_handle E st tc r headers body w =
           (Ret (plugin_rejection_reply E (rej_info rej)), st', fx, w1) \<and>
           ps_spend_tracker st' = ps_spend_tracker st)
    | (Inr body', w1) \<Rightarrow>
        (\<exists>res st' fx w'. proxy_handle E st tc r headers body w = (res, st', fx, w') \<and>
           ((\<exists>c. res = Ret (reply_of E c ''HIT'')) \<and>
              ps_spend_tracker st' = ps_spend_tracker st \<and> w' = w1 \<or>
            w' = (case r of
               Embeddings \<Rightarrow> snd (snd (ds_embeddings (rn_connector (ps_runtime st)) \<lparr>eq_model = vm, eq_body = body'\<rparr> w1))
             | _ \<Rightarrow> snd (snd (ds_chat (rn_connector (ps_runtime st))
                   \<lparr>cq_model = vm, cq_stream = request_stream E r body, cq_body = body'\<rparr> w1)))))"
proof -
  obtain res st' fx w' where h: "proxy_handle E st tc r headers body w = (res, st', fx, w')"
    by (metis prod_cases4)
  show ?thesis
  proof (cases rule: admitted_cases [OF assms h])
    case (1 key st1 rej)
    then show ?thesis using h by simp
  next
    case (2 key rl body' c ck)
    then show ?thesis using h cache_lookup_keeps [OF 2(4)] by simp blast
  next
    case (3 key rl body' w1 st2 fx2 ck)
    have "rn_connector (ps_runtime st2) = rn_connector (ps_runtime st)"
      using cache_lookup_keeps [OF 3(4)] by simp
    note world = upstream_world [OF 3(5), unfolded this]
    show ?thesis using h 3(2) world by simp
  qed
qed

theorem proxy_forwards_filtered_body_witness:
  "\<exists>res st' fx w'. proxy_handle example_env example_state example_clocks ChatCompletions example_headers ''{}'' 0 =
     (res, st', fx, w') \<and>
     ((\<exists>c. res = Ret (reply_of example_env c ''HIT'')) \<and> ps_spend_tracker st' = ps_spend_tracker example_state \<and> w' = 0 \<or>
      w' = 1)"
proof -
  have "admission example_env example_state example_clocks ChatCompletions example_headers ''{}'' = None"
    "request_model example_env ChatCompletions ''{}'' = Some ''m''"
    by code_simp+
  from proxy_forwards_filtered_body [OF this, of 0] show ?thesis
    by (simp add: example_state_def)
qed

section \<open>Tenants in the cache\<close>

definition cache_holds :: "('c \<Rightarrow> (string \<times> cached_response) set) \<Rightarrow> ('w, 'c) proxy_state \<Rightarrow> (string \<times> cached_response) set" where
  "cache_holds held st = (case rn_cache (ps_runtime st) of None \<Rightarrow> {} | Some c \<Rightarrow> held c)"

text \<open>The bytes a request's cache key is the digest of.\<close>

definition request_material ::
  "'c proxy_env \<Rightarrow> ('w, 'c) proxy_state \<Rightarrow> virtual_key \<Rightarrow> proxy_route \<Rightarrow> header_map \<Rightarrow> bytes \<Rightarrow> 'w \<Rightarrow> bytes" where
  "request_material E st key r headers body w =
     (let vm = unwrap_or (request_model E r body) []
      in cache_material (key_identifier key) vm
           (case header_str headers IDEMPOTENCY_HEADER of
              Some k \<Rightarrow> ''idempotency:'' @ k
            | None \<Rightarrow>
                (case run_plugins (rn_plugins (ps_runtime st)) (request_path r) vm body w of
                   (Inr body', _) \<Rightarrow> body' | (Inl _, _) \<Rightarrow> body)))"

lemma cache_key_for_material:
  "cache_key_for C scope vm idem body = hex_encode C (sha256 C (cache_material scope vm
     (case idem of Some k \<Rightarrow> ''idempotency:'' @ k | None \<Rightarrow> body)))"
  by (simp add: cache_key_for_def cache_key_material split: option.split)

lemma charge_cache [simp]: "cache_holds held (charge st tc key cost) = cache_holds held st"
  by (simp add: cache_holds_def charge_def split: option.split)

lemma limiter_cache [simp]: "cache_holds held (st\<lparr>ps_rate_limiter := rl\<rparr>) = cache_holds held st"
  by (simp add: cache_holds_def)

lemma store_and_reply_cache:
  assumes law: "moka_law (px_moka E) held"
    and s: "store_and_reply E st ck up = (rep, st')" and v: "(k, v) \<in> cache_holds held st'"
  shows "(k, v) \<in> cache_holds held st \<or> ck = Some k \<and> rep = reply_of E v ''MISS''"
proof (cases "collect_stream (rs_body up)")
  case (Inl e)
  with s v show ?thesis by (simp add: store_and_reply_def)
next
  case (Inr bs)
  with s v moka_lawD(4) [OF law] show ?thesis
    by (fastforce simp: store_and_reply_def cache_store_def cache_holds_def cache_insert_def reply_of_def Let_def
        split: option.splits)
qed

lemma upstream_of_cache:
  assumes "moka_law (px_moka E) held"
    and "upstream_of E st tc key r vm stream ck body w = (res, st', fx, w')" and "(k, v) \<in> cache_holds held st'"
  shows "(k, v) \<in> cache_holds held st \<or> ck = Some k \<and> res = Ret (reply_of E v ''MISS'')"
  using assms store_and_reply_cache [OF assms(1)]
  by (fastforce simp: upstream_of_def chat_upstream_def embeddings_upstream_def chat_success_def
      embeddings_success_def Let_def split: if_splits prod.splits exec.splits sum.splits)

lemma cache_lookup_cache:
  assumes "moka_law (px_moka E) held" and "cache_lookup E st ck = (x, st')"
  shows "cache_holds held st' \<subseteq> cache_holds held st"
    and "x = Some v \<Longrightarrow> \<exists>k. ck = Some k \<and> (k, v) \<in> cache_holds held st"
proof -
  show "cache_holds held st' \<subseteq> cache_holds held st"
    using assms(2) subsetD [OF moka_lawD(3) [OF assms(1)]]
    by (auto simp: cache_lookup_def cache_holds_def cache_get_def split_def split: option.splits)
  show "x = Some v \<Longrightarrow> \<exists>k. ck = Some k \<and> (k, v) \<in> cache_holds held st"
    using assms(2) moka_lawD(2) [OF assms(1)]
    by (auto simp: cache_lookup_def cache_holds_def cache_get_def split_def split: option.splits)
qed

text \<open>A streamed reply is observed at the prices of its runtime and on the account of its key.\<close>

lemma opened_by_upstream:
  "upstream_of E st tc key r vm stream ck body w = (res, st', fx, w') \<Longrightarrow> ob \<in> set (opened_streams res) \<Longrightarrow>
     ob_pricing ob = rn_pricing (ps_runtime st) \<and> ob_key_id ob = key_identifier key"
  by (auto simp: upstream_of_def chat_upstream_def embeddings_upstream_def chat_success_def embeddings_success_def
      store_and_reply_def upstream_failure_def upstream_error_response_def Let_def opened_streams_def
      build_response_def error_reply_def observer_new_def
      split: if_splits prod.splits exec.splits sum.splits core_error.splits option.splits)

lemma opened_streams_of_request:
  assumes "proxy_handle E st tc r headers body w = (res, st', fx, w')" "ob \<in> set (opened_streams res)"
  shows "\<exists>key. identify E (ps_keys st) headers = Some key \<and>
     ob_pricing ob = rn_pricing (ps_runtime st) \<and> ob_key_id ob = key_identifier key"
proof (cases "admission E st tc r headers body")
  case (Some a)
  then show ?thesis using refused_reply [of E st tc r headers body "fst a" "snd a" w] assms by auto
next
  case adm: None
  show ?thesis
  proof (cases "request_model E r body")
    case None
    then show ?thesis using assms
      by (auto simp: request_model_def proxy_handle_def authenticate_cases Let_def unauthorized_def fallback_reply_def
          proxy_list_models_def opened_streams_def error_reply_def
          split: proxy_route.splits option.splits if_splits)
  next
    case (Some vm)
    show ?thesis
    proof (cases rule: admitted_cases [OF adm Some assms(1)])
      case (1 key st1 rej)
      then show ?thesis using assms(2) by (simp add: plugin_rejection_reply_def split: if_splits)
    next
      case (2 key rl body' c ck)
      then show ?thesis using assms(2) by (simp add: reply_of_def)
    next
      case (3 key rl body' w1 st2 fx2 ck)
      have "rn_pricing (ps_runtime st2) = rn_pricing (ps_runtime st)"
        using 3(4) by (auto simp: cache_lookup_def split: option.splits prod.splits)
      then show ?thesis using 3(1) opened_by_upstream [OF 3(5) assms(2)] by simp
    qed
  qed
qed

text \<open>
  A request's effect on the cache: what it adds is filed under the digest of its own material and
  is the reply it delivers; a hit delivers an entry found under that digest.
\<close>

lemma hit_reply_of: "hit_reply (build_response E s ct b label) \<Longrightarrow> label = ''HIT''"
  by (auto simp: hit_reply_def build_response_def error_reply_def CACHE_HEADER_def split: if_splits option.splits)

lemma upstream_of_not_hit:
  "upstream_of E st tc key r vm stream ck body w = (Ret rep, st', fx, w') \<Longrightarrow> \<not> hit_reply rep"
  by (auto simp: upstream_of_def chat_upstream_def embeddings_upstream_def chat_success_def embeddings_success_def
      store_and_reply_def upstream_failure_def upstream_error_response_def Let_def hit_reply_def CACHE_HEADER_def
      build_response_def error_reply_def
      split: if_splits prod.splits exec.splits sum.splits core_error.splits option.splits)

lemma admission_None_model:
  "request_model E r body = None \<Longrightarrow> proxy_handle E st tc r headers body w = (Ret rep, st', fx, w') \<Longrightarrow>
     \<not> hit_reply rep \<and> cache_holds held st' = cache_holds held st"
  by (auto simp: request_model_def proxy_handle_def authenticate_cases Let_def unauthorized_def fallback_reply_def
      proxy_list_models_def hit_reply_def CACHE_HEADER_def error_reply_def
      split: proxy_route.splits option.splits if_splits)

lemma request_cache:
  assumes law: "moka_law (px_moka E) held"
    and h: "proxy_handle E st tc r headers body w = (res, st', fx, w')"
    and key: "identify E (ps_keys st) headers = Some key"
  defines "K \<equiv> hex_encode (px_crypto E) (sha256 (px_crypto E) (request_material E st key r headers body w))"
  shows "(k, v) \<in> cache_holds held st' \<Longrightarrow>
      (k, v) \<in> cache_holds held st \<or> k = K \<and> res = Ret (reply_of E v ''MISS'')" (is "?new \<Longrightarrow> ?stored")
    and "res = Ret rep \<Longrightarrow> hit_reply rep \<Longrightarrow>
      \<exists>v. (K, v) \<in> cache_holds held st \<and> rep = reply_of E v ''HIT''" (is "_ \<Longrightarrow> _ \<Longrightarrow> ?served")
proof -
  have "(?new \<longrightarrow> ?stored) \<and> (res = Ret rep \<and> hit_reply rep \<longrightarrow> ?served)"
  proof (cases "admission E st tc r headers body")
    case (Some a)
    then obtain rep' where "res = Ret rep'" "\<not> hit_reply rep'" "st'\<lparr>ps_rate_limiter := ps_rate_limiter st\<rparr> = st"
      using refused_reply [of E st tc r headers body "fst a" "snd a" w] h by auto
    then show ?thesis using limiter_cache [of held "ps_rate_limiter st" st'] by auto
  next
    case adm: None
    show ?thesis
    proof (cases "request_model E r body")
      case None
      then obtain rep' where "res = Ret rep'"
        using h by (auto simp: request_model_def proxy_handle_def split: prod.splits sum.splits proxy_route.splits)
      then show ?thesis using admission_None_model [OF None, of st tc headers w rep' st' fx w' held] h by auto
    next
      case (Some vm)
      have ck: "request_cache_key E key r vm stream headers body' = Some k' \<Longrightarrow> k' = K"
        if "run_plugins (rn_plugins (ps_runtime st)) (request_path r) vm body w = (Inr body', w1)"
        for stream body' w1 k'
        using that Some by (auto simp: request_cache_key_def cache_key_for_material K_def request_material_def
            unwrap_or_def split: if_splits option.split)
      show ?thesis
      proof (cases rule: admitted_cases [OF adm Some h])
        case (1 key' st1 rej)
        then show ?thesis by (auto simp: plugin_rejection_reply_def)
      next
        case (2 key' rl body' c ck')
        then show ?thesis
          using cache_lookup_cache [OF law 2(4)] key ck [OF 2(2)] by auto
      next
        case (3 key' rl body' w1 st2 fx2 ck')
        then show ?thesis
          using cache_lookup_cache(1) [OF law 3(4)] upstream_of_cache [OF law 3(5), of k v] key ck [OF 3(2)]
            upstream_of_not_hit [of E st2 tc key' r vm "request_stream E r body" ck' body' w1 rep st' fx2 w'] by auto
      qed
    qed
  qed
  then show "?new \<Longrightarrow> ?stored" "res = Ret rep \<Longrightarrow> hit_reply rep \<Longrightarrow> ?served" by blast+
qed

text \<open>
  Traces of a gateway: requests one after the other, with their replies logged per tenant, and
  between them any change to the shared state by the admin API, the control plane or a reload,
  which keeps the cache or installs a fresh one.
\<close>

inductive proxy_trace :: "'c proxy_env \<Rightarrow> ('w, 'c) proxy_state \<Rightarrow> (string \<times> bytes \<times> reply) list \<Rightarrow> bool"
  for E :: "'c proxy_env" where
  start: "rn_cache (ps_runtime st) = None \<or> rn_cache (ps_runtime st) = Some (cache_new (px_moka E) n t) \<Longrightarrow>
    proxy_trace E st []"
| request: "proxy_trace E st hist \<Longrightarrow> identify E (ps_keys st) headers = Some key \<Longrightarrow>
    proxy_handle E st tc r headers body w = (Ret rep, st', fx, w') \<Longrightarrow>
    proxy_trace E st' ((key_identifier key, request_material E st key r headers body w, rep) # hist)"
| panicked: "proxy_trace E st hist \<Longrightarrow> proxy_handle E st tc r headers body w = (Panic, st', fx, w') \<Longrightarrow>
    proxy_trace E st' hist"
| refused: "proxy_trace E st hist \<Longrightarrow> identify E (ps_keys st) headers = None \<Longrightarrow>
    proxy_handle E st tc r headers body w = (res, st', fx, w') \<Longrightarrow> proxy_trace E st' hist"
| other: "proxy_trace E st hist \<Longrightarrow> rn_cache (ps_runtime st') = rn_cache (ps_runtime st) \<or>
    rn_cache (ps_runtime st') = None \<or> rn_cache (ps_runtime st') = Some (cache_new (px_moka E) n t) \<Longrightarrow>
    proxy_trace E st' hist"

text \<open>Every entry was delivered, as a miss, to the request whose material it is filed under.\<close>

lemma trace_cache:
  assumes "proxy_trace E st hist" and law: "moka_law (px_moka E) held"
  shows "(k, v) \<in> cache_holds held st \<Longrightarrow>
     \<exists>i mat. (i, mat, reply_of E v ''MISS'') \<in> set hist \<and> (\<exists>m b. mat = cache_material i m b) \<and>
       k = hex_encode (px_crypto E) (sha256 (px_crypto E) mat)"
  using assms(1)
proof (induction arbitrary: k v rule: proxy_trace.induct)
  case (start st n t)
  then show ?case using moka_lawD(1) [OF law] by (auto simp: cache_holds_def cache_new_def)
next
  case (request st hist headers key tc r body w rep st' fx w')
  have mat: "\<exists>m b. request_material E st key r headers body w = cache_material (key_identifier key) m b"
    by (auto simp: request_material_def Let_def)
  from request_cache(1) [OF law request.hyps(3,2) request.prems] show ?case
    using request.IH [of k v] mat by auto
next
  case (panicked st hist tc r headers body w st' fx w')
  show ?case
  proof (cases "identify E (ps_keys st) headers")
    case None
    with panicked show ?thesis by (simp add: proxy_handle_def authenticate_cases)
  next
    case (Some key)
    from request_cache(1) [OF law panicked.hyps(2) Some panicked.prems] show ?thesis
      using panicked.IH by simp
  qed
next
  case (refused st hist headers tc r body w res st' fx w')
  then show ?case by (simp add: proxy_handle_def authenticate_cases)
next
  case (other st hist st' n t)
  then show ?case using moka_lawD(1) [OF law] by (auto simp: cache_holds_def cache_new_def)
qed

text \<open>
  C3. Tenants never share cached replies: in any history of requests, key changes and reloads, a reply
  served from the cache to a tenant is one that an earlier request of the same tenant received as
  a miss, byte for byte. It rests on the digest having no collision among the requests made,
  and on tenant identifiers without NUL bytes.
\<close>

theorem cache_hit_from_same_tenant:
  assumes "proxy_trace E st hist" and "moka_law (px_moka E) held"
    and "identify E (ps_keys st) headers = Some key"
    and "proxy_handle E st tc r headers body w = (Ret rep, st', fx, w')" and "hit_reply rep"
    and "collision_free (px_crypto E) (insert (request_material E st key r headers body w) (fst ` snd ` set hist))"
    and "NUL \<notin> set (key_identifier key)" and "\<forall>i \<in> fst ` set hist. NUL \<notin> set i"
  shows "\<exists>mat v. (key_identifier key, mat, reply_of E v ''MISS'') \<in> set hist \<and> rep = reply_of E v ''HIT''"
proof -
  let ?mat = "request_material E st key r headers body w"
  obtain v where v: "(hex_encode (px_crypto E) (sha256 (px_crypto E) ?mat), v) \<in> cache_holds held st"
    and rep: "rep = reply_of E v ''HIT''"
    using request_cache(2) [OF assms(2,4,3) refl assms(5)] by blast
  obtain i mat m b where hist: "(i, mat, reply_of E v ''MISS'') \<in> set hist" and mat: "mat = cache_material i m b"
    and same: "hex_encode (px_crypto E) (sha256 (px_crypto E) ?mat) = hex_encode (px_crypto E) (sha256 (px_crypto E) mat)"
    using trace_cache [OF assms(1,2) v] by blast
  have "mat \<in> fst ` snd ` set hist" using hist by force
  with same assms(6) have "?mat = mat" by (auto simp: collision_free_def inj_on_def)
  moreover have "NUL \<notin> set i" using hist assms(8) by force
  ultimately have "key_identifier key = i"
    using mat assms(7) by (auto simp: request_material_def Let_def dest!: cache_material_scope)
  with hist rep show ?thesis by blast
qed

text \<open>The concrete gateway after serving, and storing, its first request.\<close>

lemma example_fields:
  "px_chat_meta example_env body = Some \<lparr>meta_model = Some ''m'', meta_stream = False\<rparr>"
  "px_crypto example_env = example_crypto" "px_moka example_env = example_moka"
  "cache_key example_crypto scope vm mat = scope @ [NUL] @ vm @ [NUL] @ mat"
  "vk_models example_key = []" "vk_spend_limit example_key = None" "key_identifier example_key = ''vp_a''"
  "header_str example_headers IDEMPOTENCY_HEADER = None"
  "rn_plugins (ps_runtime example_state) = []" "rn_cache (ps_runtime example_state) = Some []"
  "ds_chat (rn_connector (ps_runtime example_state)) q w = (Ret (Inr example_upstream), [], Suc w)"
  "ps_keys example_state = keystore_new [example_key]"
  by (simp_all add: example_defs cache_key_def key_identifier_def anonymous_def header_str_def header_get_def
      IDEMPOTENCY_HEADER_def)

lemma example_authenticate:
  "ps_keys st = ps_keys example_state \<Longrightarrow>
     authenticate example_env st example_clocks example_headers = (Inr example_key, st, no_effects)"
  by (simp add: authenticate_def example_fields example_identify is_expired_def)
    (simp add: example_key_def anonymous_def)

definition example_warm :: "(nat, (string \<times> cached_response) list) proxy_state" where
  "example_warm = cache_store example_env example_state (Some (''vp_a'' @ [NUL] @ ''m'' @ [NUL] @ ''{}'')) example_cached"

lemma example_first:
  "\<exists>fx. proxy_handle example_env example_state example_clocks ChatCompletions example_headers ''{}'' 0 =
     (Ret (reply_of example_env example_cached ''MISS''), example_warm, fx, 1)"
proof -
  have "cache_lookup example_env example_state (Some k) = (None, example_state)" for k
    by (simp add: cache_lookup_def cache_get_def example_fields) (simp add: example_defs)
  moreover have "charge st tc example_key c = st" for st :: "(nat, (string \<times> cached_response) list) proxy_state" and tc c
    by (simp add: charge_def example_fields split: option.split)
  moreover have "store_and_reply example_env example_state ck example_upstream =
      (reply_of example_env example_cached ''MISS'', cache_store example_env example_state ck example_cached)" for ck
    by (simp add: store_and_reply_def reply_of_def example_upstream_def example_cached_def)
  moreover have "rs_status example_upstream = 200" by (simp add: example_upstream_def)
  ultimately show ?thesis
    by (simp add: proxy_handle_def example_authenticate chat_completions_def request_gates_def allows_model_def
        over_budget_def chat_upstream_def chat_success_def cache_key_for_def example_fields example_warm_def Let_def)
qed

lemma example_second:
  "\<exists>st' fx. proxy_handle example_env example_warm example_clocks ChatCompletions example_headers ''{}'' 1 =
     (Ret (reply_of example_env example_cached ''HIT''), st', fx, 1)"
proof -
  have w: "rn_cache (ps_runtime example_warm) = Some [(''vp_a'' @ [NUL] @ ''m'' @ [NUL] @ ''{}'', example_cached)]"
    "rn_plugins (ps_runtime example_warm) = []" "ps_keys example_warm = ps_keys example_state"
    by (simp_all add: example_warm_def cache_store_def cache_insert_def example_fields) (simp add: example_moka_def)
  then have "\<exists>st'. cache_lookup example_env example_warm (Some (''vp_a'' @ [NUL] @ ''m'' @ [NUL] @ ''{}'')) =
      (Some example_cached, st')"
    by (simp add: cache_lookup_def cache_get_def example_fields) (simp add: example_moka_def)
  with w show ?thesis
    by (auto simp: proxy_handle_def example_authenticate chat_completions_def request_gates_def allows_model_def
        over_budget_def cache_key_for_def example_fields serve_from_cache_def reply_of_def Let_def)
qed

lemma example_trace:
  "proxy_trace example_env example_warm
     [(key_identifier example_key,
       request_material example_env example_state example_key ChatCompletions example_headers ''{}'' 0,
       reply_of example_env example_cached ''MISS'')]"
proof -
  have "proxy_trace example_env example_state []"
    by (rule proxy_trace.start [where n = 0 and t = 0]) (simp add: example_defs cache_new_def)
  moreover have "identify example_env (ps_keys example_state) example_headers = Some example_key"
    by (simp add: example_fields example_identify)
  ultimately show ?thesis using example_first by (blast intro: proxy_trace.request)
qed

theorem cache_hit_from_same_tenant_witness:
  "\<exists>mat v. (key_identifier example_key, mat, reply_of example_env v ''MISS'') \<in>
       set [(key_identifier example_key,
         request_material example_env example_state example_key ChatCompletions example_headers ''{}'' 0,
         reply_of example_env example_cached ''MISS'')] \<and>
     reply_of example_env example_cached ''HIT'' = reply_of example_env v ''HIT''"
proof -
  obtain st' fx where h: "proxy_handle example_env example_warm example_clocks ChatCompletions example_headers ''{}'' 1 =
      (Ret (reply_of example_env example_cached ''HIT''), st', fx, 1)"
    using example_second by blast
  have law: "moka_law (px_moka example_env) set" using example_moka_law by (simp add: example_env_def)
  have keys: "identify example_env (ps_keys example_warm) example_headers = Some example_key"
    by (simp add: example_warm_def cache_store_def example_fields example_identify)
  have hit: "hit_reply (reply_of example_env example_cached ''HIT'')"
    by (simp add: hit_reply_def reply_of_def build_response_def example_env_def example_cached_def)
  have cf: "collision_free (px_crypto example_env) S" for S
    by (simp add: collision_free_def example_env_def example_crypto_def)
  show ?thesis
    by (rule cache_hit_from_same_tenant [OF example_trace law keys h hit cf]) (simp_all add: example_fields)
qed

end
