(* ===== verification/ControlStatus.thy ===== *)
theory ControlStatus
  imports AuditLog
begin

text \<open>
  The state of the Control Node link (\<open>control_plane/status.rs\<close>): what a poll tick does to it and
  which transition it reports. Instants are nanoseconds and arguments.
\<close>

datatype link_state = LinkFile | LinkPending | LinkSynced | LinkDegraded

datatype resource = ConfigResource | KeysResource

fun resource_as_str :: "resource \<Rightarrow> string" where
  "resource_as_str ConfigResource = ''config''"
| "resource_as_str KeysResource = ''keys''"

datatype reason = NotStarted | Unauthorized | Transport | UnexpectedStatus | InvalidBody | BuildFailed

fun reason_as_str :: "reason \<Rightarrow> string" where
  "reason_as_str NotStarted = ''not_started''"
| "reason_as_str Unauthorized = ''unauthorized''"
| "reason_as_str Transport = ''transport''"
| "reason_as_str UnexpectedStatus = ''unexpected_status''"
| "reason_as_str InvalidBody = ''invalid_body''"
| "reason_as_str BuildFailed = ''build_failed''"

record sync_failure =
  sf_resource :: resource
  sf_reason :: reason
  sf_detail :: string

definition show_sync_failure :: "sync_failure \<Rightarrow> string" where
  "show_sync_failure f =
     resource_as_str (sf_resource f) @ '' '' @ reason_as_str (sf_reason f) @ '': '' @ sf_detail f"

record identity =
  id_gateway_id :: string
  id_org_id :: string
  id_group :: "string option"
  id_environment :: string

datatype transition = NoTransition | Degraded sync_failure | Recovered

record link_status =
  lk_state :: link_state
  lk_endpoint :: "string option"
  lk_config_version :: "string option"
  lk_keys_version :: "string option"
  lk_identity :: "identity option"
  lk_last_success :: "nat option"
  lk_last_failure :: "(nat \<times> sync_failure) option"
  lk_consecutive_failures :: u32

definition status_new :: "link_state \<Rightarrow> string option \<Rightarrow> link_status" where
  "status_new state endpoint =
     \<lparr>lk_state = state, lk_endpoint = endpoint, lk_config_version = None, lk_keys_version = None,
      lk_identity = None, lk_last_success = None, lk_last_failure = None, lk_consecutive_failures = 0\<rparr>"

definition status_file :: link_status where
  "status_file = status_new LinkFile None"

definition status_api :: "string \<Rightarrow> link_status" where
  "status_api endpoint = status_new LinkPending (Some endpoint)"

definition not_started :: "nat \<Rightarrow> string \<Rightarrow> link_status \<Rightarrow> link_status" where
  "not_started now detail s =
     s\<lparr>lk_state := LinkDegraded,
       lk_last_failure :=
         Some (now, \<lparr>sf_resource = ConfigResource, sf_reason = NotStarted, sf_detail = detail\<rparr>)\<rparr>"

definition set_identity :: "identity \<Rightarrow> link_status \<Rightarrow> link_status" where
  "set_identity i s = s\<lparr>lk_identity := Some i\<rparr>"

text \<open>\<open>u32::saturating_add(1)\<close>.\<close>

definition saturating_suc :: "u32 \<Rightarrow> u32" where
  "saturating_suc n = (if n = - 1 then n else n + 1)"

type_synonym poll_result = "sync_failure + string option"

definition tick_failure :: "poll_result \<Rightarrow> poll_result \<Rightarrow> sync_failure option" where
  "tick_failure config keys =
     (case (config, keys) of
        (Inl f, _) \<Rightarrow> Some f
      | (Inr _, Inl f) \<Rightarrow> Some f
      | (Inr _, Inr _) \<Rightarrow> None)"

definition record_versions :: "poll_result \<Rightarrow> poll_result \<Rightarrow> link_status \<Rightarrow> link_status" where
  "record_versions config keys s =
     s\<lparr>lk_config_version := (case config of Inr (Some v) \<Rightarrow> Some v | _ \<Rightarrow> lk_config_version s),
       lk_keys_version := (case keys of Inr (Some v) \<Rightarrow> Some v | _ \<Rightarrow> lk_keys_version s)\<rparr>"

definition changed_shape :: "link_status \<Rightarrow> sync_failure \<Rightarrow> bool" where
  "changed_shape s f =
     (case lk_last_failure s of
        Some (_, previous) \<Rightarrow> sf_resource previous \<noteq> sf_resource f \<or> sf_reason previous \<noteq> sf_reason f
      | None \<Rightarrow> True)"

definition record_tick :: "nat \<Rightarrow> poll_result \<Rightarrow> poll_result \<Rightarrow> link_status \<Rightarrow> link_status \<times> transition" where
  "record_tick now config keys s =
     (let was = lk_state s; s1 = record_versions config keys s
      in case tick_failure config keys of
           Some f \<Rightarrow>
             let s2 = s1\<lparr>lk_state := LinkDegraded,
                         lk_consecutive_failures := saturating_suc (lk_consecutive_failures s1),
                         lk_last_failure := Some (now, f)\<rparr>
             in (s2, if was \<noteq> LinkDegraded \<or> changed_shape s1 f then Degraded f else NoTransition)
         | None \<Rightarrow>
             let s2 = s1\<lparr>lk_state := LinkSynced, lk_consecutive_failures := 0, lk_last_success := Some now\<rparr>
             in (s2, if was = LinkDegraded then Recovered else NoTransition))"

record last_error =
  le_resource :: resource
  le_reason :: reason
  le_detail :: string
  le_seconds_ago :: nat

record snapshot =
  sn_state :: link_state
  sn_endpoint :: "string option"
  sn_config_version :: "string option"
  sn_keys_version :: "string option"
  sn_identity :: "identity option"
  sn_last_success_seconds_ago :: "nat option"
  sn_consecutive_failures :: u32
  sn_last_error :: "last_error option"

definition status_snapshot :: "nat \<Rightarrow> link_status \<Rightarrow> snapshot" where
  "status_snapshot now s =
     \<lparr>sn_state = lk_state s, sn_endpoint = lk_endpoint s, sn_config_version = lk_config_version s,
      sn_keys_version = lk_keys_version s, sn_identity = lk_identity s,
      sn_last_success_seconds_ago = map_option (\<lambda>t. (now - t) div 10 ^ 9) (lk_last_success s),
      sn_consecutive_failures = lk_consecutive_failures s,
      sn_last_error = map_option (\<lambda>(t0, f).
         \<lparr>le_resource = sf_resource f, le_reason = sf_reason f, le_detail = sf_detail f,
          le_seconds_ago = (now - t0) div 10 ^ 9\<rparr>) (lk_last_failure s)\<rparr>"

section \<open>The link as a state machine\<close>

text \<open>A run of ticks, each with its instant and its two poll results, and the transitions reported.\<close>

fun run_ticks ::
  "link_status \<Rightarrow> (nat \<times> poll_result \<times> poll_result) list \<Rightarrow> link_status \<times> transition list" where
  "run_ticks s [] = (s, [])"
| "run_ticks s ((now, config, keys) # ticks) =
     (let (s', t) = record_tick now config keys s; (s'', ts) = run_ticks s' ticks in (s'', t # ts))"

definition tick_failed :: "nat \<times> poll_result \<times> poll_result \<Rightarrow> bool" where
  "tick_failed tk = (case tk of (now, config, keys) \<Rightarrow> tick_failure config keys \<noteq> None)"

lemma record_tick_state:
  "lk_state (fst (record_tick now config keys s)) =
     (if tick_failure config keys = None then LinkSynced else LinkDegraded)"
  by (simp add: record_tick_def Let_def split: option.split)

text \<open>A failure of one shape: same resource, same reason.\<close>

definition failure_shape :: "sync_failure \<Rightarrow> resource \<times> reason" where
  "failure_shape f = (sf_resource f, sf_reason f)"

lemma same_shape_quiet:
  assumes "lk_state s = LinkDegraded" "lk_last_failure s = Some (t, g)" "failure_shape g = sh"
    and "\<forall>(now, config, keys) \<in> set ticks. \<exists>f. tick_failure config keys = Some f \<and> failure_shape f = sh"
  shows "\<forall>tr \<in> set (snd (run_ticks s ticks)). tr = NoTransition"
  using assms
proof (induction ticks arbitrary: s t g)
  case (Cons tk ticks)
  obtain now config keys where tk: "tk = (now, config, keys)" by (cases tk)
  with Cons.prems obtain f where f: "tick_failure config keys = Some f" "failure_shape f = sh" by auto
  let ?r = "record_tick now config keys s"
  have "snd ?r = NoTransition" "lk_state (fst ?r) = LinkDegraded" "lk_last_failure (fst ?r) = Some (now, f)"
    using Cons.prems(1,2,3) f
    by (auto simp: record_tick_def Let_def changed_shape_def record_versions_def failure_shape_def)
  with Cons.IH [of "fst ?r" now f] Cons.prems(4) f show ?case by (auto simp: tk split_def Let_def)
qed simp

lemma run_ticks_length: "length (snd (run_ticks s ticks)) = length ticks"
  by (induction ticks arbitrary: s) (auto simp: split_def Let_def)

lemma run_ticks_snoc:
  "run_ticks s (ticks @ [(now, config, keys)]) =
     (let (s', ts) = run_ticks s ticks; (s'', t) = record_tick now config keys s' in (s'', ts @ [t]))"
  by (induction ticks arbitrary: s) (auto simp: split_def Let_def)

lemma run_ticks_degraded:
  assumes "lk_state s = LinkDegraded"
    and "\<forall>(now, config, keys) \<in> set ticks. tick_failure config keys \<noteq> None"
  shows "lk_state (fst (run_ticks s ticks)) = LinkDegraded"
  using assms
proof (induction ticks arbitrary: s)
  case (Cons tk ticks)
  obtain now config keys where tk: "tk = (now, config, keys)" by (cases tk)
  with Cons.prems have "lk_state (fst (record_tick now config keys s)) = LinkDegraded"
    by (simp add: record_tick_state)
  with Cons tk show ?case by (simp add: split_def Let_def)
qed simp

text \<open>
  An outage is two audit events: when the link is not degraded, a run of failing ticks of one
  shape followed by a successful one reports the degradation once, nothing in between, and the
  recovery once.
\<close>

theorem outage_reported_once:
  assumes "lk_state s \<noteq> LinkDegraded"
    and "tick_failure config keys = Some f"
    and "\<forall>(now', config', keys') \<in> set rest.
      \<exists>g. tick_failure config' keys' = Some g \<and> failure_shape g = failure_shape f"
    and "tick_failure config_ok keys_ok = None"
  shows "snd (run_ticks s ((now, config, keys) # rest @ [(now_ok, config_ok, keys_ok)])) =
     Degraded f # replicate (length rest) NoTransition @ [Recovered]"
proof -
  define s1 where "s1 = fst (record_tick now config keys s)"
  have s1: "lk_state s1 = LinkDegraded" "lk_last_failure s1 = Some (now, f)"
    and t1: "snd (record_tick now config keys s) = Degraded f"
    using assms(1,2) by (simp_all add: s1_def record_tick_def Let_def)
  have "\<forall>tr \<in> set (snd (run_ticks s1 rest)). tr = NoTransition"
    using same_shape_quiet [OF s1 refl assms(3)] .
  then have quiet: "snd (run_ticks s1 rest) = replicate (length rest) NoTransition"
    using run_ticks_length [of s1 rest] by (simp add: list_eq_iff_nth_eq)
  have "\<forall>(now', config', keys') \<in> set rest. tick_failure config' keys' \<noteq> None"
    using assms(3) by fastforce
  then have "lk_state (fst (run_ticks s1 rest)) = LinkDegraded"
    using run_ticks_degraded s1(1) by blast
  then have "snd (record_tick now_ok config_ok keys_ok (fst (run_ticks s1 rest))) = Recovered"
    using assms(4) by (simp add: record_tick_def Let_def)
  then show ?thesis
    using quiet t1 by (simp add: run_ticks_snoc split_def Let_def s1_def)
qed

theorem outage_reported_once_witness:
  "snd (run_ticks (status_api ''e'')
     ((1, Inl \<lparr>sf_resource = ConfigResource, sf_reason = Transport, sf_detail = ''x''\<rparr>, Inr None) #
      [(2, Inl \<lparr>sf_resource = ConfigResource, sf_reason = Transport, sf_detail = ''y''\<rparr>, Inr None)] @
      [(3, Inr None, Inr None)])) =
   Degraded \<lparr>sf_resource = ConfigResource, sf_reason = Transport, sf_detail = ''x''\<rparr> #
   replicate (length [(2 :: nat, Inl \<lparr>sf_resource = ConfigResource, sf_reason = Transport, sf_detail = ''y''\<rparr> :: poll_result,
     Inr None :: poll_result)]) NoTransition @ [Recovered]"
  by (rule outage_reported_once)
    (simp_all add: tick_failure_def failure_shape_def status_api_def status_new_def)

end
