(* ===== verification/Admin.thy ===== *)
theory Admin
  imports Proxy_Safety ControlStatus
begin

text \<open>
  The admin API (\<open>admin.rs\<close>): the token gate, key management, spend reports and the reload
  endpoint. Bodies are the response structs; their rendering as JSON is derived by \<open>serde\<close>.
\<close>

definition ADMIN_ACTOR :: string where "ADMIN_ACTOR = ''admin-api''"

record key_summary =
  sum_id :: string
  sum_team :: string
  sum_app :: string
  sum_env :: string
  sum_models :: "string list"
  sum_rate_limit_rps :: "u32 option"
  sum_spend_limit :: "spend_limit option"
  sum_expires_at :: "string option"

definition key_summary_of :: "virtual_key \<Rightarrow> key_summary" where
  "key_summary_of k =
     \<lparr>sum_id = vk_id k, sum_team = vk_team k, sum_app = vk_app k, sum_env = vk_env k,
      sum_models = vk_models k, sum_rate_limit_rps = vk_rate_limit_rps k,
      sum_spend_limit = vk_spend_limit k, sum_expires_at = vk_expires_at k\<rparr>"

record create_key_request =
  ck_team :: string
  ck_app :: string
  ck_env :: string
  ck_models :: "string list"
  ck_rate_limit_rps :: "u32 option"
  ck_spend_limit :: "spend_limit option"
  ck_expires_at :: "string option"

record spend_budget =
  sb_usd :: f64
  sb_period :: period
  sb_remaining_usd :: f64

record key_spend_response =
  kr_key_id :: string
  kr_team :: string
  kr_app :: string
  kr_env :: string
  kr_spend :: "(f64 \<times> period) option"
  kr_limit :: "spend_budget option"

record status_body =
  stb_version :: string
  stb_uptime_seconds :: nat
  stb_ready :: bool
  stb_proxy_address :: string
  stb_admin_address :: string
  stb_key_count :: nat
  stb_control_plane :: snapshot

datatype admin_body =
    AdminText string
  | AdminEmpty
  | AdminKeys "key_summary list"
  | AdminCreated string key_summary
  | AdminModels "registered_model list"
  | AdminSpend key_spend_response
  | AdminReloaded string
  | AdminStatus status_body
  | AdminMetrics

record admin_reply =
  ar_status :: nat
  ar_body :: admin_body

text \<open>The state the admin handlers share with the proxy, plus their own.\<close>

record ('w, 'c, 's) app_state =
  ap_started_at :: nat
  ap_ready :: bool
  ap_admin_token :: "string option"
  ap_config :: config
  ap_proxy :: "('w, 'c) proxy_state"
  ap_config_path :: "string option"
  ap_rustls :: "'s option"
  ap_control_plane :: link_status

definition app_state_new ::
  "nat \<Rightarrow> config \<Rightarrow> string option \<Rightarrow> ('w, 'c) proxy_state \<Rightarrow> string option \<Rightarrow> 's option \<Rightarrow>
     link_status \<Rightarrow> ('w, 'c, 's) app_state" where
  "app_state_new now cfg admin_token proxy config_path rustls control_plane =
     \<lparr>ap_started_at = now, ap_ready = False, ap_admin_token = admin_token, ap_config = cfg,
      ap_proxy = proxy, ap_config_path = config_path, ap_rustls = rustls,
      ap_control_plane = control_plane\<rparr>"

definition set_ready :: "bool \<Rightarrow> ('w, 'c, 's) app_state \<Rightarrow> ('w, 'c, 's) app_state" where
  "set_ready ready st = st\<lparr>ap_ready := ready\<rparr>"

text \<open>One round of the readiness prober of \<open>main.rs\<close>.\<close>

definition readiness_probe :: "('w, 'c, 's) app_state \<Rightarrow> 'w \<Rightarrow> ('w, 'c, 's) app_state" where
  "readiness_probe st w = set_ready (ds_reachable (rn_connector (ps_runtime (ap_proxy st))) w) st"

definition read_admin_token :: "(string \<Rightarrow> string option) \<Rightarrow> config \<Rightarrow> string option" where
  "read_admin_token var cfg =
     (let token = unwrap_or (var (admin_token_env (cfg_auth cfg))) []
      in if token = [] then None else Some token)"

section \<open>Handlers\<close>

definition admin_authorized :: "('w, 'c, 's) app_state \<Rightarrow> header_map \<Rightarrow> bool" where
  "admin_authorized st headers =
     (case ap_admin_token st of
        None \<Rightarrow> True
      | Some expected \<Rightarrow>
          (case bearer_token headers of Some token \<Rightarrow> constant_time_eq token expected | None \<Rightarrow> False))"

definition healthz :: admin_reply where
  "healthz = \<lparr>ar_status = 200, ar_body = AdminText ''ok''\<rparr>"

definition readyz :: "('w, 'c, 's) app_state \<Rightarrow> admin_reply" where
  "readyz st =
     (if ap_ready st then \<lparr>ar_status = 200, ar_body = AdminText ''ready''\<rparr>
      else \<lparr>ar_status = 503, ar_body = AdminText ''not ready''\<rparr>)"

definition admin_status :: "string \<Rightarrow> nat \<Rightarrow> ('w, 'c, 's) app_state \<Rightarrow> admin_reply" where
  "admin_status version now st =
     \<lparr>ar_status = 200,
      ar_body = AdminStatus
        \<lparr>stb_version = version, stb_uptime_seconds = (now - ap_started_at st) div 10 ^ 9,
         stb_ready = ap_ready st, stb_proxy_address = ls_address (cfg_listen (ap_config st)),
         stb_admin_address = ls_admin_address (cfg_listen (ap_config st)),
         stb_key_count = keystore_len (ps_keys (ap_proxy st)),
         stb_control_plane = status_snapshot now (ap_control_plane st)\<rparr>\<rparr>"

definition list_keys :: "('w, 'c, 's) app_state \<Rightarrow> admin_reply" where
  "list_keys st =
     \<lparr>ar_status = 200, ar_body = AdminKeys (map key_summary_of (keystore_list (ps_keys (ap_proxy st))))\<rparr>"

definition new_virtual_key :: "generated_key \<Rightarrow> create_key_request \<Rightarrow> virtual_key" where
  "new_virtual_key g body =
     \<lparr>vk_id = gk_id g, vk_hash = gk_hash g, vk_team = ck_team body, vk_app = ck_app body,
      vk_env = ck_env body, vk_models = ck_models body, vk_rate_limit_rps = ck_rate_limit_rps body,
      vk_spend_limit = ck_spend_limit body, vk_expires_at = ck_expires_at body\<rparr>"

definition update_keys :: "(key_store \<Rightarrow> key_store) \<Rightarrow> ('w, 'c, 's) app_state \<Rightarrow> ('w, 'c, 's) app_state" where
  "update_keys f st = st\<lparr>ap_proxy := (ap_proxy st)\<lparr>ps_keys := f (ps_keys (ap_proxy st))\<rparr>\<rparr>"

definition create_key ::
  "crypto \<Rightarrow> bytes \<Rightarrow> create_key_request \<Rightarrow> ('w, 'c, 's) app_state \<Rightarrow>
     admin_reply exec \<times> ('w, 'c, 's) app_state \<times> audit_event list" where
  "create_key C entropy body st =
     (case generate_key C entropy of
        None \<Rightarrow> (Panic, st, [])
      | Some g \<Rightarrow>
          let key = new_virtual_key g body
          in (Ret \<lparr>ar_status = 201, ar_body = AdminCreated (gk_token g) (key_summary_of key)\<rparr>,
              update_keys (\<lambda>ks. keystore_insert ks key) st,
              [key_created ADMIN_ACTOR (vk_id key) (vk_team key) (vk_app key) (vk_env key)]))"

definition delete_key ::
  "string \<Rightarrow> ('w, 'c, 's) app_state \<Rightarrow> admin_reply \<times> ('w, 'c, 's) app_state \<times> audit_event list" where
  "delete_key kid st =
     (case keystore_remove_by_id (ps_keys (ap_proxy st)) kid of
        (keys, True) \<Rightarrow>
          (\<lparr>ar_status = 204, ar_body = AdminEmpty\<rparr>,
           st\<lparr>ap_proxy := (ap_proxy st)
                \<lparr>ps_keys := keys,
                 ps_rate_limiter := rate_limiter_forget (ps_rate_limiter (ap_proxy st)) kid,
                 ps_spend_tracker := spend_forget (ps_spend_tracker (ap_proxy st)) kid\<rparr>\<rparr>,
           [key_revoked ADMIN_ACTOR kid True])
      | (keys, False) \<Rightarrow>
          (\<lparr>ar_status = 404, ar_body = AdminText ''key not found''\<rparr>, st, [key_revoked ADMIN_ACTOR kid False]))"

definition admin_list_models :: "('w, 'c, 's) app_state \<Rightarrow> admin_reply" where
  "admin_list_models st =
     \<lparr>ar_status = 200, ar_body = AdminModels (rn_models (ps_runtime (ap_proxy st)))\<rparr>"

definition key_spend :: "utc \<Rightarrow> string \<Rightarrow> ('w, 'c, 's) app_state \<Rightarrow> admin_reply" where
  "key_spend now kid st =
     (case keystore_find_by_id (ps_keys (ap_proxy st)) kid of
        None \<Rightarrow> \<lparr>ar_status = 404, ar_body = AdminText ''key not found''\<rparr>
      | Some key \<Rightarrow>
          let (spend, limit) =
                (case vk_spend_limit key of
                   Some sl \<Rightarrow>
                     let current = spend_current_usd (ps_spend_tracker (ap_proxy st)) (vk_id key) (sl_period sl) now;
                         remaining = f64_max (f64_sub (amount_usd sl) current) (Fin 0)
                     in (Some (current, sl_period sl),
                         Some \<lparr>sb_usd = amount_usd sl, sb_period = sl_period sl, sb_remaining_usd = remaining\<rparr>)
                 | None \<Rightarrow> (None, None))
          in \<lparr>ar_status = 200,
              ar_body = AdminSpend \<lparr>kr_key_id = vk_id key, kr_team = vk_team key, kr_app = vk_app key,
                                    kr_env = vk_env key, kr_spend = spend, kr_limit = limit\<rparr>\<rparr>)"

definition reload_config ::
  "('w, 'c, 'r, 'k) build_env \<Rightarrow> ('s, 'v) rustls_crate \<Rightarrow> (config \<Rightarrow> string option \<Rightarrow> string + config) \<Rightarrow>
     ('w, 'c, 's) app_state \<Rightarrow> admin_reply \<times> ('w, 'c, 's) app_state \<times> audit_event list" where
  "reload_config E R extract st =
     (case ap_config_path st of
        None \<Rightarrow>
          (\<lparr>ar_status = 503, ar_body =
             AdminText ''config reload requires the gateway to have been started with --config''\<rparr>, st, [])
      | Some path \<Rightarrow>
          (case reload E R extract (Some path)
                  \<lparr>lv_runtime = ps_runtime (ap_proxy st), lv_rustls = ap_rustls st\<rparr> of
             (result, lv, evs) \<Rightarrow>
               let st' = st\<lparr>ap_proxy := (ap_proxy st)\<lparr>ps_runtime := lv_runtime lv\<rparr>, ap_rustls := lv_rustls lv\<rparr>
               in case result of
                    Inr _ \<Rightarrow>
                      (\<lparr>ar_status = 200, ar_body = AdminReloaded path\<rparr>, st',
                       evs @ [config_reloaded ADMIN_ACTOR Success path])
                  | Inl err \<Rightarrow>
                      (\<lparr>ar_status = 400, ar_body = AdminText (show_anyhow_chain err)\<rparr>, st',
                       evs @ [config_reloaded ADMIN_ACTOR Failure (show_anyhow_chain err)])))"

section \<open>The router\<close>

datatype admin_request =
    GetHealthz
  | GetReadyz
  | GetStatus
  | GetMetrics
  | GetKeys
  | PostKey create_key_request
  | DeleteKey string
  | GetSpend string
  | GetModels
  | PostReload

fun protected :: "admin_request \<Rightarrow> bool" where
  "protected GetHealthz = False"
| "protected GetReadyz = False"
| "protected _ = True"

text \<open>The readings and inputs a request may take: clock, calendar, entropy.\<close>

record admin_inputs =
  ai_version :: string
  ai_now :: nat
  ai_utc :: utc
  ai_entropy :: bytes

definition admin_dispatch ::
  "crypto \<Rightarrow> ('w, 'c, 'r, 'k) build_env \<Rightarrow> ('s, 'v) rustls_crate \<Rightarrow> (config \<Rightarrow> string option \<Rightarrow> string + config) \<Rightarrow>
     admin_inputs \<Rightarrow> admin_request \<Rightarrow> ('w, 'c, 's) app_state \<Rightarrow>
     admin_reply exec \<times> ('w, 'c, 's) app_state \<times> audit_event list" where
  "admin_dispatch C E R extract inp rq st =
     (case rq of
        GetHealthz \<Rightarrow> (Ret healthz, st, [])
      | GetReadyz \<Rightarrow> (Ret (readyz st), st, [])
      | GetStatus \<Rightarrow> (Ret (admin_status (ai_version inp) (ai_now inp) st), st, [])
      | GetMetrics \<Rightarrow> (Ret \<lparr>ar_status = 200, ar_body = AdminMetrics\<rparr>, st, [])
      | GetKeys \<Rightarrow> (Ret (list_keys st), st, [])
      | PostKey body \<Rightarrow> create_key C (ai_entropy inp) body st
      | DeleteKey kid \<Rightarrow> (case delete_key kid st of (r, st', evs) \<Rightarrow> (Ret r, st', evs))
      | GetSpend kid \<Rightarrow> (Ret (key_spend (ai_utc inp) kid st), st, [])
      | GetModels \<Rightarrow> (Ret (admin_list_models st), st, [])
      | PostReload \<Rightarrow> (case reload_config E R extract st of (r, st', evs) \<Rightarrow> (Ret r, st', evs)))"

definition admin_handle ::
  "crypto \<Rightarrow> ('w, 'c, 'r, 'k) build_env \<Rightarrow> ('s, 'v) rustls_crate \<Rightarrow> (config \<Rightarrow> string option \<Rightarrow> string + config) \<Rightarrow>
     admin_inputs \<Rightarrow> header_map \<Rightarrow> admin_request \<Rightarrow> ('w, 'c, 's) app_state \<Rightarrow>
     admin_reply exec \<times> ('w, 'c, 's) app_state \<times> audit_event list" where
  "admin_handle C E R extract inp headers rq st =
     (if protected rq \<and> \<not> admin_authorized st headers
      then (Ret \<lparr>ar_status = 401, ar_body = AdminText ''unauthorized''\<rparr>, st, [])
      else admin_dispatch C E R extract inp rq st)"

section \<open>Keys and their lifecycle\<close>

text \<open>
  Revocation addresses a key by its identifier. Nothing keeps identifiers apart: they are free text in a
  configuration file, and a removal takes out one key that has the identifier.
\<close>

definition key_removed :: "key_store \<Rightarrow> virtual_key \<Rightarrow> key_store \<Rightarrow> bool" where
  "key_removed ks k ks' \<longleftrightarrow> k \<in> set (keystore_list ks) \<and> set (keystore_list ks') = set (keystore_list ks) - {k} \<and>
     (\<forall>C token. keystore_authenticate C ks' token =
        (if hash_token C token = vk_hash k then None else keystore_authenticate C ks token))"

lemma keystore_filed: "keystore_wf ks \<Longrightarrow> (h, k) \<in> set (by_hash ks) \<Longrightarrow> h = vk_hash k"
  by (auto simp: keystore_wf_def list_all_iff)

lemma remove_by_id_found:
  "keystore_remove_by_id ks kid = (ks', found) \<Longrightarrow> found \<longleftrightarrow> (\<exists>k \<in> set (keystore_list ks). vk_id k = kid)"
  using keystore_remove_TrueD [of ks kid ks'] keystore_remove_FalseD [of ks kid ks']
  by (cases found) (force simp: keystore_list_def)+

lemma remove_by_id_removes:
  assumes "keystore_wf ks" "keystore_remove_by_id ks kid = (ks', True)"
  shows "\<exists>k. vk_id k = kid \<and> key_removed ks k ks'"
proof -
  obtain h k where e: "(h, k) \<in> set (by_hash ks)" "vk_id k = kid" "by_hash ks' = tdel h (by_hash ks)"
    using keystore_remove_TrueD [OF assms(2)] by blast
  note h = keystore_filed [OF assms(1)]
  have "k' \<noteq> k \<longleftrightarrow> h' \<noteq> h" if "(h', k') \<in> set (by_hash ks)" for h' k'
  proof -
    have "table_wf (by_hash ks)" using assms(1) by (simp add: keystore_wf_def)
    then have "h' = h \<Longrightarrow> k' = k" using that e(1) by (metis tget_in_set option.inject)
    then show ?thesis using h [OF that] h [OF e(1)] by blast
  qed
  then have "k' \<in> set (keystore_list ks') \<longleftrightarrow> k' \<in> set (keystore_list ks) \<and> k' \<noteq> k" for k'
    by (auto simp: keystore_list_def e(3) set_tdel in_set_conv_decomp image_iff)
  then have "set (keystore_list ks') = set (keystore_list ks) - {k}" by blast
  moreover have "k \<in> set (keystore_list ks)" using e(1) by (force simp: keystore_list_def)
  ultimately have "key_removed ks k ks'" using e(3) h [OF e(1)] by (simp add: key_removed_def keystore_authenticate_def)
  with e(2) show ?thesis by blast
qed

text \<open>What a request is identified as after a removal: with no key left the proxy is open.\<close>

lemma removed_empty: "keystore_wf ks \<Longrightarrow> key_removed ks k ks' \<Longrightarrow> keystore_is_empty ks' \<longleftrightarrow> keystore_list ks = [k]"
proof
  assume wf: "keystore_wf ks" and rm: "key_removed ks k ks'" and "keystore_is_empty ks'"
  then have only: "set (keystore_list ks) \<subseteq> {k}" by (simp add: key_removed_def keystore_is_empty_def keystore_list_def)
  have "e = (vk_hash k, k)" if "e \<in> set (by_hash ks)" for e
  proof -
    have "snd e = k" using only that by (auto simp: keystore_list_def)
    moreover have "fst e = vk_hash (snd e)" using keystore_filed [OF wf, of "fst e" "snd e"] that by simp
    ultimately show ?thesis by (metis prod.collapse)
  qed
  moreover have "distinct (by_hash ks)" using wf by (auto simp: keystore_wf_def table_wf_def distinct_map)
  moreover have "by_hash ks \<noteq> []" using rm by (auto simp: key_removed_def keystore_list_def)
  ultimately have all: "set (by_hash ks) = {(vk_hash k, k)}" and dist: "distinct (by_hash ks)"
    by (metis all_not_in_conv set_empty subset_singletonD subsetI singletonI, blast)
  have "length (by_hash ks) = 1" using distinct_card [OF dist] by (simp add: all)
  with all have "by_hash ks = [(vk_hash k, k)]" by (auto simp: length_Suc_conv)
  then show "keystore_list ks = [k]" by (simp add: keystore_list_def)
qed (auto simp: key_removed_def keystore_is_empty_def keystore_list_def)

lemma removed_identify:
  assumes "keystore_wf ks" "key_removed ks k ks'"
  shows "identify E ks' headers =
    (if keystore_list ks = [k] then Some anonymous
     else if map_option (hash_token (px_crypto E)) (bearer_token headers) = Some (vk_hash k) then None
     else identify E ks headers)"
proof -
  have "\<not> keystore_is_empty ks" using assms(2) by (auto simp: key_removed_def keystore_is_empty_def keystore_list_def)
  with removed_empty [OF assms] assms(2) show ?thesis
    by (cases "bearer_token headers") (auto simp: identify_def key_removed_def)
qed

section \<open>Properties\<close>

text \<open>The concrete gateway of the proxy's witnesses, with an admin token.\<close>

definition example_app :: "(nat, (string \<times> cached_response) list, unit) app_state" where
  "example_app = app_state_new 0 config_default (Some ''secret'') example_state None None status_file"

text \<open>
  C11. The admin gate: with an admin token configured, every endpoint but the two health probes is
  served exactly when the request carries that very token; any other request gets 401, changes nothing and is not audited.
\<close>

theorem admin_gate:
  assumes "rq \<notin> {GetHealthz, GetReadyz}" and "ap_admin_token st = Some expected"
  shows "admin_handle C E R extract inp headers rq st =
    (if bearer_token headers = Some expected then admin_dispatch C E R extract inp rq st
     else (Ret \<lparr>ar_status = 401, ar_body = AdminText ''unauthorized''\<rparr>, st, []))"
proof -
  have "protected rq" using assms(1) by (cases rq) simp_all
  with assms(2) show ?thesis
    by (simp add: admin_handle_def admin_authorized_def constant_time_eq_iff split: option.split)
qed

theorem admin_gate_witness:
  "\<forall>C E R extract inp. admin_handle C E R extract inp [(''authorization'', ''Bearer guess'')] GetKeys example_app =
     (Ret \<lparr>ar_status = 401, ar_body = AdminText ''unauthorized''\<rparr>, example_app, [])"
proof (intro allI)
  fix C E R ex inp
  have "bearer_token [(''authorization'', ''Bearer guess'')] = Some ''guess''" by code_simp
  then show "admin_handle C E R ex inp [(''authorization'', ''Bearer guess'')] GetKeys example_app =
     (Ret \<lparr>ar_status = 401, ar_body = AdminText ''unauthorized''\<rparr>, example_app, [])"
    using admin_gate [of GetKeys example_app "''secret''" C E R ex inp "[(''authorization'', ''Bearer guess'')]"]
    by (simp add: example_app_def app_state_new_def)
qed

text \<open>
  C12. An issued key works: the token returned by key creation authenticates at the proxy as a key with
  exactly the requested scope, limits and expiry, and tokens with other hashes keep their meaning in the
  key store; a first key closes the proxy that was open to them.
\<close>

theorem created_key_authenticates:
  assumes "create_key C entropy rq st = (Ret \<lparr>ar_status = 201, ar_body = AdminCreated token summary\<rparr>, st', evs)"
    and "bearer_token headers = Some token" and "px_crypto E = C"
  shows "\<exists>key. identify E (ps_keys (ap_proxy st')) headers = Some key \<and> key_summary_of key = summary \<and>
     vk_models key = ck_models rq \<and> vk_rate_limit_rps key = ck_rate_limit_rps rq \<and>
     vk_spend_limit key = ck_spend_limit rq \<and> vk_expires_at key = ck_expires_at rq \<and>
     (\<forall>token'. hash_token C token' \<noteq> hash_token C token \<longrightarrow>
        keystore_authenticate C (ps_keys (ap_proxy st')) token' =
        keystore_authenticate C (ps_keys (ap_proxy st)) token')"
proof -
  obtain g where g: "generate_key C entropy = Some g" "token = gk_token g"
    "summary = key_summary_of (new_virtual_key g rq)"
    "st' = update_keys (\<lambda>ks. keystore_insert ks (new_virtual_key g rq)) st"
    using assms(1) by (auto simp: create_key_def Let_def split: option.splits)
  have h: "gk_hash g = hash_token C (gk_token g)"
    using g(1) by (auto simp: generate_key_def Let_def split: option.splits)
  have "\<not> keystore_is_empty (keystore_insert ks k)" for ks k
    by (auto simp: keystore_is_empty_def keystore_insert_def tput_def)
  then show ?thesis using g h assms(2,3)
    by (auto simp: update_keys_def identify_def keystore_authenticate_insert new_virtual_key_def)
qed

definition example_create :: create_key_request where
  "example_create = \<lparr>ck_team = ''t'', ck_app = ''a'', ck_env = ''prod'', ck_models = [''m''],
     ck_rate_limit_rps = Some 5, ck_spend_limit = None, ck_expires_at = None\<rparr>"

theorem created_key_authenticates_witness:
  "\<exists>token summary st' evs key.
     create_key example_crypto ''abcdefghijklmnop'' example_create example_app =
       (Ret \<lparr>ar_status = 201, ar_body = AdminCreated token summary\<rparr>, st', evs) \<and>
     identify example_env (ps_keys (ap_proxy st')) [(''authorization'', ''Bearer vp_abcdefghijklmnop'')] = Some key \<and>
     vk_models key = [''m''] \<and> vk_rate_limit_rps key = Some 5"
proof -
  have g: "generate_key example_crypto ''abcdefghijklmnop'' =
      Some \<lparr>gk_token = ''vp_abcdefghijklmnop'', gk_id = ''vp_abcdefghijkl'', gk_hash = ''vp_abcdefghijklmnop''\<rparr>"
    by code_simp
  then obtain summary st' evs where c: "create_key example_crypto ''abcdefghijklmnop'' example_create example_app =
      (Ret \<lparr>ar_status = 201, ar_body = AdminCreated ''vp_abcdefghijklmnop'' summary\<rparr>, st', evs)"
    by (simp add: create_key_def Let_def)
  have b: "bearer_token [(''authorization'', ''Bearer vp_abcdefghijklmnop'')] = Some ''vp_abcdefghijklmnop''" by code_simp
  have "px_crypto example_env = example_crypto" by (simp add: example_env_def)
  from created_key_authenticates [OF c b this] obtain key where "identify example_env (ps_keys (ap_proxy st')) [(''authorization'', ''Bearer vp_abcdefghijklmnop'')] = Some key"
    "vk_models key = ck_models example_create" "vk_rate_limit_rps key = ck_rate_limit_rps example_create"
    by blast
  moreover have "ck_models example_create = [''m'']" "ck_rate_limit_rps example_create = Some 5"
    by (simp_all add: example_create_def)
  ultimately show ?thesis using c by auto
qed

text \<open>
  C13. Revocation: deleting by an identifier that a key has takes exactly one such key out of the store, resets the
  limiter and ledger entries filed under the identifier and no others, and answers 204; an identifier no key has
  is answered with 404 and changes nothing. Both are audited. While keys remain, a request with the removed
  key's token is refused and every other request is identified as before, also by another key that has the
  same identifier; when the removed key was the last, every request is identified as anonymous.
\<close>

theorem deleted_key_revoked:
  assumes "keystore_wf (ps_keys (ap_proxy st))" and "delete_key kid st = (r, st', evs)"
  shows "let ks = ps_keys (ap_proxy st); ks' = ps_keys (ap_proxy st'); held = (\<exists>k \<in> set (keystore_list ks). vk_id k = kid)
    in evs = [key_revoked ADMIN_ACTOR kid held] \<and>
       (if \<not> held then ar_status r = 404 \<and> st' = st
        else ar_status r = 204 \<and>
          (\<exists>k. k \<in> set (keystore_list ks) \<and> vk_id k = kid \<and> set (keystore_list ks') = set (keystore_list ks) - {k} \<and>
             (\<forall>headers. identify E ks' headers =
                (if keystore_list ks = [k] then Some anonymous
                 else if map_option (hash_token (px_crypto E)) (bearer_token headers) = Some (vk_hash k) then None
                 else identify E ks headers))) \<and>
          (\<forall>a. tget (ps_rate_limiter (ap_proxy st')) a = (if a = kid then None else tget (ps_rate_limiter (ap_proxy st)) a) \<and>
               tget (ps_spend_tracker (ap_proxy st')) a = (if a = kid then None else tget (ps_spend_tracker (ap_proxy st)) a)))"
proof (cases "keystore_remove_by_id (ps_keys (ap_proxy st)) kid")
  case (Pair ks found)
  note held = remove_by_id_found [OF Pair]
  show ?thesis
  proof (cases found)
    case True
    with Pair obtain k where k: "vk_id k = kid" "key_removed (ps_keys (ap_proxy st)) k ks"
      using remove_by_id_removes [OF assms(1), of kid ks] by auto
    with removed_identify [OF assms(1) k(2), of E] True Pair held assms(2) show ?thesis
      by (auto simp: delete_key_def rate_limiter_forget_def spend_forget_def Let_def key_removed_def intro!: exI [of _ k])
  next
    case False
    with Pair held assms(2) show ?thesis by (auto simp: delete_key_def)
  qed
qed

lemma example_app_keys:
  "ps_keys (ap_proxy example_app) = keystore_new [example_key]" "keystore_list (keystore_new [example_key]) = [example_key]"
  by (simp_all add: example_app_def app_state_new_def example_state_def keystore_list_def keystore_new_def
      tcollect_def tput_def)

text \<open>Two keys of one identifier, whose tokens are \<open>t\<close> and \<open>u\<close>: one deletion revokes one of them.\<close>

definition example_twin :: virtual_key where
  "example_twin = example_key\<lparr>vk_hash := ''u''\<rparr>"

definition twin_app :: "(nat, (string \<times> cached_response) list, unit) app_state" where
  "twin_app = example_app\<lparr>ap_proxy := (ap_proxy example_app)\<lparr>ps_keys := keystore_new [example_key, example_twin]\<rparr>\<rparr>"

lemma twin_app_keys: "ps_keys (ap_proxy twin_app) = keystore_new [example_key, example_twin]"
  "set (keystore_list (keystore_new [example_key, example_twin])) = {example_key, example_twin}"
  "vk_id example_key = ''vp_a''" "vk_id example_twin = ''vp_a''" "example_key \<noteq> example_twin"
  by (auto simp: twin_app_def example_twin_def example_key_def keystore_list_def keystore_new_def tcollect_def tput_def
      dest: arg_cong [where f = vk_hash])

theorem deleted_key_revoked_witness:
  "ar_status (fst (delete_key ''vp_a'' twin_app)) = 204 \<and>
   (\<exists>k. set (keystore_list (ps_keys (ap_proxy (fst (snd (delete_key ''vp_a'' twin_app)))))) = {example_key, example_twin} - {k} \<and>
      k \<in> {example_key, example_twin} \<and>
      (\<forall>headers. map_option (hash_token (px_crypto example_env)) (bearer_token headers) = Some (vk_hash k) \<longrightarrow>
         identify example_env (ps_keys (ap_proxy (fst (snd (delete_key ''vp_a'' twin_app))))) headers = None))"
proof -
  have wf: "keystore_wf (ps_keys (ap_proxy twin_app))" by (simp add: twin_app_keys keystore_wf_new)
  have two: "keystore_list (keystore_new [example_key, example_twin]) \<noteq> [k]" for k
    using twin_app_keys(2,5) by (metis empty_set insert_iff list.simps(15) singletonD)
  obtain r st' evs where d: "delete_key ''vp_a'' twin_app = (r, st', evs)" by (metis prod_cases3)
  from deleted_key_revoked [OF wf d, of example_env] show ?thesis
    by (auto simp: twin_app_keys d two Let_def)
qed

text \<open>
  Deleting the last key opens the proxy: when the store holds one key and it is revoked, every
  request from then on, with any token or none, is identified as the anonymous key, which has no
  scope, limit or expiry.
\<close>

theorem last_key_deletion_opens_proxy:
  assumes "keystore_list (ps_keys (ap_proxy st)) = [k]"
  shows "identify E (ps_keys (ap_proxy (fst (snd (delete_key (vk_id k) st))))) headers = Some anonymous"
proof -
  obtain h where "by_hash (ps_keys (ap_proxy st)) = [(h, k)]"
    using assms by (auto simp: keystore_list_def)
  then show ?thesis
    by (simp add: delete_key_def keystore_remove_by_id_def identify_def keystore_is_empty_def tdel_def)
qed

theorem last_key_deletion_opens_proxy_witness:
  "identify example_env (ps_keys (ap_proxy (fst (snd (delete_key (vk_id example_key) example_app))))) [] = Some anonymous"
  by (rule last_key_deletion_opens_proxy) (simp add: example_app_keys)

end
