(* ===== verification/ControlMap.thy ===== *)
theory ControlMap
  imports Config
begin

text \<open>
  The Control Node's wire types (\<open>control_plane/dto.rs\<close>) and their overlay onto the gateway's
  local configuration (\<open>control_plane/map.rs\<close>).
\<close>

section \<open>Wire types\<close>

record dto_route =
  dr_provider :: string
  dr_model :: string

record dto_model =
  dm_name :: string
  dm_primary :: dto_route
  dm_fallbacks :: "dto_route list"
  dm_retry_on :: "u16 list option"
  dm_timeout_ms :: "u64 option"

record dto_provider =
  dp_base_url :: "string option"
  dp_api_key_env :: "string option"

record dto_azure =
  da_base_url :: "string option"
  da_api_key_env :: "string option"
  da_api_version :: "string option"

record dto_bedrock =
  db_region :: "string option"
  db_access_key_env :: "string option"
  db_secret_key_env :: "string option"
  db_session_token_env :: "string option"

record dto_providers =
  ds_openai :: "dto_provider option"
  ds_anthropic :: "dto_provider option"
  ds_azure :: "dto_azure option"
  ds_bedrock :: "dto_bedrock option"

record dto_model_pricing =
  input_per1k :: f64
  output_per1k :: f64

record dto_pricing =
  dpr_providers :: "dto_model_pricing table table"

record dto_pii =
  dpii_patterns :: "pii_pattern list option"
  dpii_replacement :: "string option"

record dto_wasm =
  dw_name :: string
  dw_path :: string
  dw_hook :: string
  dw_latency_budget_ms :: "u32 option"
  dw_on_timeout :: "fail_mode option"
  dw_bind_routes :: "string list"

datatype dto_plugin = DtoPii dto_pii | DtoWasm dto_wasm

record dto_cache =
  dc_enabled :: "bool option"
  dc_size_mb :: "u64 option"
  dc_ttl_seconds :: "u64 option"

record gateway_config =
  gc_version :: string
  gc_models :: "dto_model list"
  gc_providers :: dto_providers
  gc_pricing :: "dto_pricing option"
  gc_plugins :: "dto_plugin list"
  gc_cache :: "dto_cache option"

datatype spend_period = PeriodDay | PeriodWeek | PeriodMonth

record dto_spend_limit =
  dsl_amount_usd :: f64
  dsl_period :: spend_period

record key_limits =
  kl_requests_per_second :: "u32 option"
  kl_spend_limit :: "dto_spend_limit option"

record key_scope =
  ks_team :: string
  ks_app :: string
  ks_env :: string
  ks_allowed_models :: "string list"

record dto_key =
  dk_id :: string
  dk_hashed_key :: string
  dk_scope :: key_scope
  dk_limits :: "key_limits option"
  dk_expires_at :: "string option"

record key_set =
  kset_version :: string
  kset_keys :: "dto_key list"

record gateway_identity =
  gi_gateway_id :: string
  gi_org_id :: string
  gi_group :: "string option"
  gi_environment :: string
  gi_config_version :: "string option"
  gi_keys_version :: "string option"

section \<open>Mapping\<close>

definition map_route :: "dto_route \<Rightarrow> route" where
  "map_route r = \<lparr>rt_provider = dr_provider r, rt_model = dr_model r\<rparr>"

definition map_model :: "dto_model \<Rightarrow> model_config" where
  "map_model m =
     \<lparr>mc_name = dm_name m, mc_primary = map_route (dm_primary m),
      mc_fallbacks = map map_route (dm_fallbacks m),
      mc_retry_on = unwrap_or (dm_retry_on m) [429, 500, 502, 503, 504],
      mc_timeout_ms = unwrap_or (dm_timeout_ms m) 30000\<rparr>"

definition apply_openai :: "dto_provider option \<Rightarrow> openai_provider \<Rightarrow> openai_provider" where
  "apply_openai p base =
     (case p of
        None \<Rightarrow> base
      | Some o' \<Rightarrow> \<lparr>oa_base_url = unwrap_or (dp_base_url o') (oa_base_url base),
                   oa_api_key_env = unwrap_or (dp_api_key_env o') (oa_api_key_env base)\<rparr>)"

definition apply_anthropic :: "dto_provider option \<Rightarrow> anthropic_provider \<Rightarrow> anthropic_provider" where
  "apply_anthropic p base =
     (case p of
        None \<Rightarrow> base
      | Some a \<Rightarrow> base\<lparr>an_base_url := unwrap_or (dp_base_url a) (an_base_url base),
                      an_api_key_env := unwrap_or (dp_api_key_env a) (an_api_key_env base)\<rparr>)"

definition apply_azure :: "dto_azure option \<Rightarrow> azure_provider \<Rightarrow> azure_provider" where
  "apply_azure p base =
     (case p of
        None \<Rightarrow> base
      | Some a \<Rightarrow> \<lparr>az_base_url = unwrap_or (da_base_url a) (az_base_url base),
                  az_api_key_env = unwrap_or (da_api_key_env a) (az_api_key_env base),
                  az_api_version = unwrap_or (da_api_version a) (az_api_version base)\<rparr>)"

definition apply_bedrock :: "dto_bedrock option \<Rightarrow> bedrock_provider \<Rightarrow> bedrock_provider" where
  "apply_bedrock p base =
     (case p of
        None \<Rightarrow> base
      | Some b \<Rightarrow> base\<lparr>br_region := unwrap_or (db_region b) (br_region base),
                      br_access_key_env := unwrap_or (db_access_key_env b) (br_access_key_env base),
                      br_secret_key_env := unwrap_or (db_secret_key_env b) (br_secret_key_env base),
                      br_session_token_env := unwrap_or (db_session_token_env b) (br_session_token_env base)\<rparr>)"

definition apply_providers :: "dto_providers \<Rightarrow> providers \<Rightarrow> providers" where
  "apply_providers p base =
     base\<lparr>pr_openai := apply_openai (ds_openai p) (pr_openai base),
          pr_anthropic := apply_anthropic (ds_anthropic p) (pr_anthropic base),
          pr_azure := apply_azure (ds_azure p) (pr_azure base),
          pr_bedrock := apply_bedrock (ds_bedrock p) (pr_bedrock base)\<rparr>"

definition map_pricing :: "dto_pricing \<Rightarrow> pricing" where
  "map_pricing p =
     \<lparr>pricing_providers =
        tcollect (map (\<lambda>(provider, models).
           (provider, tcollect (map (\<lambda>(model, rates).
              (model, \<lparr>input_per_1k_tokens_usd = input_per1k rates,
                       output_per_1k_tokens_usd = output_per1k rates\<rparr>)) models)))
           (dpr_providers p))\<rparr>"

definition apply_cache :: "dto_cache \<Rightarrow> cache_config \<Rightarrow> cache_config" where
  "apply_cache c base =
     \<lparr>cc_enabled = unwrap_or (dc_enabled c) (cc_enabled base),
      cc_size_mb = unwrap_or (dc_size_mb c) (cc_size_mb base),
      cc_ttl_seconds = unwrap_or (dc_ttl_seconds c) (cc_ttl_seconds base)\<rparr>"

definition map_plugin :: "dto_plugin \<Rightarrow> plugin_config" where
  "map_plugin p =
     (case p of
        DtoPii pii \<Rightarrow>
          PiiRedaction \<lparr>prc_patterns = unwrap_or (dpii_patterns pii) pii_pattern_all,
                        prc_replacement = unwrap_or (dpii_replacement pii) ''[REDACTED]''\<rparr>
      | DtoWasm w \<Rightarrow>
          WasmComponent \<lparr>wp_name = dw_name w, wp_path = dw_path w, wp_hook = dw_hook w,
                         wp_latency_budget_ms = unwrap_or (dw_latency_budget_ms w) 5,
                         wp_on_timeout = unwrap_or (dw_on_timeout w) FailOpen,
                         wp_bind_routes = dw_bind_routes w\<rparr>)"

definition apply_config :: "config \<Rightarrow> gateway_config \<Rightarrow> config" where
  "apply_config base bundle =
     base\<lparr>cfg_models := map map_model (gc_models bundle),
          cfg_providers := apply_providers (gc_providers bundle) (cfg_providers base),
          cfg_pricing := (case gc_pricing bundle of Some p \<Rightarrow> map_pricing p | None \<Rightarrow> cfg_pricing base),
          cfg_cache := (case gc_cache bundle of Some c \<Rightarrow> apply_cache c (cfg_cache base) | None \<Rightarrow> cfg_cache base),
          cfg_plugins := map map_plugin (gc_plugins bundle)\<rparr>"

definition map_spend :: "dto_spend_limit \<Rightarrow> spend_limit" where
  "map_spend s =
     \<lparr>amount_usd = dsl_amount_usd s,
      sl_period = (case dsl_period s of PeriodDay \<Rightarrow> Day | PeriodWeek \<Rightarrow> Week | PeriodMonth \<Rightarrow> Month)\<rparr>"

definition map_key :: "dto_key \<Rightarrow> virtual_key" where
  "map_key k =
     (let (rps, spend) =
            (case dk_limits k of
               Some limits \<Rightarrow> (kl_requests_per_second limits, map_option map_spend (kl_spend_limit limits))
             | None \<Rightarrow> (None, None))
      in \<lparr>vk_id = dk_id k, vk_hash = dk_hashed_key k, vk_team = ks_team (dk_scope k),
          vk_app = ks_app (dk_scope k), vk_env = ks_env (dk_scope k),
          vk_models = ks_allowed_models (dk_scope k), vk_rate_limit_rps = rps,
          vk_spend_limit = spend, vk_expires_at = dk_expires_at k\<rparr>)"

definition to_virtual_keys :: "dto_key list \<Rightarrow> virtual_key list" where
  "to_virtual_keys keys = map map_key keys"

section \<open>Properties\<close>

text \<open>
  Node-local settings survive every bundle: the listeners, the control-plane settings, the
  shutdown policy and the local authentication block are those of the local configuration, and a
  bundle that states no provider, pricing or cache settings leaves those as they are.
\<close>

lemma apply_config_node_local:
  "cfg_listen (apply_config base bundle) = cfg_listen base \<and>
   cfg_control_plane (apply_config base bundle) = cfg_control_plane base \<and>
   cfg_shutdown (apply_config base bundle) = cfg_shutdown base \<and>
   cfg_auth (apply_config base bundle) = cfg_auth base \<and>
   cfg_providers (apply_config base (bundle\<lparr>gc_providers :=
      \<lparr>ds_openai = None, ds_anthropic = None, ds_azure = None, ds_bedrock = None\<rparr>\<rparr>)) = cfg_providers base \<and>
   cfg_pricing (apply_config base (bundle\<lparr>gc_pricing := None\<rparr>)) = cfg_pricing base \<and>
   cfg_cache (apply_config base (bundle\<lparr>gc_cache := None\<rparr>)) = cfg_cache base"
  by (simp add: apply_config_def apply_providers_def apply_openai_def apply_anthropic_def
      apply_azure_def apply_bedrock_def)

text \<open>Applying a bundle twice is applying it once.\<close>

lemma apply_providers_idem: "apply_providers p (apply_providers p base) = apply_providers p base"
  by (cases "ds_openai p"; cases "ds_anthropic p"; cases "ds_azure p"; cases "ds_bedrock p")
    (simp_all add: apply_providers_def apply_openai_def apply_anthropic_def apply_azure_def
      apply_bedrock_def unwrap_or_def split: option.split)

text \<open>
  Overlaying is idempotent: re-applying the bundle a gateway already runs, as after a restart of
  the poll loop, changes nothing.
\<close>

theorem apply_config_idem: "apply_config (apply_config base bundle) bundle = apply_config base bundle"
  by (simp add: apply_config_def apply_providers_idem apply_cache_def unwrap_or_def split: option.split)

end
