(* ===== verification/ControlClient.thy ===== *)
theory ControlClient
  imports ControlMap ControlStatus Runtime
begin

text \<open>
  The Control Node client (\<open>control_plane/client.rs\<close>, \<open>control_plane.rs\<close>): conditional fetches, the
  poll of configuration and keys, and the tick that applies them. HTTP and the derived decoders
  are parameters.
\<close>

definition ACTOR :: string where "ACTOR = ''control-plane''"

record node_response =
  nr_status :: u16
  nr_etag :: "string option"
  nr_body :: "string + bytes"

record 'w node_http =
  nh_get :: "string \<Rightarrow> (string \<times> string) list \<Rightarrow> 'w \<Rightarrow> (string + node_response) \<times> 'w"
  nh_show_status :: "u16 \<Rightarrow> string"
  nh_de_config :: "bytes \<Rightarrow> string + gateway_config"
  nh_de_keys :: "bytes \<Rightarrow> string + key_set"
  nh_de_identity :: "bytes \<Rightarrow> string + gateway_identity"

datatype 'a fetch = Modified 'a "string option" | NotModified

record node_client =
  cl_config_url :: string
  cl_keys_url :: string
  cl_identity_url :: string
  cl_token :: string
  cl_config_etag :: "string option"
  cl_keys_etag :: "string option"

definition client_new :: "(anyhow + unit) \<Rightarrow> string \<Rightarrow> string \<Rightarrow> anyhow + node_client" where
  "client_new build endpoint token =
     (case build of
        Inl e \<Rightarrow> Inl e
      | Inr _ \<Rightarrow>
          let base = trim_end_matches (CHR ''/'') endpoint
          in Inr \<lparr>cl_config_url = base @ ''/config'', cl_keys_url = base @ ''/keys'',
                  cl_identity_url = base @ ''/identity'', cl_token = token, cl_config_etag = None,
                  cl_keys_etag = None\<rparr>)"

definition node_headers :: "node_client \<Rightarrow> string option \<Rightarrow> (string \<times> string) list" where
  "node_headers cl etag =
     (''authorization'', ''Bearer '' @ cl_token cl) #
     (case etag of Some t \<Rightarrow> [(''if-none-match'', t)] | None \<Rightarrow> [])"

definition sync_fail :: "resource \<Rightarrow> reason \<Rightarrow> string \<Rightarrow> sync_failure" where
  "sync_fail res why detail = \<lparr>sf_resource = res, sf_reason = why, sf_detail = detail\<rparr>"

definition resource_of :: "node_client \<Rightarrow> resource \<Rightarrow> string \<times> string option" where
  "resource_of cl res =
     (case res of
        ConfigResource \<Rightarrow> (cl_config_url cl, cl_config_etag cl)
      | KeysResource \<Rightarrow> (cl_keys_url cl, cl_keys_etag cl))"

definition fetch_resource ::
  "'w node_http \<Rightarrow> (bytes \<Rightarrow> string + 'a) \<Rightarrow> node_client \<Rightarrow> resource \<Rightarrow> 'w \<Rightarrow> (sync_failure + 'a fetch) \<times> 'w" where
  "fetch_resource N de cl res w =
     (case resource_of cl res of (url, etag) \<Rightarrow>
        (case nh_get N url (node_headers cl etag) w of
           (Inl e, w') \<Rightarrow> (Inl (sync_fail res Transport e), w')
         | (Inr resp, w') \<Rightarrow>
             (if nr_status resp = 200 then
                (case nr_body resp of
                   Inl e \<Rightarrow> Inl (sync_fail res InvalidBody e)
                 | Inr bs \<Rightarrow>
                     (case de bs of
                        Inl e \<Rightarrow> Inl (sync_fail res InvalidBody e)
                      | Inr body \<Rightarrow> Inr (Modified body (nr_etag resp))))
              else if nr_status resp = 304 then Inr NotModified
              else if nr_status resp = 401 then
                Inl (sync_fail res Unauthorized
                  ''401 Unauthorized (check control_plane.token_env / token rotation)'')
              else
                Inl (sync_fail res UnexpectedStatus
                  (''control node returned unexpected status '' @ nh_show_status N (nr_status resp) @ '' for '' @ url)),
              w')))"

definition poll_config ::
  "'w node_http \<Rightarrow> ('w, 'c, 'r, 'k) build_env \<Rightarrow> config \<Rightarrow> node_client \<Rightarrow> ('w, 'c) runtime \<Rightarrow> 'w \<Rightarrow>
     poll_result \<times> node_client \<times> ('w, 'c) runtime \<times> audit_event list \<times> 'w" where
  "poll_config N E base cl rt w =
     (case fetch_resource N (nh_de_config N) cl ConfigResource w of
        (Inl f, w') \<Rightarrow> (Inl f, cl, rt, [], w')
      | (Inr NotModified, w') \<Rightarrow> (Inr None, cl, rt, [], w')
      | (Inr (Modified bundle etag), w') \<Rightarrow>
          let version = gc_version bundle
          in case build_runtime E (apply_config base bundle) of
               (Inr new_runtime, evs) \<Rightarrow>
                 (Inr (Some version), cl\<lparr>cl_config_etag := etag\<rparr>, new_runtime,
                  evs @ [config_reloaded ACTOR Success (''config '' @ version)], w')
             | (Inl err, evs) \<Rightarrow>
                 (Inl (sync_fail ConfigResource BuildFailed (''config '' @ version @ '': '' @ show_anyhow_chain err)),
                  cl, rt, evs @ [config_reloaded ACTOR Failure (show_anyhow_chain err)], w'))"

definition poll_keys ::
  "'w node_http \<Rightarrow> node_client \<Rightarrow> key_store \<Rightarrow> 'w \<Rightarrow> poll_result \<times> node_client \<times> key_store \<times> 'w" where
  "poll_keys N cl keys w =
     (case fetch_resource N (nh_de_keys N) cl KeysResource w of
        (Inl f, w') \<Rightarrow> (Inl f, cl, keys, w')
      | (Inr NotModified, w') \<Rightarrow> (Inr None, cl, keys, w')
      | (Inr (Modified kset etag), w') \<Rightarrow>
          (Inr (Some (kset_version kset)), cl\<lparr>cl_keys_etag := etag\<rparr>,
           keystore_replace_all keys (to_virtual_keys (kset_keys kset)), w'))"

definition transition_audit :: "transition \<Rightarrow> audit_event list" where
  "transition_audit t =
     (case t of
        NoTransition \<Rightarrow> []
      | Degraded f \<Rightarrow>
          [control_plane_sync Failure (resource_as_str (sf_resource f)) (reason_as_str (sf_reason f)) (sf_detail f)]
      | Recovered \<Rightarrow> [control_plane_sync Success [] [] []])"

text \<open>What a tick works on: the client, the link status, the runtime handle and the key store.\<close>

record ('w, 'c) node_view =
  nv_client :: node_client
  nv_status :: link_status
  nv_runtime :: "('w, 'c) runtime"
  nv_keys :: key_store

definition tick ::
  "'w node_http \<Rightarrow> ('w, 'c, 'r, 'k) build_env \<Rightarrow> config \<Rightarrow> nat \<Rightarrow> ('w, 'c) node_view \<Rightarrow> 'w \<Rightarrow>
     ('w, 'c) node_view \<times> audit_event list \<times> 'w" where
  "tick N E base now v w =
     (case poll_config N E base (nv_client v) (nv_runtime v) w of
        (config, cl, rt, evs, w') \<Rightarrow>
          (case poll_keys N cl (nv_keys v) w' of
             (keys_result, cl', keys, w'') \<Rightarrow>
               (case record_tick now config keys_result (nv_status v) of
                  (status, t) \<Rightarrow>
                    (\<lparr>nv_client = cl', nv_status = status, nv_runtime = rt, nv_keys = keys\<rparr>,
                     evs @ transition_audit t, w''))))"

definition log_identity :: "'w node_http \<Rightarrow> node_client \<Rightarrow> link_status \<Rightarrow> 'w \<Rightarrow> link_status \<times> 'w" where
  "log_identity N cl s w =
     (case nh_get N (cl_identity_url cl) (node_headers cl None) w of
        (Inl e, w') \<Rightarrow> (s, w')
      | (Inr resp, w') \<Rightarrow>
          if nr_status resp = 200 then
            (case nr_body resp of
               Inl e \<Rightarrow> (s, w')
             | Inr bs \<Rightarrow>
                 (case nh_de_identity N bs of
                    Inl e \<Rightarrow> (s, w')
                  | Inr gid \<Rightarrow>
                      (set_identity \<lparr>id_gateway_id = gi_gateway_id gid, id_org_id = gi_org_id gid,
                         id_group = gi_group gid, id_environment = gi_environment gid\<rparr> s, w')))
          else (s, w'))"

text \<open>
  Startup: file mode starts no client; in api mode a missing prerequisite degrades the link and
  starts none, otherwise the client polls with the returned interval in seconds.
\<close>

definition control_plane_start ::
  "(string \<Rightarrow> string option) \<Rightarrow> (anyhow + unit) \<Rightarrow> nat \<Rightarrow> config \<Rightarrow> link_status \<times> (node_client \<times> nat) option" where
  "control_plane_start var build now cfg =
     (let cp = cfg_control_plane cfg
      in case cp_mode cp of
           File \<Rightarrow> (status_file, None)
         | Api \<Rightarrow>
             let status = status_api (unwrap_or (cp_endpoint cp) [])
             in case cp_endpoint cp of
                  None \<Rightarrow> (not_started now ''control_plane.endpoint is unset'' status, None)
                | Some endpoint \<Rightarrow>
                    (case cp_token_env cp of
                       None \<Rightarrow> (not_started now ''control_plane.token_env is unset'' status, None)
                     | Some token_env \<Rightarrow>
                         let token = unwrap_or (var token_env) []
                         in if token = [] then
                              (not_started now (''token env var '' @ token_env @ '' is empty'') status, None)
                            else
                              (case client_new build endpoint token of
                                 Inl err \<Rightarrow>
                                   (not_started now
                                      (''failed to build api-mode client: '' @ show_anyhow_chain err) status, None)
                               | Inr client \<Rightarrow>
                                   (status, Some (client, max (unat (cp_poll_interval_seconds cp)) 1)))))"

section \<open>Properties\<close>

text \<open>
  C33. Last-known-good configuration: a poll that does not apply a bundle (transport failure, 401,
  unexpected status, undecodable body, 304, or a bundle that does not build) leaves the runtime and
  the committed ETag as they were; one that does installs the runtime built from the overlay of that
  bundle and commits the ETag of the same response.
\<close>

theorem poll_config_last_known_good:
  "case poll_config N E base cl rt w of
     (Inl f, cl', rt', evs, w') \<Rightarrow> cl' = cl \<and> rt' = rt \<and> sf_resource f = ConfigResource
   | (Inr None, cl', rt', evs, w') \<Rightarrow> cl' = cl \<and> rt' = rt \<and> evs = []
   | (Inr (Some version), cl', rt', evs, w') \<Rightarrow>
       (\<exists>bundle etag evs'. fetch_resource N (nh_de_config N) cl ConfigResource w = (Inr (Modified bundle etag), w') \<and>
          build_runtime E (apply_config base bundle) = (Inr rt', evs') \<and>
          version = gc_version bundle \<and> cl' = cl\<lparr>cl_config_etag := etag\<rparr>)"
  by (auto simp: poll_config_def fetch_resource_def sync_fail_def Let_def
      split: prod.splits sum.splits fetch.splits if_splits)

text \<open>
  Key distribution: after a tick that applied a key set, a token authenticates exactly when its
  hash is one of the set's, as the last key listed with that hash; after any other tick the key
  store and the committed ETag are unchanged.
\<close>

theorem poll_keys_replaces:
  "case poll_keys N cl keys w of
     (Inr (Some version), cl', keys', w') \<Rightarrow>
       (\<exists>kset etag. fetch_resource N (nh_de_keys N) cl KeysResource w = (Inr (Modified kset etag), w') \<and>
          version = kset_version kset \<and> cl' = cl\<lparr>cl_keys_etag := etag\<rparr> \<and>
          (\<forall>token. keystore_authenticate C keys' token =
             find (\<lambda>k. vk_hash k = hash_token C token) (rev (to_virtual_keys (kset_keys kset)))))
   | (_, cl', keys', w') \<Rightarrow> cl' = cl \<and> keys' = keys"
  by (auto simp: poll_keys_def keystore_authenticate_replace_all split: prod.splits sum.splits fetch.splits)

end
