(* ===== verification/Transition.thy ===== *)
theory Transition
  imports Prelude
begin

text \<open>
  The interface of a component that takes one event at a time: a step function and an invariant
  every step keeps. The client lemmas lift the invariant to runs, and lift what single steps
  never change to what runs never change.
\<close>

locale event_system =
  fixes step :: "'s \<Rightarrow> 'e \<Rightarrow> 's"
    and inv :: "'s \<Rightarrow> bool"
  assumes inv_step: "inv s \<Longrightarrow> inv (step s e)"
begin

lemma inv_run: "inv s \<Longrightarrow> inv (fold (\<lambda>e s. step s e) es s)"
  by (induction es arbitrary: s) (simp_all add: inv_step)

lemma inv_every_prefix: "inv s \<Longrightarrow> inv (fold (\<lambda>e s. step s e) (take n es) s)"
  by (rule inv_run)

end

text \<open>
  A system with an observation: when every event that is not in \<open>touches\<close> leaves the observation
  of a state alone, a run without such events does.
\<close>

locale observed_system = event_system +
  fixes obs :: "'s \<Rightarrow> 'o"
    and touches :: "'s \<Rightarrow> 'e \<Rightarrow> bool"
  assumes obs_step: "inv s \<Longrightarrow> \<not> touches s e \<Longrightarrow> obs (step s e) = obs s"
begin

lemma obs_change_has_cause:
  "inv s \<Longrightarrow> obs (fold (\<lambda>e s. step s e) es s) \<noteq> obs s \<Longrightarrow>
     \<exists>n < length es. touches (fold (\<lambda>e s. step s e) (take n es) s) (es ! n)"
proof (induction es arbitrary: s)
  case (Cons e es)
  show ?case
  proof (cases "touches s e")
    case True
    then show ?thesis by (intro exI [of _ 0]) simp
  next
    case False
    with Cons obtain n where "n < length es" "touches (fold (\<lambda>e s. step s e) (take n es) (step s e)) (es ! n)"
      using inv_step obs_step by (metis fold_simps(2))
    then show ?thesis by (intro exI [of _ "Suc n"]) simp
  qed
qed simp

end

end
