(* ===== verification/Gateway.thy ===== *)
theory Gateway
  imports Admin ControlClient Transition
begin

text \<open>
  The gateway process (\<open>main.rs\<close>): startup, and the events its servers and background tasks handle
  once it serves: proxy requests, items of streamed responses, admin requests, SIGHUP, Control
  Node polls, readiness probes, and the shutdown sequence. Each event is one step on the shared
  state; a handler's own reads and writes are not interleaved with another's.
\<close>

section \<open>Platform and state\<close>

text \<open>
  What the process runs on: the crates of its components, the parser of socket addresses and the
  binding of a listener, both of the operating system's network interface.
\<close>

record ('w, 'c, 'r, 'k, 's, 'v) platform =
  pf_build :: "('w, 'c, 'r, 'k) build_env"
  pf_rustls :: "('s, 'v) rustls_crate"
  pf_extract :: "config \<Rightarrow> string option \<Rightarrow> string + config"
  pf_proxy :: "'c proxy_env"
  pf_node :: "'w node_http"
  pf_node_client :: "anyhow + unit"
  pf_parse_addr :: "string \<Rightarrow> anyhow + string"
  pf_bind :: "string \<Rightarrow> anyhow + unit"

datatype phase = Serving | Draining nat | Exited

record ('w, 'c, 's) gateway =
  gw_app :: "('w, 'c, 's) app_state"
  gw_client :: "node_client option"
  gw_base :: config
  gw_streams :: "usage_observer list"
  gw_phase :: phase
  gw_drain_timeout :: nat

section \<open>Startup\<close>

definition initial_proxy :: "('w, 'c) runtime \<Rightarrow> config \<Rightarrow> ('w, 'c) proxy_state" where
  "initial_proxy rt cfg =
     \<lparr>ps_runtime = rt, ps_keys = keystore_new (auth_keys (cfg_auth cfg)), ps_rate_limiter = [], ps_spend_tracker = []\<rparr>"

definition startup_tls :: "('s, 'v) rustls_crate \<Rightarrow> config \<Rightarrow> anyhow + 's option" where
  "startup_tls R cfg =
     (case ls_tls (cfg_listen cfg) of
        None \<Rightarrow> Inr None
      | Some tls \<Rightarrow>
          (case with_context ''failed to load TLS material for the proxy listener'' (build_rustls_config R tls) of
             Inl e \<Rightarrow> Inl e
           | Inr s \<Rightarrow> Inr (Some s)))"

text \<open>\<open>run\<close> up to the point where the servers accept: the state they share, or the error.\<close>

definition gateway_run ::
  "('w, 'c, 'r, 'k, 's, 'v) platform \<Rightarrow> nat \<Rightarrow> config \<Rightarrow> string option \<Rightarrow>
     (anyhow + ('w, 'c, 's) gateway) \<times> audit_event list" where
  "gateway_run P now cfg config_path =
     (case with_context (''invalid proxy listen address: '' @ ls_address (cfg_listen cfg))
             (pf_parse_addr P (ls_address (cfg_listen cfg))) of
        Inl e \<Rightarrow> (Inl e, [])
      | Inr proxy_addr \<Rightarrow>
          (case with_context (''invalid admin listen address: '' @ ls_admin_address (cfg_listen cfg))
                  (pf_parse_addr P (ls_admin_address (cfg_listen cfg))) of
             Inl e \<Rightarrow> (Inl e, [])
           | Inr admin_addr \<Rightarrow>
               (case build_runtime (pf_build P) cfg of
                  (Inl e, evs) \<Rightarrow> (Inl (''failed to build runtime'' # e), evs)
                | (Inr rt, evs) \<Rightarrow>
                    (case control_plane_start (be_var (pf_build P)) (pf_node_client P) now cfg of
                       (status, client) \<Rightarrow>
                         (case startup_tls (pf_rustls P) cfg of
                            Inl e \<Rightarrow> (Inl e, evs)
                          | Inr tls \<Rightarrow>
                              (case with_context (''failed to bind admin listener on '' @ admin_addr) (pf_bind P admin_addr) of
                                 Inl e \<Rightarrow> (Inl e, evs)
                               | Inr _ \<Rightarrow>
                                   (Inr \<lparr>gw_app = app_state_new now cfg (read_admin_token (be_var (pf_build P)) cfg)
                                            (initial_proxy rt cfg) config_path tls status,
                                         gw_client = map_option fst client, gw_base = cfg, gw_streams = [],
                                         gw_phase = Serving,
                                         gw_drain_timeout = unat (drain_timeout_seconds (cfg_shutdown cfg)) * 10 ^ 9\<rparr>,
                                    evs)))))))"

definition gateway_main ::
  "('w, 'c, 'r, 'k, 's, 'v) platform \<Rightarrow> nat \<Rightarrow> string option \<Rightarrow>
     (anyhow + ('w, 'c, 's) gateway) \<times> audit_event list" where
  "gateway_main P now config_path =
     (case core_context ''failed to load configuration'' (config_load (pf_extract P) config_path) of
        Inl e \<Rightarrow> (Inl e, [])
      | Inr cfg \<Rightarrow> gateway_run P now cfg config_path)"

section \<open>Events\<close>

datatype 'w gateway_event =
    ProxyRequest clocks proxy_route header_map bytes 'w
  | StreamItem nat utc "string + bytes"
  | StreamEnd nat
  | AdminRequest admin_inputs header_map admin_request
  | Sighup
  | IdentityCheck 'w
  | ControlTick nat 'w
  | ReadinessProbe 'w
  | ShutdownSignal nat
  | Drained
  | DrainDeadline nat

definition on_proxy_request ::
  "('w, 'c, 'r, 'k, 's, 'v) platform \<Rightarrow> clocks \<Rightarrow> proxy_route \<Rightarrow> header_map \<Rightarrow> bytes \<Rightarrow> 'w \<Rightarrow>
     ('w, 'c, 's) gateway \<Rightarrow> ('w, 'c, 's) gateway" where
  "on_proxy_request P tc r headers body w g =
     (case proxy_handle (pf_proxy P) (ap_proxy (gw_app g)) tc r headers body w of
        (res, st, fx, w') \<Rightarrow>
          g\<lparr>gw_app := (gw_app g)\<lparr>ap_proxy := st\<rparr>, gw_streams := gw_streams g @ opened_streams res\<rparr>)"

definition on_stream_item ::
  "('w, 'c, 'r, 'k, 's, 'v) platform \<Rightarrow> nat \<Rightarrow> utc \<Rightarrow> (string + bytes) \<Rightarrow>
     ('w, 'c, 's) gateway \<Rightarrow> ('w, 'c, 's) gateway" where
  "on_stream_item P i now item g =
     (if i < length (gw_streams g) then
        (case observer_poll (px_json (pf_proxy P)) now (gw_streams g ! i) (ps_spend_tracker (ap_proxy (gw_app g))) item of
           (ob, ledger, spans, out) \<Rightarrow>
             g\<lparr>gw_app := (gw_app g)\<lparr>ap_proxy := (ap_proxy (gw_app g))\<lparr>ps_spend_tracker := ledger\<rparr>\<rparr>,
               gw_streams := (gw_streams g)[i := ob]\<rparr>)
      else g)"

definition on_admin_request ::
  "('w, 'c, 'r, 'k, 's, 'v) platform \<Rightarrow> admin_inputs \<Rightarrow> header_map \<Rightarrow> admin_request \<Rightarrow>
     ('w, 'c, 's) gateway \<Rightarrow> ('w, 'c, 's) gateway" where
  "on_admin_request P inp headers rq g =
     (case admin_handle (be_crypto (pf_build P)) (pf_build P) (pf_rustls P) (pf_extract P) inp headers rq (gw_app g) of
        (res, app, evs) \<Rightarrow> g\<lparr>gw_app := app\<rparr>)"

text \<open>The SIGHUP task: the reload of the admin API, without its precondition on the path.\<close>

definition sighup_reload ::
  "('w, 'c, 'r, 'k, 's, 'v) platform \<Rightarrow> ('w, 'c, 's) app_state \<Rightarrow> ('w, 'c, 's) app_state \<times> audit_event list" where
  "sighup_reload P st =
     (case reload (pf_build P) (pf_rustls P) (pf_extract P) (ap_config_path st)
             \<lparr>lv_runtime = ps_runtime (ap_proxy st), lv_rustls = ap_rustls st\<rparr> of
        (result, lv, evs) \<Rightarrow>
          (st\<lparr>ap_proxy := (ap_proxy st)\<lparr>ps_runtime := lv_runtime lv\<rparr>, ap_rustls := lv_rustls lv\<rparr>,
           evs @ [case result of
                    Inr _ \<Rightarrow> config_reloaded ''sighup'' Success (unwrap_or (ap_config_path st) ''defaults'')
                  | Inl err \<Rightarrow> config_reloaded ''sighup'' Failure (show_anyhow_chain err)]))"

definition on_control_tick ::
  "('w, 'c, 'r, 'k, 's, 'v) platform \<Rightarrow> nat \<Rightarrow> 'w \<Rightarrow> ('w, 'c, 's) gateway \<Rightarrow> ('w, 'c, 's) gateway" where
  "on_control_tick P now w g =
     (case gw_client g of
        None \<Rightarrow> g
      | Some cl \<Rightarrow>
          (let app = gw_app g
           in case tick (pf_node P) (pf_build P) (gw_base g) now
                     \<lparr>nv_client = cl, nv_status = ap_control_plane app, nv_runtime = ps_runtime (ap_proxy app),
                      nv_keys = ps_keys (ap_proxy app)\<rparr> w of
                (v, evs, w') \<Rightarrow>
                  g\<lparr>gw_client := Some (nv_client v),
                    gw_app := app\<lparr>ap_control_plane := nv_status v,
                      ap_proxy := (ap_proxy app)\<lparr>ps_runtime := nv_runtime v, ps_keys := nv_keys v\<rparr>\<rparr>\<rparr>))"

definition on_identity_check ::
  "('w, 'c, 'r, 'k, 's, 'v) platform \<Rightarrow> 'w \<Rightarrow> ('w, 'c, 's) gateway \<Rightarrow> ('w, 'c, 's) gateway" where
  "on_identity_check P w g =
     (case gw_client g of
        None \<Rightarrow> g
      | Some cl \<Rightarrow>
          (case log_identity (pf_node P) cl (ap_control_plane (gw_app g)) w of
             (s, w') \<Rightarrow> g\<lparr>gw_app := (gw_app g)\<lparr>ap_control_plane := s\<rparr>\<rparr>))"

text \<open>
  The shutdown sequence: the signal stops both servers from accepting and starts the drain; the
  process ends when the requests in flight are done or the drain timeout has passed.
\<close>

definition on_shutdown_signal :: "nat \<Rightarrow> ('w, 'c, 's) gateway \<Rightarrow> ('w, 'c, 's) gateway" where
  "on_shutdown_signal now g =
     (case gw_phase g of Serving \<Rightarrow> g\<lparr>gw_phase := Draining (now + gw_drain_timeout g)\<rparr> | _ \<Rightarrow> g)"

definition on_drain_deadline :: "nat \<Rightarrow> ('w, 'c, 's) gateway \<Rightarrow> ('w, 'c, 's) gateway" where
  "on_drain_deadline now g =
     (case gw_phase g of Draining deadline \<Rightarrow> if deadline \<le> now then g\<lparr>gw_phase := Exited\<rparr> else g | _ \<Rightarrow> g)"

definition on_drained :: "('w, 'c, 's) gateway \<Rightarrow> ('w, 'c, 's) gateway" where
  "on_drained g =
     (case gw_phase g of Draining deadline \<Rightarrow> if gw_streams g = [] then g\<lparr>gw_phase := Exited\<rparr> else g | _ \<Rightarrow> g)"

definition gateway_step ::
  "('w, 'c, 'r, 'k, 's, 'v) platform \<Rightarrow> ('w, 'c, 's) gateway \<Rightarrow> 'w gateway_event \<Rightarrow> ('w, 'c, 's) gateway" where
  "gateway_step P g e =
     (if gw_phase g = Exited then g
      else case e of
        ProxyRequest tc r headers body w \<Rightarrow> if gw_phase g = Serving then on_proxy_request P tc r headers body w g else g
      | StreamItem i now item \<Rightarrow> on_stream_item P i now item g
      | StreamEnd i \<Rightarrow> g\<lparr>gw_streams := take i (gw_streams g) @ drop (Suc i) (gw_streams g)\<rparr>
      | AdminRequest inp headers rq \<Rightarrow> if gw_phase g = Serving then on_admin_request P inp headers rq g else g
      | Sighup \<Rightarrow> g\<lparr>gw_app := fst (sighup_reload P (gw_app g))\<rparr>
      | IdentityCheck w \<Rightarrow> on_identity_check P w g
      | ControlTick now w \<Rightarrow> on_control_tick P now w g
      | ReadinessProbe w \<Rightarrow> g\<lparr>gw_app := readiness_probe (gw_app g) w\<rparr>
      | ShutdownSignal now \<Rightarrow> on_shutdown_signal now g
      | Drained \<Rightarrow> on_drained g
      | DrainDeadline now \<Rightarrow> on_drain_deadline now g)"

definition gateway_events ::
  "('w, 'c, 'r, 'k, 's, 'v) platform \<Rightarrow> ('w, 'c, 's) gateway \<Rightarrow> 'w gateway_event list \<Rightarrow> ('w, 'c, 's) gateway" where
  "gateway_events P g es = fold (\<lambda>e g. gateway_step P g e) es g"

section \<open>The process invariant\<close>

definition served_prices :: "('w, 'c, 's) gateway \<Rightarrow> pricing" where
  "served_prices g = rn_pricing (ps_runtime (ap_proxy (gw_app g)))"

definition gateway_ok :: "bool \<Rightarrow> ('w, 'c, 's) gateway \<Rightarrow> bool" where
  "gateway_ok b g \<longleftrightarrow> proxy_ok b (ap_proxy (gw_app g)) \<and> (b \<longrightarrow> (\<forall>ob \<in> set (gw_streams g). pricing_ok (ob_pricing ob)))"

lemma observer_charge_ok:
  "spend_tracker_ok st \<Longrightarrow> pricing_ok (ob_pricing ob) \<Longrightarrow> spend_tracker_ok (fst (observer_charge ob st now u))"
  by (auto simp: observer_charge_def intro!: spend_tracker_ok_record intro: cost_compute_amount split: option.split)

lemma observer_loop_ok:
  "observer_loop J now ob st = (ob', st', spans) \<Longrightarrow> spend_tracker_ok st \<Longrightarrow> pricing_ok (ob_pricing ob) \<Longrightarrow>
     spend_tracker_ok st' \<and> ob_pricing ob' = ob_pricing ob"
proof (induction J now ob st arbitrary: ob' st' spans rule: observer_loop.induct)
  case (1 J now ob st)
  obtain p r where e: "sse_next_event (ob_parser ob) = (p, r)" by fastforce
  show ?case
  proof (cases r)
    case None
    with e "1.prems" show ?thesis by (auto simp: observer_loop.simps [of J now ob])
  next
    case (Some ev)
    show ?thesis
    proof (cases "parse_chunk_usage J (ev_data ev)")
      case None
      with e Some "1.prems"(1) have "observer_loop J now (ob\<lparr>ob_parser := p\<rparr>) st = (ob', st', spans)"
        by (simp add: observer_loop.simps [of J now ob])
      with "1.IH" [OF e [symmetric] Some None] "1.prems"(2,3) show ?thesis by simp
    next
      case (Some u)
      with e \<open>r = Some ev\<close> "1.prems" observer_charge_ok [OF "1.prems"(2,3), of now u] show ?thesis
        by (auto simp: observer_loop.simps [of J now ob] split: prod.splits)
    qed
  qed
qed

lemma observer_loop_wf: "table_wf st \<Longrightarrow> table_wf (fst (snd (observer_loop J now ob st)))"
proof (induction J now ob st rule: observer_loop.induct)
  case (1 J now ob st)
  then show ?case
    by (simp add: observer_loop.simps [of J now ob] observer_charge_def split: prod.split option.split)
qed

lemma observer_poll_ok:
  "observer_poll J now ob st item = (ob', st', spans, out) \<Longrightarrow> spend_tracker_ok st \<Longrightarrow> pricing_ok (ob_pricing ob) \<Longrightarrow>
     spend_tracker_ok st' \<and> ob_pricing ob' = ob_pricing ob"
  by (auto simp: observer_poll_def split: sum.splits if_splits prod.splits dest: observer_loop_ok)

lemma observer_poll_wf:
  "observer_poll J now ob st item = (ob', st', spans, out) \<Longrightarrow> table_wf st \<Longrightarrow> table_wf st'"
  by (auto simp: observer_poll_def split: sum.splits if_splits prod.splits) (metis observer_loop_wf fst_conv snd_conv)

lemma on_proxy_request_ok: "gateway_ok b g \<Longrightarrow> gateway_ok b (on_proxy_request P tc r headers body w g)"
proof -
  assume ok: "gateway_ok b g"
  obtain res st fx w' where h: "proxy_handle (pf_proxy P) (ap_proxy (gw_app g)) tc r headers body w = (res, st, fx, w')"
    by (rule prod_cases4)
  have "proxy_ok b st" using handler_ok [OF h] ok by (simp add: gateway_ok_def)
  moreover have "b \<longrightarrow> pricing_ok (rn_pricing (ps_runtime (ap_proxy (gw_app g))))"
    using ok by (simp add: gateway_ok_def proxy_ok_def)
  ultimately show ?thesis using ok h
    by (auto simp: gateway_ok_def on_proxy_request_def dest: opened_streams_of_request)
qed

lemma on_stream_item_ok: "gateway_ok b g \<Longrightarrow> gateway_ok b (on_stream_item P i now item g)"
proof -
  assume ok: "gateway_ok b g"
  show ?thesis
  proof (cases "i < length (gw_streams g)")
    case True
    obtain ob st spans out where p: "observer_poll (px_json (pf_proxy P)) now (gw_streams g ! i)
        (ps_spend_tracker (ap_proxy (gw_app g))) item = (ob, st, spans, out)" by (rule prod_cases4)
    have "table_wf st" using observer_poll_wf [OF p] ok by (simp add: gateway_ok_def proxy_ok_def)
    moreover have "spend_tracker_ok st \<and> pricing_ok (ob_pricing ob)" if b
      using observer_poll_ok [OF p] ok that True by (simp add: gateway_ok_def proxy_ok_def)
    ultimately show ?thesis using True ok p
      by (auto simp: gateway_ok_def on_stream_item_def proxy_ok_def dest!: subsetD [OF set_update_subset_insert])
  qed (use ok in \<open>simp add: on_stream_item_def\<close>)
qed

text \<open>A reload brings a runtime; what it does to the rest of the proxy state is nothing.\<close>

lemma proxy_ok_runtime:
  "proxy_ok b st \<Longrightarrow> (b \<Longrightarrow> pricing_ok (rn_pricing rt)) \<Longrightarrow> proxy_ok b (st\<lparr>ps_runtime := rt\<rparr>)"
  by (simp add: proxy_ok_def)

lemma reload_config_ok:
  assumes "proxy_ok b (ap_proxy st)" "reload_config B T X st = (r, st', evs)"
    and "b \<Longrightarrow> pricing_ok (rn_pricing (ps_runtime (ap_proxy st')))"
  shows "proxy_ok b (ap_proxy st')"
  using assms
  by (auto simp: reload_config_def proxy_ok_def Let_def split: option.splits prod.splits sum.splits)

lemma admin_handle_ok:
  assumes "proxy_ok b (ap_proxy st)" "admin_handle C B T X inp headers rq st = (r, st', evs)"
    and "b \<Longrightarrow> pricing_ok (rn_pricing (ps_runtime (ap_proxy st')))"
  shows "proxy_ok b (ap_proxy st')"
proof -
  have create: "proxy_ok b (ap_proxy st1)" if "create_key C ent c st = (r1, st1, evs1)" for ent c r1 st1 evs1
    using that assms(1) by (auto simp: create_key_def update_keys_def Let_def proxy_ok_def keystore_wf_insert
        split: option.splits)
  have delete: "proxy_ok b (ap_proxy st1)" if "delete_key kid st = (r1, st1, evs1)" for kid r1 st1 evs1
    using that assms(1) keystore_wf_remove [of "ps_keys (ap_proxy st)" kid]
    by (auto simp: delete_key_def proxy_ok_def rate_limiter_ok_forget spend_tracker_ok_forget
        split: prod.splits bool.splits)
  show ?thesis using assms create delete
    by (auto simp: admin_handle_def admin_dispatch_def split: if_splits admin_request.splits prod.splits
        intro: reload_config_ok)
qed

lemma on_control_tick_ok:
  "gateway_ok b g \<Longrightarrow> (b \<Longrightarrow> pricing_ok (served_prices (on_control_tick P now w g))) \<Longrightarrow>
     gateway_ok b (on_control_tick P now w g)"
proof (cases "gw_client g")
  case (Some cl)
  assume ok: "gateway_ok b g" and prices: "b \<Longrightarrow> pricing_ok (served_prices (on_control_tick P now w g))"
  have keys: "keystore_wf keys'" if "poll_keys N cl1 keys w1 = (r, cl2, keys', w2)" "keystore_wf keys"
    for N :: "'a node_http" and cl1 keys w1 r cl2 keys' w2
    using that by (auto simp: poll_keys_def keystore_wf_replace_all split: prod.splits sum.splits fetch.splits)
  show ?thesis using Some ok prices
    by (auto simp: on_control_tick_def tick_def Let_def gateway_ok_def proxy_ok_def served_prices_def split: prod.splits
        dest: keys)
qed (simp add: on_control_tick_def)

lemma gateway_ok_same:
  "gateway_ok b (g\<lparr>gw_phase := p\<rparr>) = gateway_ok b g"
  "gateway_ok b (g\<lparr>gw_app := (gw_app g)\<lparr>ap_ready := r\<rparr>\<rparr>) = gateway_ok b g"
  by (simp_all add: gateway_ok_def)

lemma gateway_step_ok:
  "gateway_ok b g \<Longrightarrow> (b \<Longrightarrow> pricing_ok (served_prices (gateway_step P g e))) \<Longrightarrow> gateway_ok b (gateway_step P g e)"
proof (cases e)
  case (AdminRequest inp headers rq)
  assume "gateway_ok b g" "b \<Longrightarrow> pricing_ok (served_prices (gateway_step P g e))"
  then show ?thesis using AdminRequest
    by (auto simp: gateway_step_def on_admin_request_def gateway_ok_def served_prices_def split: prod.splits if_splits
        intro: admin_handle_ok)
next
  case Sighup
  assume "gateway_ok b g" "b \<Longrightarrow> pricing_ok (served_prices (gateway_step P g e))"
  then show ?thesis using Sighup
    by (auto simp: gateway_step_def sighup_reload_def gateway_ok_def served_prices_def
        split: prod.splits option.splits if_splits sum.splits intro: proxy_ok_runtime)
next
  case (StreamEnd i)
  assume "gateway_ok b g"
  then show ?thesis using StreamEnd
    by (auto simp: gateway_step_def gateway_ok_def dest: in_set_takeD in_set_dropD)
next
  case (IdentityCheck w)
  assume "gateway_ok b g"
  then show ?thesis using IdentityCheck
    by (auto simp: gateway_step_def gateway_ok_def on_identity_check_def split: option.split prod.split)
next
  case (ControlTick now w)
  assume "gateway_ok b g" "b \<Longrightarrow> pricing_ok (served_prices (gateway_step P g e))"
  then show ?thesis using ControlTick
    by (cases "gw_phase g = Exited") (simp_all add: gateway_step_def on_control_tick_ok)
qed (simp_all add: gateway_step_def on_proxy_request_ok on_stream_item_ok gateway_ok_same
    readiness_probe_def set_ready_def on_shutdown_signal_def on_drained_def on_drain_deadline_def split: phase.split)

interpretation gw: event_system "gateway_step P" "gateway_ok False" for P
  by unfold_locales (blast intro: gateway_step_ok)

section \<open>Causes\<close>

text \<open>The events that may change what the gateway keeps for the tenant \<open>k\<close>.\<close>

definition tenant_cause ::
  "('w, 'c, 'r, 'k, 's, 'v) platform \<Rightarrow> string \<Rightarrow> ('w, 'c, 's) gateway \<Rightarrow> 'w gateway_event \<Rightarrow> bool" where
  "tenant_cause P k g e =
     (case e of
        ProxyRequest tc r headers body w \<Rightarrow>
          (case identify (pf_proxy P) (ps_keys (ap_proxy (gw_app g))) headers of
             Some key \<Rightarrow> key_identifier key = k | None \<Rightarrow> False)
      | StreamItem i now item \<Rightarrow> i < length (gw_streams g) \<and> ob_key_id (gw_streams g ! i) = k
      | AdminRequest inp headers rq \<Rightarrow> rq = DeleteKey k \<and> admin_authorized (gw_app g) headers
      | _ \<Rightarrow> False)"

definition tenant_state :: "string \<Rightarrow> ('w, 'c, 's) gateway \<Rightarrow> token_bucket option \<times> spend_state option" where
  "tenant_state k g =
     (tget (ps_rate_limiter (ap_proxy (gw_app g))) k, tget (ps_spend_tracker (ap_proxy (gw_app g))) k)"

text \<open>The events that may change the key store.\<close>

definition key_cause :: "('w, 'c, 's) gateway \<Rightarrow> 'w gateway_event \<Rightarrow> bool" where
  "key_cause g e =
     (case e of
        AdminRequest inp headers rq \<Rightarrow>
          admin_authorized (gw_app g) headers \<and> (case rq of PostKey b \<Rightarrow> True | DeleteKey kid \<Rightarrow> True | _ \<Rightarrow> False)
      | ControlTick now w \<Rightarrow> gw_client g \<noteq> None
      | _ \<Rightarrow> False)"

lemma observer_charge_other: "k \<noteq> ob_key_id ob \<Longrightarrow> tget (fst (observer_charge ob st now u)) k = tget st k"
  by (simp add: observer_charge_def tget_spend_record split: option.split)

lemma observer_loop_other:
  "observer_loop J now ob st = (ob', st', spans) \<Longrightarrow> k \<noteq> ob_key_id ob \<Longrightarrow> tget st' k = tget st k"
proof (induction J now ob st arbitrary: ob' st' spans rule: observer_loop.induct)
  case (1 J now ob st)
  obtain p r where e: "sse_next_event (ob_parser ob) = (p, r)" by fastforce
  show ?case
  proof (cases r)
    case None
    with e "1.prems" show ?thesis by (auto simp: observer_loop.simps [of J now ob])
  next
    case (Some ev)
    show ?thesis
    proof (cases "parse_chunk_usage J (ev_data ev)")
      case None
      with e Some "1.prems"(1) have "observer_loop J now (ob\<lparr>ob_parser := p\<rparr>) st = (ob', st', spans)"
        by (simp add: observer_loop.simps [of J now ob])
      with "1.IH" [OF e [symmetric] Some None] "1.prems"(2) show ?thesis by simp
    next
      case (Some u)
      with e \<open>r = Some ev\<close> "1.prems" observer_charge_other [of k ob st now u] show ?thesis
        by (auto simp: observer_loop.simps [of J now ob] split: prod.splits)
    qed
  qed
qed

lemma observer_poll_other:
  "observer_poll J now ob st item = (ob', st', spans, out) \<Longrightarrow> k \<noteq> ob_key_id ob \<Longrightarrow> tget st' k = tget st k"
  by (auto simp: observer_poll_def split: sum.splits if_splits prod.splits dest: observer_loop_other)

lemma on_proxy_request_tenant:
  "\<not> tenant_cause P k g (ProxyRequest tc r headers body w) \<Longrightarrow>
     tenant_state k (on_proxy_request P tc r headers body w g) = tenant_state k g"
proof -
  assume nc: "\<not> tenant_cause P k g (ProxyRequest tc r headers body w)"
  obtain res st' fx w' where h: "proxy_handle (pf_proxy P) (ap_proxy (gw_app g)) tc r headers body w = (res, st', fx, w')"
    by (metis prod_cases4)
  show ?thesis
  proof (cases "identify (pf_proxy P) (ps_keys (ap_proxy (gw_app g))) headers")
    case None
    then have "st' = ap_proxy (gw_app g)" using h by (simp add: proxy_handle_def authenticate_cases)
    with h show ?thesis by (simp add: on_proxy_request_def tenant_state_def)
  next
    case (Some key)
    with nc have "k \<noteq> key_identifier key" by (simp add: tenant_cause_def)
    with h handler_frame [OF h Some] show ?thesis
      by (simp add: on_proxy_request_def tenant_state_def tenant_frame_def)
  qed
qed

lemma on_stream_item_tenant:
  "\<not> tenant_cause P k g (StreamItem i now item) \<Longrightarrow> tenant_state k (on_stream_item P i now item g) = tenant_state k g"
  by (auto simp: on_stream_item_def tenant_state_def tenant_cause_def split: prod.split
      intro: observer_poll_other [OF _ not_sym])

lemma reload_config_keeps:
  "reload_config E R ex st = (r, st', evs) \<Longrightarrow> ps_keys (ap_proxy st') = ps_keys (ap_proxy st) \<and>
     ps_rate_limiter (ap_proxy st') = ps_rate_limiter (ap_proxy st) \<and>
     ps_spend_tracker (ap_proxy st') = ps_spend_tracker (ap_proxy st)"
  by (auto simp: reload_config_def Let_def split: option.splits prod.splits sum.splits)

lemma create_key_keeps:
  "create_key C ent b st = (r, st', evs) \<Longrightarrow> ps_rate_limiter (ap_proxy st') = ps_rate_limiter (ap_proxy st) \<and>
     ps_spend_tracker (ap_proxy st') = ps_spend_tracker (ap_proxy st)"
  by (auto simp: create_key_def update_keys_def Let_def split: option.splits)

lemma on_admin_request_tenant:
  "\<not> tenant_cause P k g (AdminRequest inp headers rq) \<Longrightarrow>
     tenant_state k (on_admin_request P inp headers rq g) = tenant_state k g"
  by (auto simp: on_admin_request_def tenant_state_def tenant_cause_def admin_handle_def admin_dispatch_def
      delete_key_def rate_limiter_forget_def spend_forget_def split: prod.splits admin_request.splits if_splits bool.splits
      dest: reload_config_keeps create_key_keeps)

lemma on_admin_request_keys:
  "\<not> key_cause g (AdminRequest inp headers rq) \<Longrightarrow>
     ps_keys (ap_proxy (gw_app (on_admin_request P inp headers rq g))) = ps_keys (ap_proxy (gw_app g))"
  by (auto simp: on_admin_request_def key_cause_def admin_handle_def admin_dispatch_def
      split: prod.splits admin_request.splits if_splits dest: reload_config_keeps)

lemma background_keeps:
  "tenant_state k (on_control_tick P now w g) = tenant_state k g"
  "tenant_state k (on_identity_check P w g) = tenant_state k g"
  "tenant_state k (g\<lparr>gw_app := fst (sighup_reload P (gw_app g))\<rparr>) = tenant_state k g"
  "tenant_state k (on_shutdown_signal now g) = tenant_state k g"
  "tenant_state k (on_drained g) = tenant_state k g"
  "tenant_state k (on_drain_deadline now g) = tenant_state k g"
  by (auto simp: tenant_state_def on_control_tick_def on_identity_check_def sighup_reload_def Let_def
      on_shutdown_signal_def on_drained_def on_drain_deadline_def split: option.split prod.split phase.split)

lemma gateway_step_tenant: "\<not> tenant_cause P k g e \<Longrightarrow> tenant_state k (gateway_step P g e) = tenant_state k g"
  by (cases e) (simp_all add: gateway_step_def on_proxy_request_tenant on_stream_item_tenant on_admin_request_tenant
      background_keeps, simp_all add: tenant_state_def readiness_probe_def set_ready_def)

interpretation tenant: observed_system "gateway_step P" "\<lambda>_. True" "tenant_state k" "tenant_cause P k" for P k
  by unfold_locales (rule TrueI, rule gateway_step_tenant)

lemma key_store_keeps:
  "ps_keys (ap_proxy (gw_app (on_proxy_request P tc r headers body w g))) = ps_keys (ap_proxy (gw_app g))"
  "ps_keys (ap_proxy (gw_app (on_stream_item P i now item g))) = ps_keys (ap_proxy (gw_app g))"
  "ps_keys (ap_proxy (gw_app (on_identity_check P w g))) = ps_keys (ap_proxy (gw_app g))"
  "ps_keys (ap_proxy (fst (sighup_reload P st))) = ps_keys (ap_proxy st)"
  "gw_client g = None \<Longrightarrow> on_control_tick P at_ns w g = g"
proof -
  obtain res st' fx w' where h: "proxy_handle (pf_proxy P) (ap_proxy (gw_app g)) tc r headers body w = (res, st', fx, w')"
    by (metis prod_cases4)
  have "ps_keys st' = ps_keys (ap_proxy (gw_app g))"
  proof (cases "identify (pf_proxy P) (ps_keys (ap_proxy (gw_app g))) headers")
    case None
    with h show ?thesis by (simp add: proxy_handle_def authenticate_cases)
  next
    case (Some key)
    from handler_frame [OF h Some] show ?thesis by (simp add: tenant_frame_def)
  qed
  with h show "ps_keys (ap_proxy (gw_app (on_proxy_request P tc r headers body w g))) = ps_keys (ap_proxy (gw_app g))"
    by (simp add: on_proxy_request_def)
qed (simp_all add: on_stream_item_def on_identity_check_def sighup_reload_def on_control_tick_def
    split: prod.split option.split)

lemma gateway_step_keys:
  "\<not> key_cause g e \<Longrightarrow> ps_keys (ap_proxy (gw_app (gateway_step P g e))) = ps_keys (ap_proxy (gw_app g))"
  by (cases e) (simp_all add: gateway_step_def key_store_keeps on_admin_request_keys key_cause_def readiness_probe_def
      set_ready_def on_shutdown_signal_def on_drained_def on_drain_deadline_def split: phase.split)

interpretation key_store: observed_system "gateway_step P" "\<lambda>_. True"
  "\<lambda>g. ps_keys (ap_proxy (gw_app g))" key_cause for P
  by unfold_locales (rule gateway_step_keys)

section \<open>Shutdown\<close>

lemma draining_step:
  "gw_phase g = Draining d \<or> gw_phase g = Exited \<Longrightarrow>
     gw_phase (gateway_step P g e) = Draining d \<or> gw_phase (gateway_step P g e) = Exited"
  by (cases e) (auto simp: gateway_step_def on_stream_item_def on_identity_check_def on_control_tick_def Let_def
      on_shutdown_signal_def on_drained_def on_drain_deadline_def split: option.split prod.split)

interpretation drain: event_system "gateway_step P" "\<lambda>g. gw_phase g = Draining d \<or> gw_phase g = Exited" for P d
  by unfold_locales (rule draining_step)

interpretation exited: event_system "gateway_step P" "\<lambda>g. gw_phase g = Exited" for P
  by unfold_locales (simp add: gateway_step_def)

lemma gateway_events_simps [simp]:
  "gateway_events P g [] = g"
  "gateway_events P g (e # es) = gateway_events P (gateway_step P g e) es"
  by (simp_all add: gateway_events_def)

lemma gateway_events_append: "gateway_events P g (es @ fs) = gateway_events P (gateway_events P g es) fs"
  by (simp add: gateway_events_def)

section \<open>Startup\<close>

lemma gateway_run_Inr:
  assumes "gateway_run P now cfg path = (Inr g, evs)"
  obtains rt tls status client evs' where "build_runtime (pf_build P) cfg = (Inr rt, evs')"
    "gw_app g = app_state_new now cfg (read_admin_token (be_var (pf_build P)) cfg) (initial_proxy rt cfg) path tls status"
    "gw_client g = map_option fst client" "gw_base g = cfg" "gw_streams g = []" "gw_phase g = Serving"
    "control_plane_start (be_var (pf_build P)) (pf_node_client P) now cfg = (status, client)"
    "startup_tls (pf_rustls P) cfg = Inr tls"
  using assms by (auto simp: gateway_run_def split: sum.splits prod.splits)

lemma gateway_main_ok:
  assumes "gateway_main P now path = (Inr g, evs)" and "b \<Longrightarrow> pricing_ok (served_prices g)"
  shows "gateway_ok b g"
proof -
  obtain cfg where cfg: "config_load (pf_extract P) path = Inr cfg" "gateway_run P now cfg path = (Inr g, evs)"
    using assms(1) by (auto simp: gateway_main_def core_context_def split: sum.splits)
  from gateway_run_Inr [OF cfg(2)] obtain rt tls status evs' where
    g: "gw_app g = app_state_new now cfg (read_admin_token (be_var (pf_build P)) cfg) (initial_proxy rt cfg) path tls status"
      "gw_streams g = []" by metis
  show ?thesis using g assms(2)
    by (simp add: gateway_ok_def proxy_ok_def app_state_new_def initial_proxy_def keystore_wf_new rate_limiter_ok_def
        spend_tracker_ok_def served_prices_def)
qed

lemma gateway_events_priced:
  "gateway_ok True g \<Longrightarrow> (\<And>n. n \<le> length es \<Longrightarrow> pricing_ok (served_prices (gateway_events P g (take n es)))) \<Longrightarrow>
     gateway_ok True (gateway_events P g es)"
proof (induction es arbitrary: g)
  case (Cons e es)
  have "pricing_ok (served_prices (gateway_step P g e))" using Cons.prems(2) [of 1] by simp
  with Cons.prems(1) have "gateway_ok True (gateway_step P g e)" by (intro gateway_step_ok) simp_all
  from Cons.IH [OF this] Cons.prems(2) [of "Suc n" for n] show ?case by simp
qed simp

section \<open>Properties\<close>

text \<open>
  A concrete platform for the witnesses: a machine with an empty environment, no upstream, and a
  configuration file that is the default configuration.
\<close>

definition example_build :: "(nat, (string \<times> cached_response) list, unit, unit) build_env" where
  "example_build = \<lparr>be_var = (\<lambda>_. None), be_client = (\<lambda>_. Inr ()), be_json = empty_object_serde, be_codec = example_codec,
     be_bedrock_ser = (\<lambda>_. Inl ''unsupported''), be_crypto = example_crypto, be_entropy = (\<lambda>_. []), be_clock = (\<lambda>w. w),
     be_http = \<lparr>http_get_ok = (\<lambda>_ _ _. False), http_post = (\<lambda>_ w. (Inl ''unreachable'', w))\<rparr>,
     be_timeout = no_timeout, be_bundled = None, be_moka = example_moka,
     be_regex = \<lparr>regex_new = (\<lambda>_. None), replace_all = (\<lambda>_ s _. s)\<rparr>,
     be_wasmtime = \<lparr>wt_http = \<lparr>bh_build = (\<lambda>_. Inl []), bh_get = (\<lambda>_ _. Panic), bh_status_error = (\<lambda>_ _. [])\<rparr>, wt_from_binary = (\<lambda>_. Inl []), wt_from_file = (\<lambda>_. Inl []),
       wt_add_wasi = Inl [], wt_instantiate_pre = (\<lambda>_. Inl []), wt_plugin_pre = (\<lambda>_. Inl [])\<rparr>\<rparr>"

definition example_platform :: "(nat, (string \<times> cached_response) list, unit, unit, unit, unit) platform" where
  "example_platform = \<lparr>pf_build = example_build,
     pf_rustls = \<lparr>fs_read = (\<lambda>_. Inl []), pem_certs = (\<lambda>_. Inl []), pem_private_key = (\<lambda>_. Inl []), root_add = (\<lambda>_. Inl []),
       client_verifier = (\<lambda>_. Inl []), safe_protocol_versions = Inl [], single_cert = (\<lambda>_ _ _ _. Inl []),
       server_from_pem_file = (\<lambda>_ _. Inl [])\<rparr>,
     pf_extract = (\<lambda>defaults _. Inr defaults), pf_proxy = example_env,
     pf_node = \<lparr>nh_get = (\<lambda>_ _ w. (Inl ''unreachable'', w)), nh_show_status = (\<lambda>_. []), nh_de_config = (\<lambda>_. Inl []),
       nh_de_keys = (\<lambda>_. Inl []), nh_de_identity = (\<lambda>_. Inl [])\<rparr>,
     pf_node_client = Inr (), pf_parse_addr = (\<lambda>s. Inr s), pf_bind = (\<lambda>_. Inr ())\<rparr>"

lemma example_build_connectors: "\<exists>cs. build_connectors example_build config_default = Inr cs"
  by (simp add: build_connectors_def build_openai_def build_anthropic_def build_azure_def build_bedrock_def
      openai_new_def anthropic_new_def azure_new_def bedrock_new_def bedrock_build_def build_client_def core_context_def
      example_build_def Let_def)

lemma example_main: "\<exists>g evs. gateway_main example_platform 0 None = (Inr g, evs)"
proof -
  obtain cs where "build_connectors example_build config_default = Inr cs" using example_build_connectors by blast
  moreover have "cfg_models config_default = []" "cfg_plugins config_default = []" "ls_tls (cfg_listen config_default) = None"
    by (simp_all add: config_default_def listen_default_def)
  ultimately show ?thesis
    by (auto simp: gateway_main_def gateway_run_def config_load_def core_context_def with_context_def build_runtime_def
        registry_new_def startup_tls_def example_platform_def split: prod.split)
qed

text \<open>
  C4. The process invariant: from a successful start, through any interleaving of proxy requests,
  streamed items, admin requests, reloads, Control Node polls, probes and shutdown steps, the key
  store files every key under its own hash and none twice, every token bucket holds between zero and its
  capacity, and the ledger has one total per key, whatever configuration and bundles are read. As long as every
  runtime the process has served with states finite non-negative prices, every total of the ledger is a
  non-negative amount, never a NaN; the decoders accept other prices, so that is a condition on the run.
\<close>

theorem gateway_invariant:
  assumes "gateway_main P now path = (Inr g, evs)"
  shows "let st = ap_proxy (gw_app (gateway_events P g es))
     in keystore_wf (ps_keys st) \<and> rate_limiter_ok (ps_rate_limiter st) \<and> table_wf (ps_spend_tracker st) \<and>
        ((\<forall>n \<le> length es. pricing_ok (served_prices (gateway_events P g (take n es)))) \<longrightarrow>
           spend_tracker_ok (ps_spend_tracker st))"
proof -
  have "gateway_ok False (gateway_events P g es)"
    using gw.inv_run [of g P es] gateway_main_ok [OF assms, of False] by (simp add: gateway_events_def)
  moreover have "gateway_ok True (gateway_events P g es)"
    if "\<forall>n \<le> length es. pricing_ok (served_prices (gateway_events P g (take n es)))"
  proof (rule gateway_events_priced)
    show "gateway_ok True g" using gateway_main_ok [OF assms, of True] that by (metis gateway_events_simps(1) le0 take_0)
  qed (use that in blast)
  ultimately show ?thesis by (auto simp: gateway_ok_def proxy_ok_def Let_def)
qed

lemma example_config: "config_load (pf_extract example_platform) path = Inr config_default"
  by (simp add: config_load_def example_platform_def)

lemma example_built_prices:
  assumes "build_runtime (pf_build example_platform) config_default = (Inr rt, evs)"
  shows "pricing_ok (rn_pricing rt)"
proof -
  have "rn_pricing rt = overlaid_with (pricing_bundled (be_bundled (pf_build example_platform))) (cfg_pricing config_default)"
    using assms by (auto simp: build_runtime_def split: sum.splits prod.splits)
  then show ?thesis
    by (simp add: pricing_ok_def price_of_def overlaid_with_def example_platform_def example_build_def pricing_bundled_def
        config_default_def pricing_default_def unwrap_or_def)
qed

lemma example_prices_served:
  assumes "gateway_main example_platform 0 None = (Inr g, evs)"
  shows "pricing_ok (served_prices g)" "gw_phase g = Serving"
proof -
  have run: "gateway_run example_platform 0 config_default None = (Inr g, evs)"
    using assms by (simp add: example_config gateway_main_def core_context_def with_context_def split: sum.splits)
  from gateway_run_Inr [OF run] obtain rt tls status evs' where
    rt: "build_runtime (pf_build example_platform) config_default = (Inr rt, evs')" and
    g: "gw_app g = app_state_new 0 config_default (read_admin_token (be_var (pf_build example_platform)) config_default)
      (initial_proxy rt config_default) None tls status" "gw_phase g = Serving" by metis
  from example_built_prices [OF rt] g show "pricing_ok (served_prices g)" "gw_phase g = Serving"
    by (simp_all add: served_prices_def app_state_new_def initial_proxy_def)
qed

lemma example_sighup_prices:
  assumes "pricing_ok (rn_pricing (ps_runtime (ap_proxy st)))"
  shows "pricing_ok (rn_pricing (ps_runtime (ap_proxy (fst (sighup_reload example_platform st)))))"
  using assms example_config [of "ap_config_path st"]
  by (auto simp: sighup_reload_def reload_def core_context_def with_context_def split: prod.splits sum.splits option.splits
      dest: example_built_prices)

theorem gateway_invariant_witness:
  "\<exists>g evs. gateway_main example_platform 0 None = (Inr g, evs) \<and>
     spend_tracker_ok (ps_spend_tracker (ap_proxy (gw_app (gateway_events example_platform g [Sighup, ReadinessProbe 0]))))"
proof -
  obtain g evs where g: "gateway_main example_platform 0 None = (Inr g, evs)" using example_main by blast
  have "pricing_ok (served_prices (gateway_events example_platform g (take n [Sighup, ReadinessProbe 0])))"
    if "n \<le> length [Sighup, ReadinessProbe 0 :: nat gateway_event]" for n
  proof -
    from that consider "n = 0" | "n = 1" | "n = 2" by fastforce
    then show ?thesis using example_prices_served [OF g]
      by cases (simp_all add: gateway_step_def readiness_probe_def set_ready_def served_prices_def example_sighup_prices
          numeral_2_eq_2)
  qed
  with gateway_invariant [OF g, of "[Sighup, ReadinessProbe 0]"] g show ?thesis by (auto simp: Let_def)
qed

definition example_gateway :: "(nat, (string \<times> cached_response) list, unit) gateway" where
  "example_gateway = \<lparr>gw_app = example_app, gw_client = None, gw_base = config_default, gw_streams = [],
     gw_phase = Serving, gw_drain_timeout = 30\<rparr>"

text \<open>
  C5. Tenant non-interference: whenever the rate-limit or spend state kept for a tenant has changed over a
  run of the gateway, one of the events was a request authenticated as that tenant, an item of a
  stream opened for it, or an authorized revocation of it.
\<close>

theorem tenant_change_has_cause:
  assumes "tenant_state k (gateway_events P g es) \<noteq> tenant_state k g"
  shows "\<exists>n < length es. tenant_cause P k (gateway_events P g (take n es)) (es ! n)"
  using tenant.obs_change_has_cause [of k P es g] assms by (simp add: gateway_events_def)

text \<open>An authorized revocation of the one key, which has a bucket.\<close>

definition example_revocation :: "nat gateway_event" where
  "example_revocation = AdminRequest \<lparr>ai_version = [], ai_now = 0, ai_utc = example_utc, ai_entropy = []\<rparr>
     [(''authorization'', ''Bearer secret'')] (DeleteKey ''vp_a'')"

definition example_used_gateway :: "(nat, (string \<times> cached_response) list, unit) gateway" where
  "example_used_gateway = example_gateway\<lparr>gw_app := example_app\<lparr>ap_proxy :=
     example_state\<lparr>ps_rate_limiter := [(''vp_a'', bucket_new 1 0)]\<rparr>\<rparr>\<rparr>"

lemma example_revoked:
  "gateway_step example_platform example_used_gateway example_revocation =
     example_used_gateway\<lparr>gw_app := fst (snd (delete_key ''vp_a'' (gw_app example_used_gateway)))\<rparr>"
proof -
  have "bearer_token [(''authorization'', ''Bearer secret'')] = Some ''secret''" by code_simp
  then have "admin_authorized (gw_app example_used_gateway) [(''authorization'', ''Bearer secret'')]"
    by (simp add: admin_authorized_def constant_time_eq_iff example_used_gateway_def example_app_def app_state_new_def)
  then show ?thesis
    by (simp add: gateway_step_def example_revocation_def on_admin_request_def admin_handle_def admin_dispatch_def
        split: prod.split) (simp add: example_used_gateway_def example_gateway_def)
qed

lemma example_used_keys: "by_hash (ps_keys (ap_proxy (gw_app example_used_gateway))) = [(''t'', example_key)]"
  by (simp add: example_used_gateway_def example_state_def keystore_new_def tcollect_def tput_def example_key_def)

theorem tenant_change_has_cause_witness:
  "\<exists>n < length [example_revocation]. tenant_cause example_platform ''vp_a''
     (gateway_events example_platform example_used_gateway (take n [example_revocation])) ([example_revocation] ! n)"
proof (rule tenant_change_has_cause)
  have "vk_id example_key = ''vp_a''" by (simp add: example_key_def)
  then have "tenant_state ''vp_a'' (gateway_step example_platform example_used_gateway example_revocation) = (None, None)"
    using example_used_keys
    by (simp add: example_revoked delete_key_def keystore_remove_by_id_def tenant_state_def rate_limiter_forget_def
        spend_forget_def)
  moreover have "tenant_state ''vp_a'' example_used_gateway \<noteq> (None, None)"
    by (simp add: tenant_state_def example_used_gateway_def tget_def)
  ultimately show "tenant_state ''vp_a'' (gateway_events example_platform example_used_gateway [example_revocation]) \<noteq>
      tenant_state ''vp_a'' example_used_gateway"
    by simp
qed

text \<open>
  C6. Authority over keys: whenever the key store has changed over a run, one of the events was a poll
  of a configured Control Node or a key creation or deletion on the admin API that passed its gate;
  no proxy request, reload or signal ever issues or revokes a key.
\<close>

theorem key_change_has_authority:
  assumes "ps_keys (ap_proxy (gw_app (gateway_events P g es))) \<noteq> ps_keys (ap_proxy (gw_app g))"
  shows "\<exists>n < length es. key_cause (gateway_events P g (take n es)) (es ! n)"
  using key_store.obs_change_has_cause [of P es g] assms by (simp add: gateway_events_def)

theorem key_change_has_authority_witness:
  "\<exists>n < length [example_revocation]. key_cause
     (gateway_events example_platform example_used_gateway (take n [example_revocation])) ([example_revocation] ! n)"
proof (rule key_change_has_authority)
  have "vk_id example_key = ''vp_a''" by (simp add: example_key_def)
  then have "by_hash (ps_keys (ap_proxy (gw_app (gateway_step example_platform example_used_gateway example_revocation)))) = []"
    using example_used_keys by (simp add: example_revoked delete_key_def keystore_remove_by_id_def tdel_def)
  then show "ps_keys (ap_proxy (gw_app (gateway_events example_platform example_used_gateway [example_revocation]))) \<noteq>
      ps_keys (ap_proxy (gw_app example_used_gateway))"
    using example_used_keys by auto
qed

text \<open>
  C17. Shutdown ends: once the shutdown signal has arrived, whatever the requests and streams in flight do,
  the process has exited when the drain timeout has passed, and stays so.
\<close>

theorem shutdown_bounded:
  assumes "gw_phase g = Serving" and "t + gw_drain_timeout g \<le> t'"
  shows "gw_phase (gateway_events P g (ShutdownSignal t # es @ DrainDeadline t' # fs)) = Exited"
proof -
  let ?d = "t + gw_drain_timeout g"
  let ?g = "gateway_events P (gateway_step P g (ShutdownSignal t)) es"
  have "gw_phase (gateway_step P g (ShutdownSignal t)) = Draining ?d"
    using assms(1) by (simp add: gateway_step_def on_shutdown_signal_def)
  then have "gw_phase ?g = Draining ?d \<or> gw_phase ?g = Exited"
    using drain.inv_run [of _ ?d P es] by (simp add: gateway_events_def)
  then have "gw_phase (gateway_step P ?g (DrainDeadline t')) = Exited"
    using assms(2) by (auto simp: gateway_step_def on_drain_deadline_def)
  then show ?thesis
    using exited.inv_run [of _ P fs] by (simp add: gateway_events_append) (simp add: gateway_events_def)
qed

theorem shutdown_bounded_witness:
  "gw_phase (gateway_events example_platform example_gateway
     (ShutdownSignal 5 # [ProxyRequest example_clocks ListModels [] [] 0] @ DrainDeadline 35 # [Sighup])) = Exited"
  by (rule shutdown_bounded) (simp_all add: example_gateway_def)

end
