(* ===== verification/ControlLoop.thy ===== *)
theory ControlLoop
  imports Gateway
begin

text \<open>
  The poll loop of the Control Node client (\<open>ControlNodeClient::run\<close> in \<open>control_plane/client.rs\<close>) and what it
  promises to the data plane: an outage changes nothing that is served. The last section composes the loop
  with a reload of the local configuration.
\<close>

section \<open>The loop\<close>

text \<open>
  The loop never ends; a run is its first passes, each at the instant the list gives. The sleep between two
  passes touches no state.
\<close>

fun client_ticks ::
  "'w node_http \<Rightarrow> ('w, 'c, 'r, 'k) build_env \<Rightarrow> config \<Rightarrow> nat list \<Rightarrow> ('w, 'c) node_view \<Rightarrow> 'w \<Rightarrow>
     ('w, 'c) node_view \<times> audit_event list \<times> 'w" where
  "client_ticks N E base [] v w = (v, [], w)"
| "client_ticks N E base (now # nows) v w =
     (case tick N E base now v w of
        (v', evs, w') \<Rightarrow>
          (case client_ticks N E base nows v' w' of
             (v'', evs', w'') \<Rightarrow> (v'', evs @ evs', w'')))"

definition client_run ::
  "'w node_http \<Rightarrow> ('w, 'c, 'r, 'k) build_env \<Rightarrow> config \<Rightarrow> nat list \<Rightarrow> ('w, 'c) node_view \<Rightarrow> 'w \<Rightarrow>
     ('w, 'c) node_view \<times> audit_event list \<times> 'w" where
  "client_run N E base nows v w =
     (case log_identity N (nv_client v) (nv_status v) w of
        (s, w') \<Rightarrow> client_ticks N E base nows (v\<lparr>nv_status := s\<rparr>) w')"

section \<open>Outages\<close>

text \<open>A node that is down: no request is answered with 200 or 304.\<close>

definition node_down :: "'w node_http \<Rightarrow> bool" where
  "node_down N \<longleftrightarrow>
     (\<forall>url headers w. case nh_get N url headers w of
        (Inl e, w') \<Rightarrow> True
      | (Inr resp, w') \<Rightarrow> nr_status resp \<noteq> 200 \<and> nr_status resp \<noteq> 304)"

lemma fetch_resource_down:
  assumes "node_down N"
  obtains f w' where "fetch_resource N de cl res w = (Inl f, w')"
proof -
  obtain url etag where r: "resource_of cl res = (url, etag)" by (cases "resource_of cl res")
  have "case nh_get N url (node_headers cl etag) w of
        (Inl e, w') \<Rightarrow> True
      | (Inr resp, w') \<Rightarrow> nr_status resp \<noteq> 200 \<and> nr_status resp \<noteq> 304"
    using assms by (simp add: node_down_def)
  then have "isl (fst (fetch_resource N de cl res w))"
    by (auto simp: fetch_resource_def r split: prod.splits sum.splits)
  then show thesis
    using that by (cases "fetch_resource N de cl res w") (auto simp: isl_def)
qed

text \<open>What a tick may not change while nothing is applied.\<close>

definition same_service :: "('w, 'c) node_view \<Rightarrow> ('w, 'c) node_view \<Rightarrow> bool" where
  "same_service v v' \<longleftrightarrow>
     nv_client v' = nv_client v \<and> nv_runtime v' = nv_runtime v \<and> nv_keys v' = nv_keys v \<and>
     lk_config_version (nv_status v') = lk_config_version (nv_status v) \<and>
     lk_keys_version (nv_status v') = lk_keys_version (nv_status v)"

lemma tick_down:
  assumes down: "node_down N" and t: "tick N E base now v w = (v', evs, w')"
  shows "same_service v v' \<and> lk_state (nv_status v') = LinkDegraded"
proof -
  obtain f w1 where f: "fetch_resource N (nh_de_config N) (nv_client v) ConfigResource w = (Inl f, w1)"
    using fetch_resource_down [OF down] .
  obtain f' w2 where f': "fetch_resource N (nh_de_keys N) (nv_client v) KeysResource w1 = (Inl f', w2)"
    using fetch_resource_down [OF down] .
  show ?thesis
    using t by (auto simp: tick_def poll_config_def poll_keys_def f f' record_tick_def tick_failure_def
        record_versions_def same_service_def Let_def)
qed

lemma client_ticks_down:
  assumes "node_down N" "client_ticks N E base nows v w = (v', evs, w')"
  shows "same_service v v' \<and> (nows \<noteq> [] \<longrightarrow> lk_state (nv_status v') = LinkDegraded)"
  using assms(2)
proof (induction nows arbitrary: v w v' evs w')
  case (Cons now nows)
  obtain v1 evs1 w1 where t: "tick N E base now v w = (v1, evs1, w1)" by (cases "tick N E base now v w")
  obtain v2 evs2 w2 where r: "client_ticks N E base nows v1 w1 = (v2, evs2, w2)"
    by (cases "client_ticks N E base nows v1 w1")
  have "v' = v2" using Cons.prems by (simp add: t r)
  then show ?case
    using tick_down [OF assms(1) t] Cons.IH [OF r] r by (cases nows) (auto simp: same_service_def)
qed (simp add: same_service_def)

lemma log_identity_versions:
  "log_identity N cl s w = (s', w') \<Longrightarrow>
     lk_config_version s' = lk_config_version s \<and> lk_keys_version s' = lk_keys_version s"
  by (auto simp: log_identity_def set_identity_def split: prod.splits sum.splits if_splits)

text \<open>
  C34. Data-plane survival: however long the poll loop runs against a Control Node that is unreachable or answers
  with errors, the runtime, the key store, the committed ETags and the reported versions stay as they were, and
  from the first pass on the link is reported as degraded.
\<close>

theorem data_plane_survives_outage:
  assumes "node_down N"
    and "client_run N E base nows v w = (v', evs, w')"
  shows "nv_runtime v' = nv_runtime v \<and> nv_keys v' = nv_keys v \<and> nv_client v' = nv_client v \<and>
         lk_config_version (nv_status v') = lk_config_version (nv_status v) \<and>
         lk_keys_version (nv_status v') = lk_keys_version (nv_status v) \<and>
         (nows \<noteq> [] \<longrightarrow> lk_state (nv_status v') = LinkDegraded)"
proof -
  obtain s w1 where s: "log_identity N (nv_client v) (nv_status v) w = (s, w1)"
    by (cases "log_identity N (nv_client v) (nv_status v) w")
  have "client_ticks N E base nows (v\<lparr>nv_status := s\<rparr>) w1 = (v', evs, w')"
    using assms(2) by (simp add: client_run_def s)
  from client_ticks_down [OF assms(1) this] log_identity_versions [OF s]
  show ?thesis by (auto simp: same_service_def)
qed

definition example_view :: "(nat, (string \<times> cached_response) list) node_view" where
  "example_view = \<lparr>nv_client = \<lparr>cl_config_url = ''n/config'', cl_keys_url = ''n/keys'', cl_identity_url = ''n/identity'',
       cl_token = ''t'', cl_config_etag = Some ''c1'', cl_keys_etag = Some ''k1''\<rparr>,
     nv_status = (status_api ''n'')\<lparr>lk_state := LinkSynced, lk_config_version := Some ''c1''\<rparr>,
     nv_runtime = ps_runtime example_state, nv_keys = ps_keys example_state\<rparr>"

theorem data_plane_survives_outage_witness:
  "nv_keys (fst (client_run (pf_node example_platform) example_build config_default [0, 5] example_view 0)) =
     ps_keys example_state \<and>
   lk_state (nv_status (fst (client_run (pf_node example_platform) example_build config_default [0, 5] example_view 0))) =
     LinkDegraded"
proof -
  obtain v' evs w' where r: "client_run (pf_node example_platform) example_build config_default [0, 5] example_view 0 = (v', evs, w')"
    by (cases "client_run (pf_node example_platform) example_build config_default [0, 5] example_view 0")
  have "node_down (pf_node example_platform)" by (simp add: node_down_def example_platform_def)
  moreover have "nv_keys example_view = ps_keys example_state" by (simp add: example_view_def)
  ultimately show ?thesis using data_plane_survives_outage [OF _ r] by (simp add: r)
qed

section \<open>A node with nothing new\<close>

text \<open>A node that has no newer version: a request that carries a validator is answered with 304.\<close>

definition node_unchanged :: "'w node_http \<Rightarrow> bool" where
  "node_unchanged N \<longleftrightarrow>
     (\<forall>url headers w. ''if-none-match'' \<in> fst ` set headers \<longrightarrow>
        (case nh_get N url headers w of
           (Inl e, w') \<Rightarrow> False
         | (Inr resp, w') \<Rightarrow> nr_status resp = 304))"

definition validated :: "node_client \<Rightarrow> bool" where
  "validated cl \<longleftrightarrow> cl_config_etag cl \<noteq> None \<and> cl_keys_etag cl \<noteq> None"

lemma fetch_resource_unchanged:
  assumes "node_unchanged N" "validated cl"
  obtains w' where "fetch_resource N de cl res w = (Inr NotModified, w')"
proof -
  obtain url t where r: "resource_of cl res = (url, Some t)"
    using assms(2) by (cases res) (auto simp: resource_of_def validated_def)
  have "case nh_get N url (node_headers cl (Some t)) w of
           (Inl e, w') \<Rightarrow> False
         | (Inr resp, w') \<Rightarrow> nr_status resp = 304"
    using assms(1) by (simp add: node_unchanged_def node_headers_def)
  then show thesis
    using that r by (auto simp: fetch_resource_def split: prod.splits sum.splits)
qed

lemma tick_unchanged:
  assumes N: "node_unchanged N" "validated (nv_client v)" and t: "tick N E base now v w = (v', evs, w')"
  shows "same_service v v' \<and> lk_state (nv_status v') = LinkSynced"
proof -
  obtain w1 where f: "fetch_resource N (nh_de_config N) (nv_client v) ConfigResource w = (Inr NotModified, w1)"
    using fetch_resource_unchanged [OF N] .
  obtain w2 where f': "fetch_resource N (nh_de_keys N) (nv_client v) KeysResource w1 = (Inr NotModified, w2)"
    using fetch_resource_unchanged [OF N] .
  show ?thesis
    using t by (auto simp: tick_def poll_config_def poll_keys_def f f' record_tick_def tick_failure_def
        record_versions_def same_service_def Let_def)
qed

text \<open>The same at the process: a pass of the loop is an event of the gateway.\<close>

definition shadowed :: "('w, 'c) runtime \<Rightarrow> string option \<Rightarrow> ('w, 'c, 's) gateway \<Rightarrow> bool" where
  "shadowed rt version g \<longleftrightarrow>
     gw_phase g \<noteq> Exited \<and> (\<exists>cl. gw_client g = Some cl \<and> validated cl) \<and>
     ps_runtime (ap_proxy (gw_app g)) = rt \<and> lk_config_version (ap_control_plane (gw_app g)) = version"

lemma shadowed_tick:
  assumes "node_unchanged (pf_node P)" "shadowed rt version g"
  shows "shadowed rt version (gateway_step P g (ControlTick now w)) \<and>
         lk_state (ap_control_plane (gw_app (gateway_step P g (ControlTick now w)))) = LinkSynced"
proof -
  obtain cl where cl: "gw_client g = Some cl" "validated cl" and live: "gw_phase g \<noteq> Exited" using assms(2) by (auto simp: shadowed_def)
  let ?v = "\<lparr>nv_client = cl, nv_status = ap_control_plane (gw_app g), nv_runtime = ps_runtime (ap_proxy (gw_app g)),
              nv_keys = ps_keys (ap_proxy (gw_app g))\<rparr>"
  obtain v' evs w' where t: "tick (pf_node P) (pf_build P) (gw_base g) now ?v w = (v', evs, w')"
    by (cases "tick (pf_node P) (pf_build P) (gw_base g) now ?v w")
  from tick_unchanged [OF assms(1) _ t] cl(2)
  have "same_service ?v v'" "lk_state (nv_status v') = LinkSynced" by simp_all
  moreover have "gateway_step P g (ControlTick now w) =
      g\<lparr>gw_client := Some (nv_client v'),
        gw_app := (gw_app g)\<lparr>ap_control_plane := nv_status v',
          ap_proxy := (ap_proxy (gw_app g))\<lparr>ps_runtime := nv_runtime v', ps_keys := nv_keys v'\<rparr>\<rparr>\<rparr>"
    using live cl(1) by (simp add: gateway_step_def on_control_tick_def Let_def t)
  ultimately show ?thesis
    using assms(2) cl by (simp add: shadowed_def same_service_def)
qed

lemma shadowed_ticks:
  assumes "node_unchanged (pf_node P)" "shadowed rt version g"
  shows "shadowed rt version (gateway_events P g (map (\<lambda>(now, w). ControlTick now w) ticks)) \<and>
         (ticks \<noteq> [] \<longrightarrow>
            lk_state (ap_control_plane (gw_app (gateway_events P g (map (\<lambda>(now, w). ControlTick now w) ticks)))) = LinkSynced)"
  using assms(2)
proof (induction ticks arbitrary: g)
  case (Cons tk ticks)
  obtain now w where tk: "tk = (now, w)" by (cases tk)
  from shadowed_tick [OF assms(1) Cons.prems] have
    s: "shadowed rt version (gateway_step P g (ControlTick now w))"
       "lk_state (ap_control_plane (gw_app (gateway_step P g (ControlTick now w)))) = LinkSynced" by simp_all
  from Cons.IH [OF s(1)] s show ?case by (cases ticks) (simp_all add: gateway_events_def tk)
qed (simp add: gateway_events_def)

text \<open>
  C39. A local reload shadows the Control Node: when a gateway in api mode has applied a bundle and is then told to
  reload its file, it serves the runtime built from the file alone. The validator of the bundle stays committed, so
  as long as the node has nothing newer every poll is answered with 304 and the bundle is not applied again,
  while the status keeps reporting its version as the current one, in sync.
\<close>

theorem local_reload_shadows_bundle:
  assumes "node_unchanged (pf_node P)"
    and "gw_phase g \<noteq> Exited"
    and "gw_client g = Some cl" "cl_config_etag cl = Some etag" "cl_keys_etag cl = Some keys_etag"
    and "lk_config_version (ap_control_plane (gw_app g)) = Some version"
    and "config_load (pf_extract P) (ap_config_path (gw_app g)) = Inr cfg"
    and "build_runtime (pf_build P) cfg = (Inr rt, evs)"
    and "fst (reload (pf_build P) (pf_rustls P) (pf_extract P) (ap_config_path (gw_app g))
               \<lparr>lv_runtime = ps_runtime (ap_proxy (gw_app g)), lv_rustls = ap_rustls (gw_app g)\<rparr>) = Inr ()"
    and "ticks \<noteq> []"
  shows "let g' = gateway_events P g (Sighup # map (\<lambda>(now, w). ControlTick now w) ticks)
         in ps_runtime (ap_proxy (gw_app g')) = rt \<and>
            lk_state (ap_control_plane (gw_app g')) = LinkSynced \<and>
            lk_config_version (ap_control_plane (gw_app g')) = Some version"
proof -
  let ?g = "gateway_step P g Sighup"
  have "lv_runtime (fst (snd (reload (pf_build P) (pf_rustls P) (pf_extract P) (ap_config_path (gw_app g))
          \<lparr>lv_runtime = ps_runtime (ap_proxy (gw_app g)), lv_rustls = ap_rustls (gw_app g)\<rparr>))) = rt"
    using assms(7-9) by (auto simp: reload_def core_context_def split: option.splits prod.splits sum.splits)
  then have "shadowed rt (Some version) ?g"
    using assms(2-6) by (auto simp: gateway_step_def sighup_reload_def shadowed_def validated_def split: prod.split)
  from shadowed_ticks [OF assms(1) this, of ticks] assms(10) show ?thesis
    by (simp add: gateway_events_def shadowed_def Let_def)
qed

definition example_synced_platform :: "(nat, (string \<times> cached_response) list, unit, unit, unit, unit) platform" where
  "example_synced_platform = example_platform\<lparr>pf_node := (pf_node example_platform)\<lparr>nh_get :=
     (\<lambda>_ _ w. (Inr \<lparr>nr_status = 304, nr_etag = None, nr_body = Inr []\<rparr>, w))\<rparr>\<rparr>"

definition example_synced_gateway :: "(nat, (string \<times> cached_response) list, unit) gateway" where
  "example_synced_gateway = example_gateway\<lparr>gw_client := Some (nv_client example_view),
     gw_app := example_app\<lparr>ap_control_plane := nv_status example_view\<rparr>\<rparr>"

theorem local_reload_shadows_bundle_witness:
  "\<exists>rt evs. build_runtime example_build config_default = (Inr rt, evs) \<and>
     ps_runtime (ap_proxy (gw_app (gateway_events example_synced_platform example_synced_gateway
        (Sighup # map (\<lambda>(now, w). ControlTick now w) [(1, 0)])))) = rt"
proof -
  obtain cs where "build_connectors example_build config_default = Inr cs" using example_build_connectors by blast
  moreover have "cfg_models config_default = []" "cfg_plugins config_default = []" "ls_tls (cfg_listen config_default) = None"
    by (simp_all add: config_default_def listen_default_def)
  ultimately obtain rt evs where b: "build_runtime example_build config_default = (Inr rt, evs)"
    by (auto simp: build_runtime_def registry_new_def core_context_def)
  have app: "ap_config_path (gw_app example_synced_gateway) = None" "ap_rustls (gw_app example_synced_gateway) = None"
    by (simp_all add: example_synced_gateway_def example_app_def app_state_new_def)
  have "let g' = gateway_events example_synced_platform example_synced_gateway
                   (Sighup # map (\<lambda>(now, w). ControlTick now w) [(1, 0)])
         in ps_runtime (ap_proxy (gw_app g')) = rt \<and>
            lk_state (ap_control_plane (gw_app g')) = LinkSynced \<and>
            lk_config_version (ap_control_plane (gw_app g')) = Some ''c1''"
  proof (rule local_reload_shadows_bundle [where cl = "nv_client example_view" and etag = "''c1''" and keys_etag = "''k1''"])
    show "node_unchanged (pf_node example_synced_platform)"
      by (simp add: node_unchanged_def example_synced_platform_def)
    show "config_load (pf_extract example_synced_platform) (ap_config_path (gw_app example_synced_gateway)) = Inr config_default"
      by (simp add: config_load_def example_synced_platform_def example_platform_def)
    show "build_runtime (pf_build example_synced_platform) config_default = (Inr rt, evs)"
      using b by (simp add: example_synced_platform_def example_platform_def)
    show "fst (reload (pf_build example_synced_platform) (pf_rustls example_synced_platform) (pf_extract example_synced_platform)
               (ap_config_path (gw_app example_synced_gateway))
               \<lparr>lv_runtime = ps_runtime (ap_proxy (gw_app example_synced_gateway)),
                lv_rustls = ap_rustls (gw_app example_synced_gateway)\<rparr>) = Inr ()"
      using b by (simp add: app reload_def config_load_def core_context_def example_synced_platform_def example_platform_def)
  qed (simp_all add: example_synced_gateway_def example_gateway_def example_view_def)
  with b show ?thesis by (auto simp: Let_def)
qed

end
