(* ===== verification/Ctl.thy ===== *)
theory Ctl
  imports Admin
begin

text \<open>
  The operator's command-line tool (\<open>vaultplane-ctl/src/main.rs\<close>): the admin API client and
  the commands. What a command prints is its list of lines; argument splitting
  is done by \<open>clap\<close>, HTTP by \<open>reqwest\<close>, number parsing and printing by the standard library.
\<close>

section \<open>Formatting\<close>

definition period_label :: "period \<Rightarrow> string" where
  "period_label p = (case p of Day \<Rightarrow> ''day'' | Week \<Rightarrow> ''week'' | Month \<Rightarrow> ''month'')"

fun join_comma :: "string list \<Rightarrow> string" where
  "join_comma [] = []"
| "join_comma [x] = x"
| "join_comma (x # y # r) = x @ '', '' @ join_comma (y # r)"

definition format_models :: "string list \<Rightarrow> string" where
  "format_models models = (if models = [] then ''(any)'' else join_comma models)"

text \<open>\<open>{:<w}\<close>: pad on the right to \<open>w\<close> characters (bytes, for ASCII).\<close>

definition pad_right :: "nat \<Rightarrow> string \<Rightarrow> string" where
  "pad_right w s = s @ replicate (w - length s) SP"

text \<open>\<open>str::split_once\<close> with a character.\<close>

fun split_once :: "char \<Rightarrow> string \<Rightarrow> (string \<times> string) option" where
  "split_once c [] = None"
| "split_once c (x # xs) =
     (if x = c then Some ([], xs) else map_option (\<lambda>(a, b). (x # a, b)) (split_once c xs))"

text \<open>\<open>f64::from_str\<close> and \<open>Display\<close> for \<open>f64\<close>.\<close>

record f64_text =
  parse_f64 :: "string \<Rightarrow> string + f64"
  show_f64 :: "f64 \<Rightarrow> string"

definition parse_spend :: "f64_text \<Rightarrow> string \<Rightarrow> anyhow + spend_limit" where
  "parse_spend F spec =
     (case split_once (CHR ''/'') spec of
        None \<Rightarrow> Inl [''spend must be AMOUNT/PERIOD, got '' @ quoted spec]
      | Some (amount, period) \<Rightarrow>
          (case parse_f64 F amount of
             Inl e \<Rightarrow> Inl [''invalid spend amount '' @ quoted amount @ '': '' @ e]
           | Inr a \<Rightarrow>
               if period = ''day'' then Inr \<lparr>amount_usd = a, sl_period = Day\<rparr>
               else if period = ''week'' then Inr \<lparr>amount_usd = a, sl_period = Week\<rparr>
               else if period = ''month'' then Inr \<lparr>amount_usd = a, sl_period = Month\<rparr>
               else Inl [''unknown period '' @ quoted period @ ''; expected day, week, or month'']))"

section \<open>Admin API client\<close>

record admin_client =
  acl_base :: string
  acl_token :: "string option"

definition admin_client_new :: "client_build \<Rightarrow> string \<Rightarrow> string option \<Rightarrow> anyhow + admin_client" where
  "admin_client_new cb endpoint token =
     (case cb of
        Inl e \<Rightarrow> Inl [''failed to build HTTP client'', e]
      | Inr _ \<Rightarrow> Inr \<lparr>acl_base = trim_end_matches (CHR ''/'') endpoint, acl_token = token\<rparr>)"

definition client_url :: "admin_client \<Rightarrow> string \<Rightarrow> string" where
  "client_url c path = acl_base c @ path"

definition client_auth :: "admin_client \<Rightarrow> header_map" where
  "client_auth c = (case acl_token c of Some t \<Rightarrow> [(''authorization'', ''Bearer '' @ t)] | None \<Rightarrow> [])"

text \<open>
  A call of the admin API: verb, URL, headers and body to the status and the body text, or the
  transport error; the encoder of the request and the decoders of the responses are derived. A body
  that cannot be encoded fails the call when it is sent.
\<close>

record 'w ctl_http =
  ch_send :: "string \<Rightarrow> string \<Rightarrow> header_map \<Rightarrow> bytes \<Rightarrow> 'w \<Rightarrow> (string + (u16 \<times> bytes)) \<times> 'w"
  ch_show_status :: "u16 \<Rightarrow> string"
  ch_ser_create :: "create_key_request \<Rightarrow> string + bytes"
  ch_de_created :: "bytes \<Rightarrow> string + (string \<times> key_summary)"
  ch_de_keys :: "bytes \<Rightarrow> string + key_summary list"
  ch_de_models :: "bytes \<Rightarrow> string + registered_model list"
  ch_de_value :: "bytes \<Rightarrow> string + json"
  ch_pretty :: "json \<Rightarrow> string + string"

definition is_success :: "u16 \<Rightarrow> bool" where
  "is_success s = (200 \<le> unat s \<and> unat s < 300)"

definition admin_call ::
  "'w ctl_http \<Rightarrow> admin_client \<Rightarrow> string \<Rightarrow> string \<Rightarrow> header_map \<Rightarrow> bytes \<Rightarrow> string \<Rightarrow> string \<Rightarrow>
     (bytes \<Rightarrow> string + 'a) \<Rightarrow> 'w \<Rightarrow> (anyhow + 'a) \<times> 'w" where
  "admin_call H c verb path headers body call_ctx decode_ctx de w =
     (case ch_send H verb (client_url c path) (headers @ client_auth c) body w of
        (Inl e, w') \<Rightarrow> (Inl [call_ctx, e], w')
      | (Inr (status, text), w') \<Rightarrow>
          (if \<not> is_success status
           then Inl [''admin API returned '' @ ch_show_status H status @ '': '' @ text]
           else (case de text of Inl e \<Rightarrow> Inl [decode_ctx, e] | Inr v \<Rightarrow> Inr v), w'))"

definition client_create_key ::
  "'w ctl_http \<Rightarrow> admin_client \<Rightarrow> create_key_request \<Rightarrow> 'w \<Rightarrow> (anyhow + (string \<times> key_summary)) \<times> 'w" where
  "client_create_key H c body w =
     (case ch_ser_create H body of
        Inl e \<Rightarrow> (Inl [''failed to call POST /admin/keys'', e], w)
      | Inr payload \<Rightarrow>
          admin_call H c ''POST'' ''/admin/keys'' [(''content-type'', JSON_TYPE)] payload
            ''failed to call POST /admin/keys'' ''failed to decode key create response'' (ch_de_created H) w)"

definition client_list_keys :: "'w ctl_http \<Rightarrow> admin_client \<Rightarrow> 'w \<Rightarrow> (anyhow + key_summary list) \<times> 'w" where
  "client_list_keys H c w =
     admin_call H c ''GET'' ''/admin/keys'' [] [] ''failed to call GET /admin/keys''
       ''failed to decode key list response'' (ch_de_keys H) w"

definition client_revoke_key :: "'w ctl_http \<Rightarrow> admin_client \<Rightarrow> string \<Rightarrow> 'w \<Rightarrow> (anyhow + unit) \<times> 'w" where
  "client_revoke_key H c kid w =
     (case ch_send H ''DELETE'' (client_url c (''/admin/keys/'' @ kid)) (client_auth c) [] w of
        (Inl e, w') \<Rightarrow> (Inl [''failed to call DELETE /admin/keys/:id'', e], w')
      | (Inr (status, text), w') \<Rightarrow>
          (if status = 204 then Inr ()
           else if status = 404 then Inl [''no key with id '' @ kid]
           else Inl [''admin API returned '' @ ch_show_status H status @ '': '' @ text], w'))"

definition client_list_models :: "'w ctl_http \<Rightarrow> admin_client \<Rightarrow> 'w \<Rightarrow> (anyhow + registered_model list) \<times> 'w" where
  "client_list_models H c w =
     admin_call H c ''GET'' ''/admin/models'' [] [] ''failed to call GET /admin/models''
       ''failed to decode model list response'' (ch_de_models H) w"

definition client_status :: "'w ctl_http \<Rightarrow> admin_client \<Rightarrow> 'w \<Rightarrow> (anyhow + json) \<times> 'w" where
  "client_status H c w =
     admin_call H c ''GET'' ''/admin/status'' [] [] ''failed to call GET /admin/status''
       ''failed to decode status response'' (ch_de_value H) w"

section \<open>Commands\<close>

type_synonym 'w command_result = "(anyhow + string list) \<times> 'w"

definition created_lines :: "f64_text \<Rightarrow> string \<Rightarrow> key_summary \<Rightarrow> string list" where
  "created_lines F token k =
     [''Issued key '' @ sum_id k, [], ''Token: '' @ token, ''Save the token now; it cannot be recovered.'', [],
      ''Scope:'', ''  team:   '' @ sum_team k, ''  app:    '' @ sum_app k, ''  env:    '' @ sum_env k,
      ''  models: '' @ format_models (sum_models k)] @
     (case sum_rate_limit_rps k of Some rps \<Rightarrow> [''  rate_limit_rps: '' @ show_nat (unat rps)] | None \<Rightarrow> []) @
     (case sum_spend_limit k of
        Some l \<Rightarrow> [''  spend_limit: '' @ show_f64 F (amount_usd l) @ ''/'' @ period_label (sl_period l)]
      | None \<Rightarrow> []) @
     (case sum_expires_at k of Some e \<Rightarrow> [''  expires_at: '' @ e] | None \<Rightarrow> [])"

definition key_create_online ::
  "f64_text \<Rightarrow> 'w ctl_http \<Rightarrow> admin_client \<Rightarrow> create_key_request \<Rightarrow> 'w \<Rightarrow> 'w command_result" where
  "key_create_online F H c body w =
     (case client_create_key H c body w of
        (Inl e, w') \<Rightarrow> (Inl e, w')
      | (Inr (token, k), w') \<Rightarrow> (Inr (created_lines F token k), w'))"

definition dq :: "string \<Rightarrow> string" where
  "dq s = [DQ] @ s @ [DQ]"

text \<open>The YAML record printed for \<open>auth.keys\<close>; \<open>None\<close> is the panic of \<open>generate_key\<close>.\<close>

definition key_create_offline ::
  "f64_text \<Rightarrow> crypto \<Rightarrow> bytes \<Rightarrow> string \<Rightarrow> string \<Rightarrow> string \<Rightarrow> string list \<Rightarrow> u32 option \<Rightarrow> spend_limit option \<Rightarrow>
     string list option" where
  "key_create_offline F C entropy team app env models rps limit =
     (case generate_key C entropy of
        None \<Rightarrow> None
      | Some key \<Rightarrow>
          Some
            ([''Token: '' @ gk_token key, ''Key id: '' @ gk_id key, [],
              ''Save the token now; it cannot be recovered (the gateway only stores the hash).'', [],
              ''Add this entry to the gateway'' @ [CHR 0x27] @ ''s auth.keys list:'', [],
              ''  - id: '' @ dq (gk_id key), ''    hash: '' @ dq (gk_hash key), ''    team: '' @ dq team,
              ''    app: '' @ dq app, ''    env: '' @ dq env,
              (if models = [] then ''    models: []''
               else ''    models: ['' @ join_comma (map dq models) @ '']'')] @
             (case rps of Some n \<Rightarrow> [''    rate_limit_rps: '' @ show_nat (unat n)] | None \<Rightarrow> []) @
             (case limit of
                Some l \<Rightarrow> [''    spend_limit:'', ''      amount_usd: '' @ show_f64 F (amount_usd l),
                          ''      period: '' @ period_label (sl_period l)]
              | None \<Rightarrow> [])))"

definition key_list_line :: "string \<Rightarrow> string \<Rightarrow> string \<Rightarrow> string \<Rightarrow> string \<Rightarrow> string" where
  "key_list_line a b c d e = pad_right 22 a @ '' '' @ pad_right 12 b @ '' '' @ pad_right 12 c @ '' '' @ pad_right 8 d @ '' '' @ e"

definition key_list :: "'w ctl_http \<Rightarrow> admin_client \<Rightarrow> 'w \<Rightarrow> 'w command_result" where
  "key_list H c w =
     (case client_list_keys H c w of
        (Inl e, w') \<Rightarrow> (Inl e, w')
      | (Inr ks, w') \<Rightarrow>
          (Inr (if ks = [] then [''(no keys configured)'']
                else key_list_line ''ID'' ''TEAM'' ''APP'' ''ENV'' ''MODELS'' #
                     map (\<lambda>k. key_list_line (sum_id k) (sum_team k) (sum_app k) (sum_env k)
                                (format_models (sum_models k))) ks), w'))"

definition model_list :: "'w ctl_http \<Rightarrow> admin_client \<Rightarrow> 'w \<Rightarrow> 'w command_result" where
  "model_list H c w =
     (case client_list_models H c w of
        (Inl e, w') \<Rightarrow> (Inl e, w')
      | (Inr ms, w') \<Rightarrow>
          (Inr (if ms = [] then [''(no models configured)'']
                else (pad_right 32 ''MODEL'' @ '' PROVIDER'') #
                     map (\<lambda>m. pad_right 32 (rgm_id m) @ '' '' @ rgm_provider m) ms), w'))"

definition key_revoke :: "'w ctl_http \<Rightarrow> admin_client \<Rightarrow> string \<Rightarrow> 'w \<Rightarrow> 'w command_result" where
  "key_revoke H c kid w =
     (case client_revoke_key H c kid w of
        (Inl e, w') \<Rightarrow> (Inl e, w')
      | (Inr _, w') \<Rightarrow> (Inr [''Revoked '' @ kid], w'))"

definition ctl_status :: "'w ctl_http \<Rightarrow> admin_client \<Rightarrow> 'w \<Rightarrow> 'w command_result" where
  "ctl_status H c w =
     (case client_status H c w of
        (Inl e, w') \<Rightarrow> (Inl e, w')
      | (Inr v, w') \<Rightarrow> ((case ch_pretty H v of Inl e \<Rightarrow> Inl [e] | Inr t \<Rightarrow> Inr [t]), w'))"

definition config_validate ::
  "(config \<Rightarrow> string option \<Rightarrow> string + config) \<Rightarrow> string \<Rightarrow> anyhow + string list" where
  "config_validate extract path =
     (case core_context (''failed to load configuration from '' @ path) (config_load extract (Some path)) of
        Inl e \<Rightarrow> Inl e
      | Inr cfg \<Rightarrow>
          Inr [''OK: '' @ path,
               ''  proxy listen:  '' @ ls_address (cfg_listen cfg),
               ''  admin listen:  '' @ ls_admin_address (cfg_listen cfg),
               ''  tls:           '' @ (if ls_tls (cfg_listen cfg) \<noteq> None then ''enabled'' else ''disabled''),
               ''  models:        '' @ show_nat (length (cfg_models cfg)),
               ''  plugins:       '' @ show_nat (length (cfg_plugins cfg)),
               ''  file-loaded virtual keys: '' @ show_nat (length (auth_keys (cfg_auth cfg))),
               ''  cache:         '' @ (if cc_enabled (cfg_cache cfg) then ''enabled'' else ''disabled'')])"

text \<open>
  The configuration diff: the serializer with its pretty printer and the unified diff of the crate
  \<open>similar\<close> (old and new text, context radius, the two file names). Its text is printed as it is.
\<close>

record diff_crate =
  df_pretty :: "config \<Rightarrow> string + string"
  df_unified :: "string \<Rightarrow> string \<Rightarrow> nat \<Rightarrow> string \<Rightarrow> string \<Rightarrow> string"

definition config_diff ::
  "diff_crate \<Rightarrow> (config \<Rightarrow> string option \<Rightarrow> string + config) \<Rightarrow> string \<Rightarrow> string \<Rightarrow> anyhow + string list" where
  "config_diff D extract old_path new_path =
     (case core_context (''failed to load configuration from '' @ old_path) (config_load extract (Some old_path)) of
        Inl e \<Rightarrow> Inl e
      | Inr old \<Rightarrow>
          (case core_context (''failed to load configuration from '' @ new_path) (config_load extract (Some new_path)) of
             Inl e \<Rightarrow> Inl e
           | Inr new \<Rightarrow>
               (case df_pretty D old of
                  Inl e \<Rightarrow> Inl [''failed to serialize old configuration'', e]
                | Inr old_text \<Rightarrow>
                    (case df_pretty D new of
                       Inl e \<Rightarrow> Inl [''failed to serialize new configuration'', e]
                     | Inr new_text \<Rightarrow> Inr [df_unified D old_text new_text 3 old_path new_path]))))"

definition require_endpoint :: "string option \<Rightarrow> anyhow + string" where
  "require_endpoint endpoint =
     ok_or [''this subcommand requires --endpoint (or the VAULTPLANE_ADMIN_ENDPOINT env var)''] endpoint"

datatype ctl_command =
    KeyCreate string string string "string list" "u32 option" "string option" "string option"
  | KeyList
  | KeyRevoke string
  | Status
  | ConfigValidate string
  | ConfigDiff string string
  | ModelList

record cli =
  cli_endpoint :: "string option"
  cli_token :: "string option"
  cli_command :: ctl_command

definition with_client ::
  "client_build \<Rightarrow> cli \<Rightarrow> (admin_client \<Rightarrow> 'w \<Rightarrow> 'w command_result) \<Rightarrow> 'w \<Rightarrow> 'w command_result" where
  "with_client cb cli f w =
     (case require_endpoint (cli_endpoint cli) of
        Inl e \<Rightarrow> (Inl e, w)
      | Inr endpoint \<Rightarrow>
          (case admin_client_new cb endpoint (cli_token cli) of Inl e \<Rightarrow> (Inl e, w) | Inr c \<Rightarrow> f c w))"

text \<open>\<open>spend.map(parse_spend).transpose()\<close>.\<close>

definition parse_spend_option :: "f64_text \<Rightarrow> string option \<Rightarrow> anyhow + spend_limit option" where
  "parse_spend_option F spend =
     (case spend of
        None \<Rightarrow> Inr None
      | Some s \<Rightarrow> (case parse_spend F s of Inl e \<Rightarrow> Inl e | Inr l \<Rightarrow> Inr (Some l)))"

definition run_key_create ::
  "f64_text \<Rightarrow> crypto \<Rightarrow> bytes \<Rightarrow> client_build \<Rightarrow> 'w ctl_http \<Rightarrow> string option \<Rightarrow> string option \<Rightarrow>
     string \<Rightarrow> string \<Rightarrow> string \<Rightarrow> string list \<Rightarrow> u32 option \<Rightarrow> string option \<Rightarrow> string option \<Rightarrow> 'w \<Rightarrow> 'w command_result exec" where
  "run_key_create F C entropy cb H endpoint token team app env models rps spend expires_at w =
     (case parse_spend_option F spend of
        Inl e \<Rightarrow> Ret (Inl e, w)
      | Inr limit \<Rightarrow>
          (case endpoint of
             Some ep \<Rightarrow>
               (case admin_client_new cb ep token of
                  Inl e \<Rightarrow> Ret (Inl e, w)
                | Inr c \<Rightarrow>
                    Ret (key_create_online F H c
                      \<lparr>ck_team = team, ck_app = app, ck_env = env, ck_models = models, ck_rate_limit_rps = rps,
                       ck_spend_limit = limit, ck_expires_at = expires_at\<rparr> w))
           | None \<Rightarrow>
               (case key_create_offline F C entropy team app env models rps limit of
                  None \<Rightarrow> Panic
                | Some out \<Rightarrow> Ret (Inr out, w))))"

definition ctl_main ::
  "f64_text \<Rightarrow> crypto \<Rightarrow> bytes \<Rightarrow> client_build \<Rightarrow> 'w ctl_http \<Rightarrow> diff_crate \<Rightarrow> (config \<Rightarrow> string option \<Rightarrow> string + config) \<Rightarrow>
     cli \<Rightarrow> 'w \<Rightarrow> 'w command_result exec" where
  "ctl_main F C entropy cb H D extract cli w =
     (case cli_command cli of
        KeyCreate team app env models rps spend expires_at \<Rightarrow>
          run_key_create F C entropy cb H (cli_endpoint cli) (cli_token cli) team app env models rps spend
            expires_at w
      | KeyList \<Rightarrow> Ret (with_client cb cli (key_list H) w)
      | KeyRevoke kid \<Rightarrow> Ret (with_client cb cli (\<lambda>c. key_revoke H c kid) w)
      | Status \<Rightarrow> Ret (with_client cb cli (ctl_status H) w)
      | ConfigValidate path \<Rightarrow> Ret (config_validate extract path, w)
      | ConfigDiff old new \<Rightarrow> Ret (config_diff D extract old new, w)
      | ModelList \<Rightarrow> Ret (with_client cb cli (model_list H) w))"

section \<open>Properties\<close>

lemma split_once_append: "c \<notin> set a \<Longrightarrow> split_once c (a @ c # b) = Some (a, b)"
  by (induction a) auto

text \<open>
  Spend limits round trip: the \<open>AMOUNT/PERIOD\<close> form the tool prints for a limit is parsed back
  to that limit, for every amount the number parser reads back from its rendering.
\<close>

theorem parse_spend_roundtrip:
  assumes "parse_f64 F (show_f64 F (amount_usd l)) = Inr (amount_usd l)"
    and "CHR ''/'' \<notin> set (show_f64 F (amount_usd l))"
  shows "parse_spend F (show_f64 F (amount_usd l) @ ''/'' @ period_label (sl_period l)) = Inr l"
  using assms by (cases l; cases "sl_period l")
    (simp_all add: parse_spend_def split_once_append period_label_def)

definition example_f64_text :: f64_text where
  "example_f64_text = \<lparr>parse_f64 = (\<lambda>s. if s = ''500'' then Inr (Fin 500) else Inl ''invalid float literal''),
     show_f64 = (\<lambda>x. ''500'')\<rparr>"

theorem parse_spend_roundtrip_witness:
  "parse_spend example_f64_text (show_f64 example_f64_text (amount_usd \<lparr>amount_usd = Fin 500, sl_period = Week\<rparr>) @
     ''/'' @ period_label (sl_period \<lparr>amount_usd = Fin 500, sl_period = Week\<rparr>)) =
   Inr \<lparr>amount_usd = Fin 500, sl_period = Week\<rparr>"
  by (rule parse_spend_roundtrip) (simp_all add: example_f64_text_def)

text \<open>
  The offline \<open>key create\<close> ignores \<open>--expires-at\<close>: without an endpoint the printed record is the
  same for every expiry given, so the key it describes never expires.
\<close>

theorem offline_create_ignores_expiry:
  "run_key_create F C entropy cb H None token team app env models rps spend expires_at w =
   run_key_create F C entropy cb H None token team app env models rps spend None w"
  by (simp add: run_key_create_def split: sum.split)

end
