(* ===== verification/Telemetry.thy ===== *)
theory Telemetry
  imports Proxy_Safety
begin

text \<open>
  Telemetry: the tracing setup (\<open>telemetry.rs\<close>), the Prometheus recorder with its metric names and
  label values (\<open>prom.rs\<close>), and the labels the metrics of the proxy can carry. The subscriber stack
  is the list of its layers; the exporters of the OpenTelemetry crates are parameters.
\<close>

section \<open>Tracing setup\<close>

definition SERVICE_NAME :: string where "SERVICE_NAME = ''vaultplane-gateway''"

datatype 'p tracing_layer =
    EnvFilter string
  | FmtSpanClose
  | OtelTraces 'p
  | OtelLogs 'p

record 'p otel_providers =
  tp_tracer :: "'p option"
  tp_logger :: "'p option"

definition no_otel :: "'p otel_providers" where
  "no_otel = \<lparr>tp_tracer = None, tp_logger = None\<rparr>"

text \<open>
  The outside: the filter of \<open>RUST_LOG\<close> when it is set and parses, the endpoint variable, the two
  exporter builders with the provider made from an exporter, and the shutdown of a provider.
\<close>

record ('e, 'p) otel =
  ot_default_filter :: "string option"
  ot_endpoint :: "string option"
  ot_span_exporter :: "string \<Rightarrow> string + 'e"
  ot_log_exporter :: "string \<Rightarrow> string + 'e"
  ot_provider :: "'e \<Rightarrow> string \<Rightarrow> 'p"
  ot_shutdown :: "'p \<Rightarrow> string + unit"

text \<open>\<open>SubscriberInitExt::init\<close> sets the global subscriber, and panics when one is set.\<close>

definition subscriber_init :: "'p tracing_layer list \<Rightarrow> 'p tracing_layer list option \<Rightarrow> unit exec \<times> 'p tracing_layer list option" where
  "subscriber_init layers global =
     (case global of None \<Rightarrow> (Ret (), Some layers) | Some g \<Rightarrow> (Panic, Some g))"

definition otel_endpoint :: "('e, 'p) otel \<Rightarrow> string option" where
  "otel_endpoint X = (case ot_endpoint X of Some v \<Rightarrow> if v = [] then None else Some v | None \<Rightarrow> None)"

definition telemetry_init ::
  "('e, 'p) otel \<Rightarrow> 'p tracing_layer list option \<Rightarrow> (anyhow + 'p otel_providers) exec \<times> 'p tracing_layer list option" where
  "telemetry_init X global =
     (let env_filter = EnvFilter (unwrap_or (ot_default_filter X) ''info'')
      in case otel_endpoint X of
           None \<Rightarrow>
             (case subscriber_init [env_filter, FmtSpanClose] global of
                (Panic, g) \<Rightarrow> (Panic, g)
              | (Ret _, g) \<Rightarrow> (Ret (Inr no_otel), g))
         | Some endpoint \<Rightarrow>
             let base = trim_end_matches (CHR ''/'') endpoint
             in case ot_span_exporter X (base @ ''/v1/traces'') of
                  Inl e \<Rightarrow> (Ret (Inl [''failed to build OTLP span exporter'', e]), global)
                | Inr se \<Rightarrow>
                    let tracer = ot_provider X se SERVICE_NAME
                    in case ot_log_exporter X (base @ ''/v1/logs'') of
                         Inl e \<Rightarrow> (Ret (Inl [''failed to build OTLP log exporter'', e]), global)
                       | Inr le \<Rightarrow>
                           let logger = ot_provider X le SERVICE_NAME
                           in case subscriber_init [env_filter, FmtSpanClose, OtelTraces tracer, OtelLogs logger] global of
                                (Panic, g) \<Rightarrow> (Panic, g)
                              | (Ret _, g) \<Rightarrow> (Ret (Inr \<lparr>tp_tracer = Some tracer, tp_logger = Some logger\<rparr>), g))"

text \<open>The warnings a shutdown logs: one for each installed provider that reports an error.\<close>

definition shutdown_one :: "('e, 'p) otel \<Rightarrow> string \<Rightarrow> 'p option \<Rightarrow> (string \<times> string) list" where
  "shutdown_one X msg p =
     (case p of
        None \<Rightarrow> []
      | Some q \<Rightarrow> (case ot_shutdown X q of Inl err \<Rightarrow> [(msg, err)] | Inr _ \<Rightarrow> []))"

definition telemetry_shutdown :: "('e, 'p) otel \<Rightarrow> 'p otel_providers \<Rightarrow> (string \<times> string) list" where
  "telemetry_shutdown X ps =
     shutdown_one X ''OTLP tracer provider shutdown reported an error'' (tp_tracer ps) @
     shutdown_one X ''OTLP logger provider shutdown reported an error'' (tp_logger ps)"

text \<open>Export is all or nothing: the layers installed are exactly those of the providers returned.\<close>

lemma telemetry_init_layers:
  assumes "telemetry_init X None = (Ret (Inr ps), global)"
  shows "\<exists>f. global = Some ([EnvFilter f, FmtSpanClose] @
      (case (tp_tracer ps, tp_logger ps) of (Some t, Some l) \<Rightarrow> [OtelTraces t, OtelLogs l] | _ \<Rightarrow> []))"
    and "tp_tracer ps = None \<longleftrightarrow> otel_endpoint X = None" and "tp_logger ps = None \<longleftrightarrow> otel_endpoint X = None"
  using assms by (auto simp: telemetry_init_def subscriber_init_def no_otel_def Let_def split: option.splits sum.splits)

lemma telemetry_init_error: "telemetry_init X global = (Ret (Inl e), global') \<Longrightarrow> global' = global"
  by (auto simp: telemetry_init_def subscriber_init_def Let_def split: option.splits sum.splits)

section \<open>The Prometheus recorder\<close>

text \<open>\<open>OnceLock::get_or_init\<close>; a panic in the initializer leaves the cell empty.\<close>

definition prom_install :: "(string + 'h) \<Rightarrow> 'h option \<Rightarrow> 'h exec \<times> 'h option" where
  "prom_install install_recorder handle =
     (case handle of
        Some h \<Rightarrow> (Ret h, handle)
      | None \<Rightarrow> (case install_recorder of Inr h \<Rightarrow> (Ret h, Some h) | Inl e \<Rightarrow> (Panic, None)))"

lemma prom_install_idem:
  "prom_install r1 handle = (Ret h, handle') \<Longrightarrow> prom_install r2 handle' = (Ret h, handle')"
  by (auto simp: prom_install_def split: option.splits sum.splits)

fun metric_name :: "metric \<Rightarrow> string" where
  "metric_name (RequestsTotal p m s) = ''vaultplane_requests_total''"
| "metric_name (RequestDuration p m c d) = ''vaultplane_request_duration_seconds''"
| "metric_name (CostCentsTotal p m n) = ''vaultplane_cost_cents_total''"
| "metric_name (RejectionsTotal r) = ''vaultplane_rejections_total''"

definition cache_label_values :: "string list" where
  "cache_label_values = [''hit'', ''miss'']"

definition reason_label_values :: "string list" where
  "reason_label_values =
     [''auth'', ''expired'', ''rate_limit'', ''spend_limit'', ''forbidden_model'', ''plugin'', ''upstream_error'']"

end
