(* ===== verification/Metrics.thy ===== *)
theory Metrics
  imports Telemetry Gateway
begin

text \<open>
  The labels of the metrics the proxy emits. Every connector labels its responses with its own name
  and the model it was asked for (the locale \<open>labelled_connector\<close>); from there the labels are
  followed through the failover loops, the cache and the accounting.
\<close>

section \<open>What labels a response carries\<close>

definition response_label :: "chat_response \<Rightarrow> string \<times> string" where
  "response_label up = (rs_provider up, rs_model up)"

locale labelled_connector =
  fixes name :: string and chat :: "chat_request \<Rightarrow> 'w chat_call"
    and embeddings_call :: "embeddings_request \<Rightarrow> 'w chat_call"
  assumes chat_label: "chat rq w = (Ret (Inr up), w') \<Longrightarrow> response_label up = (name, cq_model rq)"
    and embeddings_label: "embeddings_call erq w = (Ret (Inr up), w') \<Longrightarrow> response_label up = (name, eq_model erq)"
begin

lemma chat_result_label: "fst (chat rq w) = Ret (Inr up) \<Longrightarrow> response_label up = (name, cq_model rq)"
  by (cases "chat rq w") (simp add: chat_label)

lemma embeddings_result_label: "fst (embeddings_call erq w) = Ret (Inr up) \<Longrightarrow> response_label up = (name, eq_model erq)"
  by (cases "embeddings_call erq w") (simp add: embeddings_label)

end

interpretation openai_lab: labelled_connector "''openai''" "openai_chat J H c" "openai_embeddings J H c" for J H c
  by unfold_locales (auto simp: openai_chat_def openai_embeddings_def response_label_def Let_def
      split: prod.splits sum.splits if_splits)

interpretation azure_lab: labelled_connector "''azure''" "azure_chat J H c" "azure_embeddings J H c" for J H c
  by unfold_locales (auto simp: azure_chat_def azure_embeddings_def response_label_def Let_def
      split: prod.splits sum.splits if_splits)

interpretation anthropic_lab: labelled_connector "''anthropic''" "anthropic_chat J D C entropy clock H c"
  "default_embeddings ''anthropic''" for J D C entropy clock H c
  by unfold_locales (auto simp: anthropic_chat_def default_embeddings_def anthropic_reply_def response_label_def Let_def
      split: prod.splits sum.splits if_splits option.splits)

interpretation bedrock_lab: labelled_connector "''bedrock''" "bedrock_chat J D ser C clock H c"
  "default_embeddings ''bedrock''" for J D ser C clock H c
  by unfold_locales (auto simp: bedrock_chat_def default_embeddings_def bedrock_reply_def response_label_def Let_def
      split: prod.splits sum.splits if_splits)

section \<open>Dispatch\<close>

text \<open>A timer passes the result of the call on or reports that it elapsed.\<close>

definition timeout_law :: "'w timeout \<Rightarrow> bool" where
  "timeout_law T \<longleftrightarrow> (\<forall>ms f w v w'. T ms f w = (Some v, w') \<longrightarrow> fst (f w) = v)"

lemma timeout_lawD: "timeout_law T \<Longrightarrow> T ms f w = (Some v, w') \<Longrightarrow> fst (f w) = v"
  unfolding timeout_law_def by blast

lemma response_label_attempts [simp]: "response_label (up\<lparr>rs_attempts := n\<rparr>) = response_label up"
  by (simp add: response_label_def)

lemma final_result_response:
  "final_result route n oc = Ret (Inr up) \<Longrightarrow> \<exists>up0. oc = Some (Ret (Inr up0)) \<and> response_label up = response_label up0"
  by (auto simp: final_result_def split: option.splits exec.splits sum.splits)

lemma failover_response:
  assumes "failover_spec call resolved vm w (Ret (Inr up), evs, w')"
  shows "\<exists>r \<in> set (rm_routes resolved). \<exists>w1 w2 up0.
     call r w1 = (Some (Ret (Inr up0)), w2) \<and> response_label up = response_label up0"
proof -
  obtain n where n: "n < length (rm_routes resolved)"
    "Ret (Inr up) = final_result (rm_routes resolved ! n) (Suc n) (attempt_outcome call (rm_routes resolved) w n)"
    using assms by (auto simp: failover_spec_def Let_def)
  obtain up0 where up0: "attempt_outcome call (rm_routes resolved) w n = Some (Ret (Inr up0))"
    "response_label up = response_label up0"
    using final_result_response [OF n(2) [symmetric]] by blast
  have "call (rm_routes resolved ! n) (attempt_world call (rm_routes resolved) w n) =
      (Some (Ret (Inr up0)), snd (call (rm_routes resolved ! n) (attempt_world call (rm_routes resolved) w n)))"
    using up0(1) by (simp add: attempt_outcome_def prod_eq_iff)
  with n(1) up0(2) show ?thesis using nth_mem by blast
qed

text \<open>The labels a configuration names: provider and upstream model of each route.\<close>

definition config_labels :: "model_config list \<Rightarrow> (string \<times> string) set" where
  "config_labels models =
     (\<Union>mc \<in> set models. (\<lambda>r. (rt_provider r, rt_model r)) ` set (mc_primary mc # mc_fallbacks mc))"

text \<open>The label of a request for a model no configuration names: the prefix rule and the name as given.\<close>

definition fallback_label :: "string \<Rightarrow> string \<times> string" where
  "fallback_label vm = (if starts_with ''claude'' vm then ''anthropic'' else ''openai'', vm)"

definition model_labels :: "model_config list \<Rightarrow> string \<Rightarrow> (string \<times> string) set" where
  "model_labels models vm =
     (if vm \<in> mc_name ` set models then config_labels models else {fallback_label vm})"

definition connectors_labelled :: "'w connector table \<Rightarrow> bool" where
  "connectors_labelled cs \<longleftrightarrow>
     (\<forall>n c. tget cs n = Some c \<longrightarrow> labelled_connector n (conn_chat c) (conn_embeddings c))"

lemma resolved_route_labelled:
  assumes "connectors_labelled cs" and "resolved_from cs mc resolved" and "rr \<in> set (rm_routes resolved)"
  obtains r where "r \<in> set (mc_primary mc # mc_fallbacks mc)" "rr_model rr = rt_model r"
    "labelled_connector (rt_provider r) (conn_chat (rr_connector rr)) (conn_embeddings (rr_connector rr))"
proof -
  have "(Some (rr_connector rr), rr_model rr) \<in> (\<lambda>r. (tget cs (rt_provider r), rt_model r)) ` set (mc_primary mc # mc_fallbacks mc)"
    using assms(2,3) unfolding resolved_from_def by (metis (mono_tags, lifting) image_eqI image_set)
  then obtain r where "r \<in> set (mc_primary mc # mc_fallbacks mc)" "rr_model rr = rt_model r"
    "Some (rr_connector rr) = tget cs (rt_provider r)" by (elim imageE) simp
  then show thesis using assms(1) that [of r] unfolding connectors_labelled_def by metis
qed

lemma registry_unknown:
  assumes "registry_new cs models = Inr reg"
  shows "vm \<notin> mc_name ` set models \<Longrightarrow> tget (reg_models reg) vm = None" and "reg_connectors reg = cs"
proof -
  assume "vm \<notin> mc_name ` set models"
  then have "find (\<lambda>m. mc_name m = vm) (rev models) = None" by (auto simp: find_None_iff)
  then show "tget (reg_models reg) vm = None"
    using assms resolve_models_lookup [of cs models "[]" "reg_models reg" vm]
    by (auto simp: registry_new_def split: sum.splits)
qed (use assms in \<open>auto simp: registry_new_def split: sum.splits\<close>)

lemma registry_known:
  assumes "registry_new cs models = Inr reg" and "vm \<in> mc_name ` set models"
  obtains mc resolved where "mc \<in> set models" "tget (reg_models reg) vm = Some resolved" "resolved_from cs mc resolved"
proof -
  obtain mc where mc: "find (\<lambda>m. mc_name m = vm) (rev models) = Some mc"
    using assms(2) by (cases "find (\<lambda>m. mc_name m = vm) (rev models)") (auto simp: find_None_iff)
  then have "mc \<in> set models" by (metis find_Some_iff nth_mem set_rev)
  with registry_new_lookup [OF assms(1) mc] that show thesis by blast
qed

lemma routed_label:
  assumes cs: "connectors_labelled cs" and mc: "mc \<in> set models" "resolved_from cs mc resolved"
    and spec: "failover_spec call resolved vm w (Ret (Inr up), evs, w')"
    and call: "\<And>n rr w1 up0 w2. labelled_connector n (conn_chat (rr_connector rr)) (conn_embeddings (rr_connector rr)) \<Longrightarrow>
      call rr w1 = (Some (Ret (Inr up0)), w2) \<Longrightarrow> response_label up0 = (n, rr_model rr)"
  shows "response_label up \<in> config_labels models"
proof -
  obtain rr w1 w2 up0 where rr: "rr \<in> set (rm_routes resolved)" "call rr w1 = (Some (Ret (Inr up0)), w2)"
    "response_label up = response_label up0" using failover_response [OF spec] by blast
  obtain r where r: "r \<in> set (mc_primary mc # mc_fallbacks mc)" "rr_model rr = rt_model r"
    "labelled_connector (rt_provider r) (conn_chat (rr_connector rr)) (conn_embeddings (rr_connector rr))"
    by (rule resolved_route_labelled [OF cs mc(2) rr(1)])
  then show ?thesis using call [OF r(3) rr(2)] rr(3) mc(1) by (auto simp: config_labels_def)
qed

lemma fallback_labelled:
  assumes "connectors_labelled cs" and "registry_new cs models = Inr reg" and "fallback_connector reg vm = Some c"
  shows "labelled_connector (fst (fallback_label vm)) (conn_chat c) (conn_embeddings c)"
  using assms registry_unknown(2) [OF assms(2)]
  by (auto simp: connectors_labelled_def fallback_connector_def fallback_label_def)

lemma registry_chat_label:
  assumes T: "timeout_law T" and cs: "connectors_labelled cs" and reg: "registry_new cs models = Inr reg"
    and d: "registry_chat T reg rq w = (Ret (Inr up), evs, w')"
  shows "response_label up \<in> model_labels models (cq_model rq)"
proof (cases "cq_model rq \<in> mc_name ` set models")
  case True
  obtain mc resolved where mc: "mc \<in> set models" "tget (reg_models reg) (cq_model rq) = Some resolved"
    "resolved_from cs mc resolved" by (rule registry_known [OF reg True])
  have "failover_spec (chat_attempt T resolved rq) resolved (cq_model rq) w
      (dispatch_loop T resolved (cq_model rq) rq 0 (rm_routes resolved) w)"
    by (rule chat.loop_spec) (rule resolved_from_routes [OF mc(3)])
  then have "failover_spec (chat_attempt T resolved rq) resolved (cq_model rq) w (Ret (Inr up), evs, w')"
    using d mc(2) by (simp add: registry_chat_def dispatch_def)
  then have "response_label up \<in> config_labels models"
  proof (rule routed_label [OF cs mc(1,3)])
    fix n rr w1 up0 w2
    assume c: "labelled_connector n (conn_chat (rr_connector rr)) (conn_embeddings (rr_connector rr))"
      and a: "chat_attempt T resolved rq rr w1 = (Some (Ret (Inr up0)), w2)"
    show "response_label up0 = (n, rr_model rr)"
      using labelled_connector.chat_result_label [OF c timeout_lawD [OF T a]] by simp
  qed
  with True show ?thesis by (simp add: model_labels_def)
next
  case False
  then obtain c where c: "fallback_connector reg (cq_model rq) = Some c" "conn_chat c rq w = (Ret (Inr up), w')"
    using d registry_unknown(1) [OF reg] by (auto simp: registry_chat_def split: option.splits prod.splits)
  from labelled_connector.chat_label [OF fallback_labelled [OF cs reg c(1)] c(2)] False show ?thesis
    by (simp add: model_labels_def fallback_label_def)
qed

lemma registry_embeddings_label:
  assumes T: "timeout_law T" and cs: "connectors_labelled cs" and reg: "registry_new cs models = Inr reg"
    and d: "registry_embeddings T reg rq w = (Ret (Inr up), evs, w')"
  shows "response_label up \<in> model_labels models (eq_model rq)"
proof (cases "eq_model rq \<in> mc_name ` set models")
  case True
  obtain mc resolved where mc: "mc \<in> set models" "tget (reg_models reg) (eq_model rq) = Some resolved"
    "resolved_from cs mc resolved" by (rule registry_known [OF reg True])
  have "failover_spec (embeddings_attempt T resolved rq) resolved (eq_model rq) w
      (dispatch_embeddings_loop T resolved (eq_model rq) rq 0 (rm_routes resolved) w)"
    by (rule emb.loop_spec) (rule resolved_from_routes [OF mc(3)])
  then have "failover_spec (embeddings_attempt T resolved rq) resolved (eq_model rq) w (Ret (Inr up), evs, w')"
    using d mc(2) by (simp add: registry_embeddings_def dispatch_embeddings_def)
  then have "response_label up \<in> config_labels models"
  proof (rule routed_label [OF cs mc(1,3)])
    fix n rr w1 up0 w2
    assume c: "labelled_connector n (conn_chat (rr_connector rr)) (conn_embeddings (rr_connector rr))"
      and a: "embeddings_attempt T resolved rq rr w1 = (Some (Ret (Inr up0)), w2)"
    show "response_label up0 = (n, rr_model rr)"
      using labelled_connector.embeddings_result_label [OF c timeout_lawD [OF T a]] by simp
  qed
  with True show ?thesis by (simp add: model_labels_def)
next
  case False
  then obtain c where c: "fallback_connector reg (eq_model rq) = Some c" "conn_embeddings c rq w = (Ret (Inr up), w')"
    using d registry_unknown(1) [OF reg] by (auto simp: registry_embeddings_def split: option.splits prod.splits)
  from labelled_connector.embeddings_label [OF fallback_labelled [OF cs reg c(1)] c(2)] False show ?thesis
    by (simp add: model_labels_def fallback_label_def)
qed

text \<open>The connectors the runtime builds are labelled with their table entries.\<close>

lemma built_connectors_labelled: "build_connectors E cfg = Inr cs \<Longrightarrow> connectors_labelled cs"
  by (auto simp: build_connectors_def build_openai_def build_anthropic_def build_azure_def build_bedrock_def
      core_context_def Let_def openai_connector_impl_def anthropic_connector_impl_def azure_connector_impl_def
      bedrock_connector_impl_def connectors_labelled_def tget_def
      openai_lab.labelled_connector_axioms anthropic_lab.labelled_connector_axioms
      azure_lab.labelled_connector_axioms bedrock_lab.labelled_connector_axioms
      split: sum.splits if_splits)

section \<open>Metrics of a request\<close>

fun metric_ok :: "(string \<times> string) set \<Rightarrow> metric \<Rightarrow> bool" where
  "metric_ok L (RejectionsTotal reason) = (reason \<in> set reason_label_values)"
| "metric_ok L (RequestsTotal provider model status) = ((provider, model) \<in> L)"
| "metric_ok L (RequestDuration provider model cache d) = ((provider, model) \<in> L \<and> cache \<in> set cache_label_values)"
| "metric_ok L (CostCentsTotal provider model cents) = ((provider, model) \<in> L)"

definition metrics_ok :: "(string \<times> string) set \<Rightarrow> effects \<Rightarrow> bool" where
  "metrics_ok L fx = list_all (metric_ok L) (fx_metrics fx)"

lemma metric_ok_mono: "L \<subseteq> M \<Longrightarrow> metric_ok L m \<Longrightarrow> metric_ok M m"
  by (cases m) auto

lemma metrics_ok_append [simp]: "metrics_ok L (fx_append a b) \<longleftrightarrow> metrics_ok L a \<and> metrics_ok L b"
  by (simp add: metrics_ok_def)

lemma metrics_ok_none [simp]:
  "metrics_ok L no_effects" "metrics_ok L (fx\<lparr>fx_spans := sp\<rparr>) = metrics_ok L fx"
  "metrics_ok L (fx\<lparr>fx_audit := au\<rparr>) = metrics_ok L fx"
  by (simp_all add: metrics_ok_def)

lemma metrics_ok_rejection:
  "reason \<in> set reason_label_values \<Longrightarrow> metrics_ok L (rejection reason)"
  "reason \<in> set reason_label_values \<Longrightarrow> metrics_ok L (early_rejection reason n tc)"
  by (simp_all add: metrics_ok_def)

lemma record_completion_labels:
  "(provider, model) \<in> L \<Longrightarrow> cache \<in> set cache_label_values \<Longrightarrow>
     list_all (metric_ok L) (record_completion provider model status cache d cost)"
  by (simp add: record_completion_def split: option.split)

definition cached_label :: "cached_response \<Rightarrow> string \<times> string" where
  "cached_label v = (cr_provider v, cr_model v)"

definition cache_labels :: "('c \<Rightarrow> (string \<times> cached_response) set) \<Rightarrow> ('w, 'c) proxy_state \<Rightarrow> (string \<times> string) set" where
  "cache_labels held st = (\<lambda>(k, v). cached_label v) ` cache_holds held st"

lemma serve_from_cache_labels: "cached_label v \<in> L \<Longrightarrow> serve_from_cache E pr v tc = (r, fx) \<Longrightarrow> metrics_ok L fx"
  using record_completion_labels [of "cr_provider v" "cr_model v" L "''hit''" "cr_status v"]
  by (auto simp: serve_from_cache_def metrics_ok_def cached_label_def cache_label_values_def)

lemma completion_labels: "response_label up \<in> L \<Longrightarrow> metrics_ok L (completion_effects up us cost tc)"
  using record_completion_labels [of "rs_provider up" "rs_model up" L "''miss''" "rs_status up"]
  by (auto simp: completion_effects_def metrics_ok_def response_label_def cache_label_values_def)

lemma upstream_failure_labels: "upstream_failure err tc = (r, fx) \<Longrightarrow> metrics_ok L fx"
  by (auto simp: upstream_failure_def Let_def intro!: metrics_ok_rejection) (simp add: reason_label_values_def)

lemma cache_labels_simps [simp]:
  "cache_labels held (st\<lparr>ps_rate_limiter := rl\<rparr>) = cache_labels held st"
  "cache_labels held (charge st tc key cost) = cache_labels held st"
  by (simp_all add: cache_labels_def)

lemma store_and_reply_labels:
  assumes "moka_law (px_moka E) held" and "store_and_reply E st ck up = (r, st')"
  shows "cache_labels held st' \<subseteq> insert (response_label up) (cache_labels held st)"
proof (cases "collect_stream (rs_body up)")
  case (Inr bs)
  with assms(2) subsetD [OF moka_lawD(4) [OF assms(1)]] show ?thesis
    by (fastforce simp: store_and_reply_def cache_store_def cache_insert_def cache_labels_def cache_holds_def Let_def
        cached_label_def response_label_def split: option.splits)
qed (use assms(2) in \<open>auto simp: store_and_reply_def\<close>)

text \<open>The labels the dispatcher may put on a response for a model.\<close>

definition dispatcher_labels :: "'w dispatcher \<Rightarrow> string \<Rightarrow> (string \<times> string) set \<Rightarrow> bool" where
  "dispatcher_labels D vm L \<longleftrightarrow>
     (\<forall>rq w up evs w'. cq_model rq = vm \<longrightarrow> ds_chat D rq w = (Ret (Inr up), evs, w') \<longrightarrow> response_label up \<in> L) \<and>
     (\<forall>rq w up evs w'. eq_model rq = vm \<longrightarrow> ds_embeddings D rq w = (Ret (Inr up), evs, w') \<longrightarrow> response_label up \<in> L)"

lemma dispatcher_labelsD:
  assumes "dispatcher_labels D vm L"
  shows "ds_chat D \<lparr>cq_model = vm, cq_stream = s, cq_body = b\<rparr> w = (Ret (Inr up), evs, w') \<Longrightarrow> response_label up \<in> L"
    and "ds_embeddings D \<lparr>eq_model = vm, eq_body = b\<rparr> w = (Ret (Inr up), evs, w') \<Longrightarrow> response_label up \<in> L"
  using assms unfolding dispatcher_labels_def by (metis chat_request.select_convs(1), metis embeddings_request.select_convs(1))

lemma success_labels:
  assumes "moka_law (px_moka E) held" and "response_label up \<in> L" and "cache_labels held st \<subseteq> L"
  shows "chat_success E st tc key stream ck up = (r, st', fx) \<Longrightarrow> metrics_ok L fx \<and> cache_labels held st' \<subseteq> L"
    and "embeddings_success E st tc key ck up = (r, st', fx) \<Longrightarrow> metrics_ok L fx \<and> cache_labels held st' \<subseteq> L"
  using store_and_reply_labels [OF assms(1), where up = up and ck = ck] completion_labels [OF assms(2)] assms(2,3)
  by (fastforce simp: chat_success_def embeddings_success_def Let_def split: if_splits prod.splits)+

lemma chat_upstream_labels:
  assumes law: "moka_law (px_moka E) held" and D: "dispatcher_labels (rn_connector (ps_runtime st)) vm L"
    and sub: "cache_labels held st \<subseteq> L"
    and u: "chat_upstream E st tc key vm stream ck body w = (res, st', fx, w')"
  shows "metrics_ok L fx \<and> cache_labels held st' \<subseteq> L"
  using u sub success_labels(1) [OF law dispatcher_labelsD(1) [OF D] sub]
  by (fastforce simp: chat_upstream_def Let_def dest: upstream_failure_labels [where L = L]
      split: prod.splits exec.splits sum.splits)

lemma embeddings_upstream_labels:
  assumes law: "moka_law (px_moka E) held" and D: "dispatcher_labels (rn_connector (ps_runtime st)) vm L"
    and sub: "cache_labels held st \<subseteq> L"
    and u: "embeddings_upstream E st tc key vm ck body w = (res, st', fx, w')"
  shows "metrics_ok L fx \<and> cache_labels held st' \<subseteq> L"
  using u sub success_labels(2) [OF law dispatcher_labelsD(2) [OF D] sub]
  by (fastforce simp: embeddings_upstream_def Let_def dest: upstream_failure_labels [where L = L]
      split: prod.splits exec.splits sum.splits)

text \<open>One request, whatever its outcome.\<close>

lemma gates_labels: "request_gates E st tc key path vm body w = (Inl r, fx, w') \<Longrightarrow> metrics_ok L fx"
  by (auto simp: request_gates_def plugin_rejection_effects_def reason_label_values_def
      intro!: metrics_ok_rejection split: if_splits prod.splits sum.splits)

lemma authenticate_labels:
  "authenticate E st tc headers = (x, st', fx) \<Longrightarrow>
     metrics_ok L fx \<and> (\<exists>rl. st' = st\<lparr>ps_rate_limiter := rl\<rparr>)"
  by (auto simp: authenticate_def Let_def reason_label_values_def intro!: metrics_ok_rejection
      intro: exI [of _ "ps_rate_limiter st"] split: option.splits if_splits prod.splits)

lemma cache_lookup_labels:
  assumes "moka_law (px_moka E) held" and "cache_lookup E st ck = (x, st')"
  shows "cache_labels held st' \<subseteq> cache_labels held st"
    and "x = Some v \<Longrightarrow> cached_label v \<in> cache_labels held st"
  using cache_lookup_cache [OF assms] by (fastforce simp: cache_labels_def)+

lemma cached_or_upstream_labels:
  assumes law: "moka_law (px_moka E) held" and sub: "cache_labels held st \<subseteq> L"
    and D: "dispatcher_labels (rn_connector (ps_runtime st)) vm L" and fx0: "metrics_ok L fx0"
    and U: "\<And>s res st' fx w'. dispatcher_labels (rn_connector (ps_runtime s)) vm L \<Longrightarrow> cache_labels held s \<subseteq> L \<Longrightarrow>
      U s = (res, st', fx, w') \<Longrightarrow> metrics_ok L fx \<and> cache_labels held st' \<subseteq> L"
    and h: "(case cache_lookup E st ck of
        (Some cached, s) \<Rightarrow>
          (case serve_from_cache E (rn_pricing (ps_runtime s)) cached tc of
             (r, fx') \<Rightarrow> (Ret r, s, fx_append fx0 fx', w1))
      | (None, s) \<Rightarrow> (case U s of (r, s', fx', w2) \<Rightarrow> (r, s', fx_append fx0 fx', w2))) = (res, st', fx, w')"
  shows "metrics_ok L fx \<and> cache_labels held st' \<subseteq> L"
proof (cases "cache_lookup E st ck")
  case (Pair x s)
  note lk = cache_lookup_labels [OF law Pair] and keeps = cache_lookup_keeps [OF Pair]
  show ?thesis
  proof (cases x)
    case None
    with h Pair show ?thesis using U [of s] D keeps lk(1) sub fx0 by (auto split: prod.splits)
  next
    case (Some c)
    then have "cached_label c \<in> L" using lk(2) sub by blast
    with h Pair Some show ?thesis using serve_from_cache_labels [of c L] lk(1) sub fx0 by (auto split: prod.splits)
  qed
qed

lemma chat_completions_labels:
  assumes law: "moka_law (px_moka E) held" and sub: "cache_labels held st \<subseteq> L"
    and D: "dispatcher_labels (rn_connector (ps_runtime st)) vm L"
    and vm: "request_model E ChatCompletions body = Some vm"
    and h: "chat_completions E st tc key headers body w = (res, st', fx, w')"
  shows "metrics_ok L fx \<and> cache_labels held st' \<subseteq> L"
proof (cases "request_gates E st tc key ''/v1/chat/completions'' vm body w")
  case (fields x fx1 w1)
  show ?thesis
  proof (cases x)
    case (Inl r)
    with h fields vm sub gates_labels [of E st tc key _ vm body w r fx1 w1] show ?thesis
      by (auto simp: chat_completions_def request_model_def chat_model Let_def)
  next
    case (Inr body')
    with h fields vm show ?thesis
      unfolding chat_completions_def Let_def chat_model request_model_def
      by (intro cached_or_upstream_labels [OF law sub D _ chat_upstream_labels [OF law]]) auto
  qed
qed

lemma embeddings_labels:
  assumes law: "moka_law (px_moka E) held" and sub: "cache_labels held st \<subseteq> L"
    and D: "dispatcher_labels (rn_connector (ps_runtime st)) vm L"
    and vm: "request_model E Embeddings body = Some vm"
    and h: "embeddings E st tc key headers body w = (res, st', fx, w')"
  shows "metrics_ok L fx \<and> cache_labels held st' \<subseteq> L"
proof (cases "request_gates E st tc key ''/v1/embeddings'' vm body w")
  case (fields x fx1 w1)
  show ?thesis
  proof (cases x)
    case (Inl r)
    with h fields vm sub gates_labels [of E st tc key _ vm body w r fx1 w1] show ?thesis
      by (auto simp: embeddings_def request_model_def embeddings_model Let_def)
  next
    case (Inr body')
    with h fields vm show ?thesis
      unfolding embeddings_def Let_def embeddings_model request_model_def
      by (intro cached_or_upstream_labels [OF law sub D _ embeddings_upstream_labels [OF law]]) auto
  qed
qed

lemma proxy_handle_labels:
  assumes law: "moka_law (px_moka E) held" and sub: "cache_labels held st \<subseteq> L"
    and D: "\<And>vm. request_model E r body = Some vm \<Longrightarrow> dispatcher_labels (rn_connector (ps_runtime st)) vm L"
    and h: "proxy_handle E st tc r headers body w = (res, st', fx, w')"
  shows "metrics_ok L fx \<and> cache_labels held st' \<subseteq> L"
proof (cases "authenticate E st tc headers")
  case (fields x st1 fx1)
  from authenticate_labels [OF this, of L] obtain rl where a: "metrics_ok L fx1" "st1 = st\<lparr>ps_rate_limiter := rl\<rparr>" by blast
  have sub1: "cache_labels held st1 \<subseteq> L" using sub a(2) by simp
  have D1: "request_model E r body = Some vm \<Longrightarrow> dispatcher_labels (rn_connector (ps_runtime st1)) vm L" for vm
    using D a(2) by simp
  show ?thesis
  proof (cases x)
    case (Inl rep)
    with h fields a(1) sub1 show ?thesis by (auto simp: proxy_handle_def)
  next
    case (Inr key)
    with h fields have h1: "(case r of ChatCompletions \<Rightarrow> chat_completions E st1 tc key headers body w
         | Embeddings \<Rightarrow> embeddings E st1 tc key headers body w
         | ListModels \<Rightarrow> (Ret (proxy_list_models st1), st1, fx1, w)
         | Fallback \<Rightarrow> (Ret fallback_reply, st1, fx1, w)) = (res, st', fx, w')"
      by (simp add: proxy_handle_def)
    show ?thesis
    proof (cases r)
      case ChatCompletions
      then obtain vm where "request_model E ChatCompletions body = Some vm" by (simp add: request_model_def)
      with ChatCompletions h1 D1 show ?thesis by (intro chat_completions_labels [OF law sub1]) auto
    next
      case Embeddings
      then obtain vm where "request_model E Embeddings body = Some vm" by (simp add: request_model_def)
      with Embeddings h1 D1 show ?thesis by (intro embeddings_labels [OF law sub1]) auto
    qed (use h1 a(1) sub1 in auto)
  qed
qed

section \<open>Metrics of a run\<close>

record proxy_request =
  sq_clocks :: clocks
  sq_route :: proxy_route
  sq_headers :: header_map
  sq_body :: bytes

fun serve_requests ::
  "'c proxy_env \<Rightarrow> ('w, 'c) proxy_state \<Rightarrow> proxy_request list \<Rightarrow> 'w \<Rightarrow> ('w, 'c) proxy_state \<times> metric list \<times> 'w" where
  "serve_requests E st [] w = (st, [], w)"
| "serve_requests E st (q # qs) w =
     (case proxy_handle E st (sq_clocks q) (sq_route q) (sq_headers q) (sq_body q) w of
        (res, st1, fx, w1) \<Rightarrow>
          (case serve_requests E st1 qs w1 of (st', ms, w') \<Rightarrow> (st', fx_metrics fx @ ms, w')))"

lemma proxy_handle_connector:
  assumes "proxy_handle E st tc r headers body w = (res, st', fx, w')"
  shows "rn_connector (ps_runtime st') = rn_connector (ps_runtime st)"
proof (cases "identify E (ps_keys st) headers")
  case None
  with assms show ?thesis by (auto simp: proxy_handle_def authenticate_def)
next
  case (Some key)
  have "ps_runtime st' = (ps_runtime st)\<lparr>rn_cache := rn_cache (ps_runtime st')\<rparr>"
    using handler_frame [OF assms Some] by (simp add: tenant_frame_def)
  then show ?thesis by (metis runtime.select_convs(1) runtime.surjective runtime.update_convs(3))
qed

text \<open>The labels a run may use: the configured routes, and the fallback labels of other models asked for.\<close>

definition run_labels :: "'c proxy_env \<Rightarrow> model_config list \<Rightarrow> proxy_request list \<Rightarrow> (string \<times> string) set" where
  "run_labels E models qs = config_labels models \<union>
     {fallback_label vm | vm. vm \<notin> mc_name ` set models \<and>
        (\<exists>q \<in> set qs. request_model E (sq_route q) (sq_body q) = Some vm)}"

lemma dispatcher_labels_mono: "dispatcher_labels D vm L \<Longrightarrow> L \<subseteq> M \<Longrightarrow> dispatcher_labels D vm M"
  unfolding dispatcher_labels_def by blast

lemma registry_dispatcher_labels:
  assumes "timeout_law T" "connectors_labelled cs" "registry_new cs models = Inr reg"
  shows "dispatcher_labels (registry_dispatcher T reg) vm (model_labels models vm)"
  using registry_chat_label [OF assms] registry_embeddings_label [OF assms]
  by (auto simp: dispatcher_labels_def registry_dispatcher_def)

lemma model_labels_run:
  "q \<in> set qs \<Longrightarrow> request_model E (sq_route q) (sq_body q) = Some vm \<Longrightarrow> model_labels models vm \<subseteq> run_labels E models qs"
  by (auto simp: model_labels_def run_labels_def)

lemma serve_requests_labels:
  assumes law: "moka_law (px_moka E) held"
  shows "cache_labels held st \<subseteq> L \<Longrightarrow>
    (\<And>q vm. q \<in> set qs \<Longrightarrow> request_model E (sq_route q) (sq_body q) = Some vm \<Longrightarrow>
       dispatcher_labels (rn_connector (ps_runtime st)) vm L) \<Longrightarrow>
    list_all (metric_ok L) (fst (snd (serve_requests E st qs w)))"
proof (induction qs arbitrary: st w)
  case (Cons q qs)
  obtain res st1 fx w1 where h: "proxy_handle E st (sq_clocks q) (sq_route q) (sq_headers q) (sq_body q) w = (res, st1, fx, w1)"
    by (metis prod_cases4)
  have one: "metrics_ok L fx \<and> cache_labels held st1 \<subseteq> L"
    by (rule proxy_handle_labels [OF law Cons.prems(1) _ h]) (rule Cons.prems(2); simp)
  have "list_all (metric_ok L) (fst (snd (serve_requests E st1 qs w1)))"
    using one Cons.prems(2) by (intro Cons.IH) (auto simp: proxy_handle_connector [OF h])
  with one h show ?case by (cases "serve_requests E st1 qs w1") (simp add: metrics_ok_def)
qed simp

lemma build_runtime_parts:
  "build_runtime B cfg = (Inr rt, evs) \<Longrightarrow>
     \<exists>cs reg. build_connectors B cfg = Inr cs \<and> registry_new cs (cfg_models cfg) = Inr reg \<and>
       rn_connector rt = registry_dispatcher (be_timeout B) reg \<and>
       (rn_cache rt = None \<or> (\<exists>n t. rn_cache rt = Some (cache_new (be_moka B) n t)))"
  by (auto simp: build_runtime_def core_context_def split: sum.splits prod.splits if_splits) blast

text \<open>
  C29. Metrics carry bounded, typed labels: from a runtime built from a configuration, whatever sequence of
  requests is served, every metric has a rejection reason or cache tag of the fixed lists, and its
  provider and model are those of a configured route, or, for a requested model that is not
  configured, the prefix rule's provider and that model's name. No tenant data is ever a label.
\<close>

theorem metric_labels_bounded:
  assumes "build_runtime B cfg = (Inr (ps_runtime st), evs)" and "timeout_law (be_timeout B)"
    and "moka_law (be_moka B) held" and "px_moka E = be_moka B"
  shows "\<forall>m \<in> set (fst (snd (serve_requests E st qs w))). metric_ok (run_labels E (cfg_models cfg) qs) m"
proof -
  obtain cs reg where r: "build_connectors B cfg = Inr cs" "registry_new cs (cfg_models cfg) = Inr reg"
    "rn_connector (ps_runtime st) = registry_dispatcher (be_timeout B) reg"
    "rn_cache (ps_runtime st) = None \<or> (\<exists>n t. rn_cache (ps_runtime st) = Some (cache_new (be_moka B) n t))"
    using build_runtime_parts [OF assms(1)] by blast
  have "cache_labels held st = {}"
    using r(4) moka_lawD(1) [OF assms(3)] by (auto simp: cache_labels_def cache_holds_def cache_new_def)
  then have "list_all (metric_ok (run_labels E (cfg_models cfg) qs)) (fst (snd (serve_requests E st qs w)))"
    using assms(3,4) r(3) registry_dispatcher_labels [OF assms(2) built_connectors_labelled [OF r(1)] r(2)]
    by (intro serve_requests_labels [where held = held]) (auto intro!: dispatcher_labels_mono [OF _ model_labels_run])
  then show ?thesis by (simp add: list_all_iff)
qed

definition example_request :: proxy_request where
  "example_request = \<lparr>sq_clocks = example_clocks, sq_route = ChatCompletions, sq_headers = [], sq_body = ''{}''\<rparr>"

theorem metric_labels_bounded_witness:
  "\<exists>rt evs. build_runtime example_build config_default = (Inr rt, evs) \<and>
     (\<forall>m \<in> set (fst (snd (serve_requests example_env (example_state\<lparr>ps_runtime := rt\<rparr>) [example_request, example_request] 0))).
        metric_ok (run_labels example_env [] [example_request, example_request]) m)"
proof -
  obtain cs where "build_connectors example_build config_default = Inr cs" using example_build_connectors by blast
  moreover have d: "cfg_models config_default = []" "cfg_plugins config_default = []" by (simp_all add: config_default_def)
  ultimately obtain rt evs where b: "build_runtime example_build config_default = (Inr rt, evs)"
    by (simp add: build_runtime_def registry_new_def core_context_def)
  have "timeout_law (be_timeout example_build)" "px_moka example_env = be_moka example_build"
    "moka_law (be_moka example_build) set"
    by (auto simp: timeout_law_def example_build_def no_timeout_def example_env_def example_moka_law split: prod.splits)
  with metric_labels_bounded [of example_build config_default "example_state\<lparr>ps_runtime := rt\<rparr>" evs set example_env
      "[example_request, example_request]" 0] b d show ?thesis by auto
qed

lemma build_runtime_bare:
  "build_runtime B cfg = (Inr rt, evs) \<Longrightarrow> cfg_plugins cfg = [] \<Longrightarrow> \<not> cc_enabled (cfg_cache cfg) \<Longrightarrow>
     rn_plugins rt = [] \<and> rn_cache rt = None"
  by (auto simp: build_runtime_def split: sum.splits)

lemma openai_chat_answers:
  assumes "fst (http_post H (openai_post J c ''/v1/chat/completions'' (cq_body rq) (cq_model rq)) w) = Inr response"
    and "collect_stream (hr_body response) = Inr bs"
  shows "\<exists>up w'. openai_chat J H c rq w = (Ret (Inr up), w') \<and> rs_provider up = ''openai'' \<and>
     rs_model up = cq_model rq \<and> rs_status up = hr_status response"
  using assms by (auto simp: openai_chat_def Let_def split: prod.splits)

lemma fallback_answers:
  assumes "build_runtime B cfg = (Inr rt, evs)" and "vm \<notin> mc_name ` set (cfg_models cfg)" and "\<not> starts_with ''claude'' vm"
    and "\<And>q w. fst (http_post (be_http B) q w) = Inr response" and "collect_stream (hr_body response) = Inr bs"
  shows "\<exists>up evs w'. ds_chat (rn_connector rt) \<lparr>cq_model = vm, cq_stream = s, cq_body = b\<rparr> w = (Ret (Inr up), evs, w') \<and>
     rs_provider up = ''openai'' \<and> rs_model up = vm \<and> rs_status up = hr_status response"
proof -
  obtain cs reg where r: "build_connectors B cfg = Inr cs" "registry_new cs (cfg_models cfg) = Inr reg"
    "rn_connector rt = registry_dispatcher (be_timeout B) reg" using build_runtime_parts [OF assms(1)] by blast
  obtain c where "tget cs ''openai'' = Some (openai_connector_impl (be_json B) (be_http B) c)"
    using r(1) by (auto simp: build_connectors_def build_openai_def core_context_def Let_def tget_def split: sum.splits)
  with assms(2,3) registry_unknown [OF r(2)] r(3)
    openai_chat_answers [OF assms(4,5), of "be_json B" c "\<lparr>cq_model = vm, cq_stream = s, cq_body = b\<rparr>" w]
  show ?thesis
    by (auto simp: registry_dispatcher_def registry_chat_def fallback_connector_def openai_connector_impl_def)
qed

text \<open>
  An unconfigured model name becomes a label: on a gateway with no keys, plugins or cache whose upstream
  answers at all, a chat request for any unconfigured model that the \<open>claude\<close> prefix does not claim is
  counted under the very name the client sent, so clients choose the label values.
\<close>

theorem unconfigured_model_is_label:
  assumes "build_runtime B cfg = (Inr (ps_runtime st), evs)"
    and "cfg_plugins cfg = []" and "\<not> cc_enabled (cfg_cache cfg)" and "keystore_is_empty (ps_keys st)"
    and "\<And>q w. fst (http_post (be_http B) q w) = Inr response" and "collect_stream (hr_body response) = Inr reply_bytes"
    and "request_model E ChatCompletions body = Some vm"
    and "vm \<notin> mc_name ` set (cfg_models cfg)" and "\<not> starts_with ''claude'' vm"
    and "proxy_handle E st tc ChatCompletions headers body w = (res, st', fx, w')"
  shows "RequestsTotal ''openai'' vm (hr_status response) \<in> set (fx_metrics fx)"
proof -
  have id: "authenticate E st tc headers = (Inr anonymous, st, no_effects)"
    using assms(4) by (simp add: authenticate_def identify_def is_expired_def anonymous_def)
  have rt: "rn_plugins (ps_runtime st) = []" "rn_cache (ps_runtime st) = None"
    using build_runtime_bare [OF assms(1-3)] by simp_all
  have gates: "request_gates E st tc anonymous path vm body w = (Inr body, no_effects, w)" for path
    by (simp add: request_gates_def allows_model_def over_budget_def rt) (simp add: anonymous_def)
  have look: "cache_lookup E st ck = (None, st)" for ck by (simp add: cache_lookup_def rt)
  define stream where "stream = meta_stream (unwrap_or (px_chat_meta E body) \<lparr>meta_model = None, meta_stream = False\<rparr>)"
  obtain up evs' w1 where up: "ds_chat (rn_connector (ps_runtime st)) \<lparr>cq_model = vm, cq_stream = stream, cq_body = body\<rparr> w =
      (Ret (Inr up), evs', w1)" "rs_provider up = ''openai''" "rs_model up = vm" "rs_status up = hr_status response"
    using fallback_answers [OF assms(1,8,9,5,6)] by blast
  have vm: "unwrap_or (meta_model (unwrap_or (px_chat_meta E body) \<lparr>meta_model = None, meta_stream = False\<rparr>)) [] = vm"
    using assms(7) by (simp add: request_model_def chat_model)
  have "RequestsTotal ''openai'' vm (hr_status response) \<in> set (fx_metrics (snd (snd (chat_success E st tc anonymous stream ck up))))" for ck
    using up by (simp add: chat_success_def Let_def rt completion_effects_def record_completion_def)
  then show ?thesis using assms(10) id
    by (auto simp: proxy_handle_def chat_completions_def Let_def vm gates look chat_upstream_def up(1)
        stream_def [symmetric] split: prod.splits) (metis snd_conv)+
qed

definition example_not_found :: http_response where
  "example_not_found = \<lparr>hr_status = 404, hr_content_type = None, hr_body = []\<rparr>"

definition example_answering :: "(nat, (string \<times> cached_response) list, unit, unit) build_env" where
  "example_answering = example_build\<lparr>be_http :=
     \<lparr>http_get_ok = (\<lambda>_ _ _. True), http_post = (\<lambda>_ w. (Inr example_not_found, Suc w))\<rparr>\<rparr>"

definition example_uncached :: config where
  "example_uncached = config_default\<lparr>cfg_cache := cache_config_default\<lparr>cc_enabled := False\<rparr>\<rparr>"

theorem unconfigured_model_is_label_witness:
  "\<exists>rt evs res st' fx w'. build_runtime example_answering example_uncached = (Inr rt, evs) \<and>
     proxy_handle example_env \<lparr>ps_runtime = rt, ps_keys = keystore_new [], ps_rate_limiter = [], ps_spend_tracker = []\<rparr>
       example_clocks ChatCompletions [] ''{}'' 0 = (res, st', fx, w') \<and>
     RequestsTotal ''openai'' ''m'' 404 \<in> set (fx_metrics fx)"
proof -
  have d: "cfg_models example_uncached = []" "cfg_plugins example_uncached = []" "\<not> cc_enabled (cfg_cache example_uncached)"
    by (simp_all add: example_uncached_def config_default_def)
  have "\<exists>cs. build_connectors example_answering example_uncached = Inr cs"
    by (simp add: build_connectors_def build_openai_def build_anthropic_def build_azure_def build_bedrock_def
        openai_new_def anthropic_new_def azure_new_def bedrock_new_def bedrock_build_def build_client_def core_context_def
        example_build_def example_answering_def Let_def)
  then obtain rt evs where b: "build_runtime example_answering example_uncached = (Inr rt, evs)"
    using d by (auto simp: build_runtime_def registry_new_def core_context_def)
  define st where "st = \<lparr>ps_runtime = rt, ps_keys = keystore_new [], ps_rate_limiter = [], ps_spend_tracker = []\<rparr>"
  obtain res st' fx w' where h: "proxy_handle example_env st example_clocks ChatCompletions [] ''{}'' 0 = (res, st', fx, w')"
    by (metis prod_cases4)
  have "RequestsTotal ''openai'' ''m'' (hr_status example_not_found) \<in> set (fx_metrics fx)"
  proof (rule unconfigured_model_is_label [OF _ d(2,3) _ _ _ _ _ _ h])
    show "build_runtime example_answering example_uncached = (Inr (ps_runtime st), evs)" using b by (simp add: st_def)
    show "keystore_is_empty (ps_keys st)" by (simp add: st_def keystore_is_empty_def keystore_new_def tcollect_def)
    show "fst (http_post (be_http example_answering) q w) = Inr example_not_found" for q w
      by (simp add: example_answering_def)
    show "collect_stream (hr_body example_not_found) = Inr []" by (simp add: example_not_found_def)
    show "request_model example_env ChatCompletions ''{}'' = Some ''m''" by (simp add: request_model_def example_env_def)
    show "''m'' \<notin> mc_name ` set (cfg_models example_uncached)" by (simp add: d(1))
    show "\<not> starts_with ''claude'' ''m''" by (simp add: starts_with_def)
  qed
  then show ?thesis using b h by (auto simp: example_not_found_def st_def)
qed

end
