(* ===== verification/Wire.thy ===== *)
theory Wire
  imports Admin "HOL-Library.Monad_Syntax"
begin

text \<open>
  The admin API on the wire: the derived JSON codecs of its structs on both sides, and the HTTP face
  of the router of \<open>admin.rs\<close> (route matching, the token layer, the extractors, the rendering of
  replies). A derived serializer is the value it writes; text is the codec's concern.
\<close>

section \<open>Derived serializers\<close>

text \<open>\<open>skip_serializing_if = "Option::is_none"\<close> leaves the field out.\<close>

definition opt_field :: "string \<Rightarrow> ('a \<Rightarrow> json) \<Rightarrow> 'a option \<Rightarrow> (string \<times> json) list" where
  "opt_field k f x = (case x of None \<Rightarrow> [] | Some v \<Rightarrow> [(k, f v)])"

text \<open>A float that is not finite is written as \<open>null\<close>.\<close>

definition f64_json :: "f64 \<Rightarrow> json" where
  "f64_json x = (if f64_is_finite x then JNumber (Float x) else JNull)"

fun period_json :: "period \<Rightarrow> json" where
  "period_json Day = JString ''day''"
| "period_json Week = JString ''week''"
| "period_json Month = JString ''month''"

definition spend_limit_json :: "spend_limit \<Rightarrow> json" where
  "spend_limit_json l = json_object [(''amount_usd'', f64_json (amount_usd l)), (''period'', period_json (sl_period l))]"

definition strings_json :: "string list \<Rightarrow> json" where
  "strings_json ss = JArray (map JString ss)"

definition key_summary_json :: "key_summary \<Rightarrow> json" where
  "key_summary_json k = json_object (
     [(''id'', JString (sum_id k)), (''team'', JString (sum_team k)), (''app'', JString (sum_app k)),
      (''env'', JString (sum_env k)), (''models'', strings_json (sum_models k))] @
     opt_field ''rate_limit_rps'' (\<lambda>n. json_nat (unat n)) (sum_rate_limit_rps k) @
     opt_field ''spend_limit'' spend_limit_json (sum_spend_limit k) @
     opt_field ''expires_at'' JString (sum_expires_at k))"

definition created_json :: "string \<Rightarrow> key_summary \<Rightarrow> json" where
  "created_json token k = json_object [(''token'', JString token), (''key'', key_summary_json k)]"

definition list_keys_json :: "key_summary list \<Rightarrow> json" where
  "list_keys_json ks = json_object [(''data'', JArray (map key_summary_json ks))]"

definition model_summary_json :: "registered_model \<Rightarrow> json" where
  "model_summary_json m = json_object [(''id'', JString (rgm_id m)), (''provider'', JString (rgm_provider m))]"

definition list_models_json :: "registered_model list \<Rightarrow> json" where
  "list_models_json ms = json_object [(''data'', JArray (map model_summary_json ms))]"

definition spend_snapshot_json :: "f64 \<times> period \<Rightarrow> json" where
  "spend_snapshot_json s = json_object [(''usd'', f64_json (fst s)), (''period'', period_json (snd s))]"

definition spend_budget_json :: "spend_budget \<Rightarrow> json" where
  "spend_budget_json b =
     json_object [(''usd'', f64_json (sb_usd b)), (''period'', period_json (sb_period b)),
       (''remaining_usd'', f64_json (sb_remaining_usd b))]"

definition key_spend_json :: "key_spend_response \<Rightarrow> json" where
  "key_spend_json r = json_object (
     [(''key_id'', JString (kr_key_id r)), (''team'', JString (kr_team r)), (''app'', JString (kr_app r)),
      (''env'', JString (kr_env r))] @
     opt_field ''spend'' spend_snapshot_json (kr_spend r) @
     opt_field ''limit'' spend_budget_json (kr_limit r))"

definition reload_json :: "string \<Rightarrow> json" where
  "reload_json path = json_object [(''status'', JString ''reloaded''), (''config_path'', JString path)]"

fun link_state_json :: "link_state \<Rightarrow> json" where
  "link_state_json LinkFile = JString ''file''"
| "link_state_json LinkPending = JString ''pending''"
| "link_state_json LinkSynced = JString ''synced''"
| "link_state_json LinkDegraded = JString ''degraded''"

definition identity_json :: "identity \<Rightarrow> json" where
  "identity_json i = json_object
     [(''gateway_id'', JString (id_gateway_id i)), (''org_id'', JString (id_org_id i)),
      (''group'', (case id_group i of Some g \<Rightarrow> JString g | None \<Rightarrow> JNull)),
      (''environment'', JString (id_environment i))]"

definition last_error_json :: "last_error \<Rightarrow> json" where
  "last_error_json e =
     json_object [(''resource'', JString (resource_as_str (le_resource e))), (''reason'', JString (reason_as_str (le_reason e))),
       (''detail'', JString (le_detail e)), (''seconds_ago'', json_nat (le_seconds_ago e))]"

definition snapshot_json :: "snapshot \<Rightarrow> json" where
  "snapshot_json s = json_object (
     [(''state'', link_state_json (sn_state s))] @
     opt_field ''endpoint'' JString (sn_endpoint s) @
     opt_field ''config_version'' JString (sn_config_version s) @
     opt_field ''keys_version'' JString (sn_keys_version s) @
     opt_field ''identity'' identity_json (sn_identity s) @
     opt_field ''last_success_seconds_ago'' json_nat (sn_last_success_seconds_ago s) @
     [(''consecutive_failures'', json_nat (unat (sn_consecutive_failures s)))] @
     opt_field ''last_error'' last_error_json (sn_last_error s))"

definition status_json :: "status_body \<Rightarrow> json" where
  "status_json b = json_object
     [(''version'', JString (stb_version b)), (''uptime_seconds'', json_nat (stb_uptime_seconds b)),
      (''ready'', JBool (stb_ready b)), (''proxy_address'', JString (stb_proxy_address b)),
      (''admin_address'', JString (stb_admin_address b)), (''key_count'', json_nat (stb_key_count b)),
      (''control_plane'', snapshot_json (stb_control_plane b))]"

text \<open>The tool's request body.\<close>

definition create_request_json :: "create_key_request \<Rightarrow> json" where
  "create_request_json rq = json_object (
     [(''team'', JString (ck_team rq)), (''app'', JString (ck_app rq)), (''env'', JString (ck_env rq)),
      (''models'', strings_json (ck_models rq))] @
     opt_field ''rate_limit_rps'' (\<lambda>n. json_nat (unat n)) (ck_rate_limit_rps rq) @
     opt_field ''spend_limit'' spend_limit_json (ck_spend_limit rq) @
     opt_field ''expires_at'' JString (ck_expires_at rq))"

section \<open>Derived deserializers\<close>

text \<open>
  A derived struct reads an object by field name, ignoring unknown fields, or an array by position.
  A missing field takes its default, when it has one.
\<close>

definition struct_fields :: "string list \<Rightarrow> json \<Rightarrow> (string \<Rightarrow> json option) option" where
  "struct_fields names v =
     (case v of
        JObject m \<Rightarrow> Some (map_of m)
      | JArray xs \<Rightarrow> if length xs \<le> length names then Some (map_of (zip names xs)) else None
      | _ \<Rightarrow> None)"

definition field :: "(json \<Rightarrow> 'a option) \<Rightarrow> string \<Rightarrow> (string \<Rightarrow> json option) \<Rightarrow> 'a option" where
  "field de k m = Option.bind (m k) de"

definition field_or :: "'a \<Rightarrow> (json \<Rightarrow> 'a option) \<Rightarrow> string \<Rightarrow> (string \<Rightarrow> json option) \<Rightarrow> 'a option" where
  "field_or d de k m = (case m k of None \<Rightarrow> Some d | Some v \<Rightarrow> de v)"

fun de_f64 :: "json \<Rightarrow> f64 option" where
  "de_f64 (JNumber (Float x)) = Some x"
| "de_f64 (JNumber (PosInt n)) = Some (f64_of_nat n)"
| "de_f64 (JNumber (NegInt i)) = Some (f64_of_rat (of_int i))"
| "de_f64 _ = None"

fun de_u32 :: "json \<Rightarrow> u32 option" where
  "de_u32 (JNumber (PosInt n)) = (if n < 2 ^ 32 then Some (of_nat n) else None)"
| "de_u32 _ = None"

definition de_option :: "(json \<Rightarrow> 'a option) \<Rightarrow> json \<Rightarrow> 'a option option" where
  "de_option de v = (if v = JNull then Some None else map_option Some (de v))"

fun de_all :: "(json \<Rightarrow> 'a option) \<Rightarrow> json list \<Rightarrow> 'a list option" where
  "de_all de [] = Some []"
| "de_all de (v # vs) = do { x \<leftarrow> de v; xs \<leftarrow> de_all de vs; Some (x # xs) }"

definition de_vec :: "(json \<Rightarrow> 'a option) \<Rightarrow> json \<Rightarrow> 'a list option" where
  "de_vec de v = Option.bind (json_as_array v) (de_all de)"

definition de_period :: "json \<Rightarrow> period option" where
  "de_period v = Option.bind (json_as_str v) (\<lambda>s.
     if s = ''day'' then Some Day else if s = ''week'' then Some Week else if s = ''month'' then Some Month else None)"

definition de_spend_limit :: "json \<Rightarrow> spend_limit option" where
  "de_spend_limit v = do {
     m \<leftarrow> struct_fields [''amount_usd'', ''period''] v;
     a \<leftarrow> field de_f64 ''amount_usd'' m;
     p \<leftarrow> field de_period ''period'' m;
     Some \<lparr>amount_usd = a, sl_period = p\<rparr> }"

definition de_create_request :: "json \<Rightarrow> create_key_request option" where
  "de_create_request v = do {
     m \<leftarrow> struct_fields [''team'', ''app'', ''env'', ''models'', ''rate_limit_rps'', ''spend_limit'', ''expires_at''] v;
     team \<leftarrow> field_or [] json_as_str ''team'' m;
     app \<leftarrow> field_or [] json_as_str ''app'' m;
     env \<leftarrow> field_or [] json_as_str ''env'' m;
     models \<leftarrow> field_or [] (de_vec json_as_str) ''models'' m;
     rps \<leftarrow> field_or None (de_option de_u32) ''rate_limit_rps'' m;
     limit \<leftarrow> field_or None (de_option de_spend_limit) ''spend_limit'' m;
     expires \<leftarrow> field_or None (de_option json_as_str) ''expires_at'' m;
     Some \<lparr>ck_team = team, ck_app = app, ck_env = env, ck_models = models, ck_rate_limit_rps = rps,
       ck_spend_limit = limit, ck_expires_at = expires\<rparr> }"

definition de_key_summary :: "json \<Rightarrow> key_summary option" where
  "de_key_summary v = do {
     m \<leftarrow> struct_fields [''id'', ''team'', ''app'', ''env'', ''models'', ''rate_limit_rps'', ''spend_limit'', ''expires_at''] v;
     kid \<leftarrow> field json_as_str ''id'' m;
     team \<leftarrow> field_or [] json_as_str ''team'' m;
     app \<leftarrow> field_or [] json_as_str ''app'' m;
     env \<leftarrow> field_or [] json_as_str ''env'' m;
     models \<leftarrow> field_or [] (de_vec json_as_str) ''models'' m;
     rps \<leftarrow> field_or None (de_option de_u32) ''rate_limit_rps'' m;
     limit \<leftarrow> field_or None (de_option de_spend_limit) ''spend_limit'' m;
     expires \<leftarrow> field_or None (de_option json_as_str) ''expires_at'' m;
     Some \<lparr>sum_id = kid, sum_team = team, sum_app = app, sum_env = env, sum_models = models,
       sum_rate_limit_rps = rps, sum_spend_limit = limit, sum_expires_at = expires\<rparr> }"

definition de_created :: "json \<Rightarrow> (string \<times> key_summary) option" where
  "de_created v = do {
     m \<leftarrow> struct_fields [''token'', ''key''] v;
     token \<leftarrow> field json_as_str ''token'' m;
     k \<leftarrow> field de_key_summary ''key'' m;
     Some (token, k) }"

definition de_keys :: "json \<Rightarrow> key_summary list option" where
  "de_keys v = do { m \<leftarrow> struct_fields [''data''] v; field (de_vec de_key_summary) ''data'' m }"

definition de_model_summary :: "json \<Rightarrow> registered_model option" where
  "de_model_summary v = do {
     m \<leftarrow> struct_fields [''id'', ''provider''] v;
     i \<leftarrow> field json_as_str ''id'' m;
     p \<leftarrow> field_or [] json_as_str ''provider'' m;
     Some \<lparr>rgm_id = i, rgm_provider = p\<rparr> }"

definition de_models :: "json \<Rightarrow> registered_model list option" where
  "de_models v = do { m \<leftarrow> struct_fields [''data''] v; field (de_vec de_model_summary) ''data'' m }"

section \<open>Round trips\<close>

named_theorems codec_simps \<open>evaluation of the derived codecs\<close>

lemma struct_fields_object [codec_simps]: "struct_fields names (json_object kvs) = Some (map_of (rev kvs))"
proof -
  have "map_of (fold (\<lambda>(k, v). obj_insert k v) kvs []) k = map_of (rev kvs) k" for k
    by (simp add: map_of_fold_obj_insert split: option.split)
  then show ?thesis by (auto simp: struct_fields_def json_object_def)
qed

lemma de_all_map: "(\<And>x. x \<in> set xs \<Longrightarrow> de (f x) = Some x) \<Longrightarrow> de_all de (map f xs) = Some xs"
  by (induction xs) simp_all

lemma de_vec_map: "(\<And>x. x \<in> set xs \<Longrightarrow> de (f x) = Some x) \<Longrightarrow> de_vec de (JArray (map f xs)) = Some xs"
  by (simp add: de_vec_def de_all_map)

lemma de_strings [codec_simps]: "de_vec json_as_str (strings_json ss) = Some ss"
  by (simp add: strings_json_def de_vec_map)

lemma de_u32_json [codec_simps]: "de_u32 (json_nat (unat n)) = Some n"
proof -
  have "unat n < 2 ^ 32" using unsigned_less [of n] by simp
  then show ?thesis by (simp add: json_nat_def)
qed

lemma de_period_json [codec_simps]: "de_period (period_json p) = Some p"
  by (cases p) (simp_all add: de_period_def)

definition limit_finite :: "spend_limit option \<Rightarrow> bool" where
  "limit_finite l = (case l of None \<Rightarrow> True | Some x \<Rightarrow> f64_is_finite (amount_usd x))"

lemma de_spend_limit_json [codec_simps]: "f64_is_finite (amount_usd l) \<Longrightarrow> de_spend_limit (spend_limit_json l) = Some l"
  by (simp add: de_spend_limit_def spend_limit_json_def codec_simps field_def f64_json_def)

lemma not_null [simp]: "json_object kvs \<noteq> JNull" "json_nat n \<noteq> JNull" "spend_limit_json l \<noteq> JNull"
  by (simp_all add: json_object_def json_nat_def spend_limit_json_def)

lemma de_option_present [codec_simps]: "v \<noteq> JNull \<Longrightarrow> de_option de v = map_option Some (de v)"
  by (simp add: de_option_def)

lemma create_request_roundtrip:
  assumes "limit_finite (ck_spend_limit rq)"
  shows "de_create_request (create_request_json rq) = Some rq"
  using assms
  by (cases rq; cases "ck_rate_limit_rps rq"; cases "ck_spend_limit rq"; cases "ck_expires_at rq")
    (simp_all add: de_create_request_def create_request_json_def codec_simps field_or_def opt_field_def limit_finite_def)

lemma key_summary_roundtrip:
  assumes "limit_finite (sum_spend_limit k)"
  shows "de_key_summary (key_summary_json k) = Some k"
  using assms
  by (cases k; cases "sum_rate_limit_rps k"; cases "sum_spend_limit k"; cases "sum_expires_at k")
    (simp_all add: de_key_summary_def key_summary_json_def codec_simps field_or_def field_def opt_field_def limit_finite_def)

lemma created_roundtrip: "limit_finite (sum_spend_limit k) \<Longrightarrow> de_created (created_json token k) = Some (token, k)"
  by (simp add: de_created_def created_json_def codec_simps field_def key_summary_roundtrip)

lemma keys_roundtrip:
  "(\<And>k. k \<in> set ks \<Longrightarrow> limit_finite (sum_spend_limit k)) \<Longrightarrow> de_keys (list_keys_json ks) = Some ks"
  by (simp add: de_keys_def list_keys_json_def codec_simps field_def de_vec_map key_summary_roundtrip)

lemma models_roundtrip: "de_models (list_models_json ms) = Some ms"
proof -
  have "de_model_summary (model_summary_json m) = Some m" for m
    by (cases m) (simp add: de_model_summary_def model_summary_json_def codec_simps field_def field_or_def)
  then show ?thesis by (simp add: de_models_def list_models_json_def codec_simps field_def de_vec_map)
qed

text \<open>A limit that is not finite does not survive the wire: it is written as \<open>null\<close>, which is no number.\<close>

lemma create_request_not_finite:
  assumes "\<not> limit_finite (ck_spend_limit rq)"
  shows "de_create_request (create_request_json rq) = None"
  using assms
  by (cases "ck_rate_limit_rps rq"; cases "ck_spend_limit rq"; cases "ck_expires_at rq")
    (simp_all add: de_create_request_def create_request_json_def codec_simps field_or_def field_def opt_field_def limit_finite_def
      de_spend_limit_def f64_json_def spend_limit_json_def)

section \<open>The router\<close>

text \<open>
  The endpoints with their captured path segments. \<open>{id}\<close> matches one non-empty segment; the
  extractor percent-decodes it.
\<close>

datatype admin_endpoint =
    EpHealthz | EpReadyz | EpStatus | EpMetrics | EpListKeys | EpCreateKey
  | EpDeleteKey string | EpKeySpend string | EpListModels | EpReload

fun split_segment :: "string \<Rightarrow> string \<times> string" where
  "split_segment [] = ([], [])"
| "split_segment (c # s) = (if c = CHR ''/'' then ([], c # s) else (case split_segment s of (a, b) \<Rightarrow> (c # a, b)))"

definition admin_route :: "string \<Rightarrow> string \<Rightarrow> admin_endpoint option" where
  "admin_route verb path =
     (if verb = ''GET'' \<and> path = ''/admin/healthz'' then Some EpHealthz
      else if verb = ''GET'' \<and> path = ''/admin/readyz'' then Some EpReadyz
      else if verb = ''GET'' \<and> path = ''/admin/status'' then Some EpStatus
      else if verb = ''GET'' \<and> path = ''/admin/metrics'' then Some EpMetrics
      else if verb = ''GET'' \<and> path = ''/admin/keys'' then Some EpListKeys
      else if verb = ''POST'' \<and> path = ''/admin/keys'' then Some EpCreateKey
      else if verb = ''GET'' \<and> path = ''/admin/models'' then Some EpListModels
      else if verb = ''POST'' \<and> path = ''/admin/config/reload'' then Some EpReload
      else
        (case strip_prefix ''/admin/keys/'' path of
           None \<Rightarrow> None
         | Some rest \<Rightarrow>
             (case split_segment rest of (seg, after) \<Rightarrow>
                if seg \<noteq> [] \<and> verb = ''DELETE'' \<and> after = [] then Some (EpDeleteKey seg)
                else if seg \<noteq> [] \<and> verb = ''GET'' \<and> after = ''/spend'' then Some (EpKeySpend seg)
                else None)))"

fun endpoint_open :: "admin_endpoint \<Rightarrow> bool" where
  "endpoint_open EpHealthz = True"
| "endpoint_open EpReadyz = True"
| "endpoint_open _ = False"

text \<open>
  The framework's own part: the decoding of a path segment, which content types are JSON, its answers for a request no route
  takes and for a rejected extraction, the text codec and the recorder's rendering.
\<close>

record axum =
  ax_json :: serde_json
  ax_decode :: "string \<Rightarrow> string option"
  ax_is_json_type :: "string \<Rightarrow> bool"
  ax_unrouted :: "string \<Rightarrow> string \<Rightarrow> u16 \<times> bytes"
  ax_bad_segment :: bytes
  ax_no_json_type :: bytes
  ax_syntax_error :: "string \<Rightarrow> bytes"
  ax_data_error :: "json \<Rightarrow> bytes"
  ax_metrics :: bytes

text \<open>\<open>Json<T>\<close>: 415 without the JSON content type, 400 for a text that is no JSON, 422 for another document.\<close>

definition extract_create :: "axum \<Rightarrow> header_map \<Rightarrow> bytes \<Rightarrow> (u16 \<times> bytes) + create_key_request" where
  "extract_create A headers body =
     (if \<not> (case header_get headers ''content-type'' of Some t \<Rightarrow> ax_is_json_type A t | None \<Rightarrow> False)
      then Inl (415, ax_no_json_type A)
      else
        (case from_slice (ax_json A) body of
           Inl e \<Rightarrow> Inl (400, ax_syntax_error A e)
         | Inr v \<Rightarrow>
             (case de_create_request v of
                None \<Rightarrow> Inl (422, ax_data_error A v)
              | Some rq \<Rightarrow> Inr rq)))"

definition extract_id :: "axum \<Rightarrow> string \<Rightarrow> (u16 \<times> bytes) + string" where
  "extract_id A seg = ok_or (400, ax_bad_segment A) (ax_decode A seg)"

fun extract_request :: "axum \<Rightarrow> header_map \<Rightarrow> bytes \<Rightarrow> admin_endpoint \<Rightarrow> (u16 \<times> bytes) + admin_request" where
  "extract_request A headers body EpHealthz = Inr GetHealthz"
| "extract_request A headers body EpReadyz = Inr GetReadyz"
| "extract_request A headers body EpStatus = Inr GetStatus"
| "extract_request A headers body EpMetrics = Inr GetMetrics"
| "extract_request A headers body EpListKeys = Inr GetKeys"
| "extract_request A headers body EpCreateKey = map_sum id PostKey (extract_create A headers body)"
| "extract_request A headers body (EpDeleteKey seg) = map_sum id DeleteKey (extract_id A seg)"
| "extract_request A headers body (EpKeySpend seg) = map_sum id GetSpend (extract_id A seg)"
| "extract_request A headers body EpListModels = Inr GetModels"
| "extract_request A headers body EpReload = Inr PostReload"

text \<open>The body of a reply; a document that cannot be encoded is answered with 500 and the error.\<close>

fun body_json :: "admin_body \<Rightarrow> json option" where
  "body_json (AdminKeys ks) = Some (list_keys_json ks)"
| "body_json (AdminCreated token k) = Some (created_json token k)"
| "body_json (AdminModels ms) = Some (list_models_json ms)"
| "body_json (AdminSpend r) = Some (key_spend_json r)"
| "body_json (AdminReloaded path) = Some (reload_json path)"
| "body_json (AdminStatus b) = Some (status_json b)"
| "body_json _ = None"

definition render_reply :: "axum \<Rightarrow> admin_reply \<Rightarrow> u16 \<times> bytes" where
  "render_reply A r =
     (case body_json (ar_body r) of
        Some v \<Rightarrow>
          (case to_vec (ax_json A) v of Inr b \<Rightarrow> (of_nat (ar_status r), b) | Inl e \<Rightarrow> (500, e))
      | None \<Rightarrow>
          (of_nat (ar_status r),
           (case ar_body r of AdminText t \<Rightarrow> t | AdminMetrics \<Rightarrow> ax_metrics A | _ \<Rightarrow> [])))"

text \<open>A request at the admin listener: the route, then the token layer, then the extractors and the handler.\<close>

definition admin_serve ::
  "axum \<Rightarrow> crypto \<Rightarrow> ('w, 'c, 'r, 'k) build_env \<Rightarrow> ('s, 'v) rustls_crate \<Rightarrow> (config \<Rightarrow> string option \<Rightarrow> string + config) \<Rightarrow>
     admin_inputs \<Rightarrow> string \<Rightarrow> string \<Rightarrow> header_map \<Rightarrow> bytes \<Rightarrow> ('w, 'c, 's) app_state \<Rightarrow>
     (u16 \<times> bytes) exec \<times> ('w, 'c, 's) app_state \<times> audit_event list" where
  "admin_serve A C E R extract inp verb path headers body st =
     (case admin_route verb path of
        None \<Rightarrow> (Ret (ax_unrouted A verb path), st, [])
      | Some ep \<Rightarrow>
          if \<not> endpoint_open ep \<and> \<not> admin_authorized st headers then (Ret (401, ''unauthorized''), st, [])
          else
            (case extract_request A headers body ep of
               Inl r \<Rightarrow> (Ret r, st, [])
             | Inr rq \<Rightarrow>
                 (case admin_dispatch C E R extract inp rq st of
                    (Ret r, st', evs) \<Rightarrow> (Ret (render_reply A r), st', evs)
                  | (Panic, st', evs) \<Rightarrow> (Panic, st', evs))))"

text \<open>The wire adds nothing to the handlers: what is routed and extracted is handled as the request it denotes.\<close>

lemma extracted_protected: "extract_request A headers body ep = Inr rq \<Longrightarrow> protected rq = (\<not> endpoint_open ep)"
  by (cases ep) (auto simp: map_sum_def split: sum.splits)

lemma admin_serve_handles:
  assumes "admin_route verb path = Some ep" and "extract_request A headers body ep = Inr rq"
  shows "admin_serve A C E R extract inp verb path headers body st =
     (case admin_handle C E R extract inp headers rq st of
        (Ret r, st', evs) \<Rightarrow> (Ret (render_reply A r), st', evs) | (Panic, st', evs) \<Rightarrow> (Panic, st', evs))"
  using assms extracted_protected [OF assms(2)]
  by (simp add: admin_serve_def admin_handle_def render_reply_def)

lemma split_segment_plain: "CHR ''/'' \<notin> set s \<Longrightarrow> split_segment s = (s, [])"
  by (induction s) auto

lemma admin_route_delete: "kid \<noteq> [] \<Longrightarrow> CHR ''/'' \<notin> set kid \<Longrightarrow> admin_route ''DELETE'' (''/admin/keys/'' @ kid) = Some (EpDeleteKey kid)"
  using strip_prefix_append [of "''/admin/keys/''" kid] by (simp add: admin_route_def split_segment_plain)

lemma admin_route_keys: "admin_route ''GET'' ''/admin/keys'' = Some EpListKeys" "admin_route ''POST'' ''/admin/keys'' = Some EpCreateKey"
  by (simp_all add: admin_route_def)

text \<open>
  Creating a key over the wire: a body that is no JSON is answered with 400 and a document that does
  not decode with 422, both without effect; the token is asked for before the body is looked at.
\<close>

lemma create_key_on_the_wire:
  assumes "header_get headers ''content-type'' = Some t" and "ax_is_json_type A t"
  shows "admin_serve A C E R extract inp ''POST'' ''/admin/keys'' headers body st =
    (if \<not> admin_authorized st headers then (Ret (401, ''unauthorized''), st, [])
     else case from_slice (ax_json A) body of
            Inl e \<Rightarrow> (Ret (400, ax_syntax_error A e), st, [])
          | Inr v \<Rightarrow>
              (case de_create_request v of
                 None \<Rightarrow> (Ret (422, ax_data_error A v), st, [])
               | Some rq \<Rightarrow>
                   (case create_key C (ai_entropy inp) rq st of
                      (Ret r, st', evs) \<Rightarrow> (Ret (render_reply A r), st', evs)
                    | (Panic, st', evs) \<Rightarrow> (Panic, st', evs))))"
  using assms
  by (simp add: admin_serve_def admin_route_keys extract_create_def admin_dispatch_def split: sum.split option.split)

text \<open>
  A spend report leaves out what it does not know: for a key without a limit the body of the reply has
  no \<open>spend\<close> and no \<open>limit\<close> field at all, neither with a value nor as \<open>null\<close>.
\<close>

theorem spend_report_omits_unlimited:
  assumes "keystore_find_by_id (ps_keys (ap_proxy st)) kid = Some key" and "vk_spend_limit key = None"
  shows "\<exists>v. body_json (ar_body (key_spend now kid st)) = Some v \<and>
     json_get v ''key_id'' = Some (JString (vk_id key)) \<and> json_get v ''spend'' = None \<and> json_get v ''limit'' = None"
  using assms by (simp add: key_spend_def key_spend_json_def opt_field_def)

theorem spend_report_omits_unlimited_witness:
  "\<exists>v. body_json (ar_body (key_spend example_utc ''vp_a'' example_app)) = Some v \<and>
     json_get v ''spend'' = None \<and> json_get v ''limit'' = None"
proof -
  have "keystore_find_by_id (ps_keys (ap_proxy example_app)) ''vp_a'' = Some example_key"
    by (simp add: example_app_keys keystore_find_by_id_def keystore_list_def [symmetric])
      (simp add: example_key_def anonymous_def)
  moreover have "vk_spend_limit example_key = None" by (simp add: example_key_def anonymous_def)
  ultimately show ?thesis using spend_report_omits_unlimited by blast
qed

end
