(* ===== verification/Operator.thy ===== *)
theory Operator
  imports Wire Ctl Gateway
begin

text \<open>
  The command-line tool talking to the gateway: the HTTP client of \<open>vaultplane-ctl\<close> connected to the
  admin listener of the gateway, with the derived codecs of both sides. The world of the tool is the
  state of the gateway.
\<close>

section \<open>The connection\<close>

record ('w, 'c, 's, 'r, 'k, 'v) listener =
  ln_axum :: axum
  ln_crypto :: crypto
  ln_build :: "('w, 'c, 'r, 'k) build_env"
  ln_rustls :: "('s, 'v) rustls_crate"
  ln_extract :: "config \<Rightarrow> string option \<Rightarrow> string + config"
  ln_inputs :: admin_inputs
  ln_base :: string

text \<open>A request to another host does not connect; a handler that panics drops the connection.\<close>

definition listener_send ::
  "('w, 'c, 's, 'r, 'k, 'v) listener \<Rightarrow> string \<Rightarrow> string \<Rightarrow> header_map \<Rightarrow> bytes \<Rightarrow> ('w, 'c, 's) app_state \<Rightarrow>
     (string + (u16 \<times> bytes)) \<times> ('w, 'c, 's) app_state" where
  "listener_send N verb url headers body st =
     (case strip_prefix (ln_base N) url of
        None \<Rightarrow> (Inl ''connection refused'', st)
      | Some path \<Rightarrow>
          (case admin_serve (ln_axum N) (ln_crypto N) (ln_build N) (ln_rustls N) (ln_extract N) (ln_inputs N)
                  verb path headers body st of
             (Ret r, st', evs) \<Rightarrow> (Inr r, st')
           | (Panic, st', evs) \<Rightarrow> (Inl ''connection closed'', st')))"

definition decode_with :: "serde_json \<Rightarrow> (json \<Rightarrow> 'a option) \<Rightarrow> bytes \<Rightarrow> string + 'a" where
  "decode_with J de b =
     (case from_slice J b of Inl e \<Rightarrow> Inl e | Inr v \<Rightarrow> ok_or ''invalid type'' (de v))"

definition tool_http ::
  "('w, 'c, 's, 'r, 'k, 'v) listener \<Rightarrow> (u16 \<Rightarrow> string) \<Rightarrow> (json \<Rightarrow> string + string) \<Rightarrow> ('w, 'c, 's) app_state ctl_http" where
  "tool_http N show_status pretty =
     (let J = ax_json (ln_axum N)
      in \<lparr>ch_send = listener_send N, ch_show_status = show_status,
          ch_ser_create = (\<lambda>rq. to_vec J (create_request_json rq)),
          ch_de_created = decode_with J de_created, ch_de_keys = decode_with J de_keys,
          ch_de_models = decode_with J de_models, ch_de_value = from_slice J, ch_pretty = pretty\<rparr>)"

text \<open>A document the codec writes and reads back.\<close>

definition codec_ok :: "serde_json \<Rightarrow> json \<Rightarrow> bool" where
  "codec_ok J v \<longleftrightarrow> (case to_vec J v of Inr b \<Rightarrow> from_slice J b = Inr v | Inl e \<Rightarrow> False)"

lemma codec_okE: "codec_ok J v \<Longrightarrow> (\<And>b. to_vec J v = Inr b \<Longrightarrow> from_slice J b = Inr v \<Longrightarrow> P) \<Longrightarrow> P"
  by (auto simp: codec_ok_def split: sum.splits)

definition visible :: "string \<Rightarrow> bool" where
  "visible s = list_all (\<lambda>c. byte_in 32 126 c \<or> byte_val c = 9) s"

text \<open>What makes the tool's requests pass the token layer: the same token on both sides.\<close>

definition tool_ready ::
  "('w, 'c, 's, 'r, 'k, 'v) listener \<Rightarrow> ('w, 'c, 's) app_state \<Rightarrow> string \<Rightarrow> bool" where
  "tool_ready N st token \<longleftrightarrow>
     trim_end_matches (CHR ''/'') (ln_base N) = ln_base N \<and> visible token \<and>
     ap_admin_token st = Some token \<and> ax_is_json_type (ln_axum N) JSON_TYPE"

lemma visible_append [simp]: "visible (a @ b) = (visible a \<and> visible b)"
  by (simp add: visible_def)

lemma tool_authorized:
  assumes "tool_ready N st token" and "map_of hs ''authorization'' = None"
  shows "admin_authorized st (hs @ client_auth \<lparr>acl_base = b, acl_token = Some token\<rparr>)"
proof -
  have "visible (''Bearer '' @ token)" using assms(1) by (simp add: tool_ready_def visible_def byte_in_def)
  then have "bearer_token (hs @ [(''authorization'', ''Bearer '' @ token)]) = Some token"
    using assms(2) strip_prefix_append [of "''Bearer ''" token]
    by (simp add: bearer_token_def header_get_def header_to_str_def visible_def map_add_def)
  then show ?thesis using assms(1)
    by (simp add: tool_ready_def admin_authorized_def client_auth_def constant_time_eq_iff)
qed

section \<open>Creating a key\<close>

abbreviation tool_client :: "('w, 'c, 's, 'r, 'k, 'v) listener \<Rightarrow> string \<Rightarrow> admin_client" where
  "tool_client N token \<equiv> \<lparr>acl_base = ln_base N, acl_token = Some token\<rparr>"

lemma tool_send_create:
  fixes N :: "('w, 'c, 's, 'r, 'k, 'v) listener"
  assumes ready: "tool_ready N st token" and body: "from_slice (ax_json (ln_axum N)) body = Inr v"
  shows "listener_send N ''POST'' (client_url (tool_client N token) ''/admin/keys'')
      ((''content-type'', JSON_TYPE) # client_auth (tool_client N token)) body st =
    (case de_create_request v of
       None \<Rightarrow> (Inr (422, ax_data_error (ln_axum N) v), st)
     | Some rq \<Rightarrow>
         (case create_key (ln_crypto N) (ai_entropy (ln_inputs N)) rq st of
            (Ret r, st', evs) \<Rightarrow> (Inr (render_reply (ln_axum N) r), st')
          | (Panic, st', evs) \<Rightarrow> (Inl ''connection closed'', st')))"
proof -
  have "visible JSON_TYPE" by code_simp
  then have "header_get ((''content-type'', JSON_TYPE) # client_auth (tool_client N token)) ''content-type'' = Some JSON_TYPE"
    by (simp add: header_get_def header_to_str_def visible_def)
  note wire = create_key_on_the_wire [OF this, of "ln_axum N"]
  have "admin_authorized st ((''content-type'', JSON_TYPE) # client_auth (tool_client N token))"
    using tool_authorized [OF ready, of "[(''content-type'', JSON_TYPE)]"] by simp
  then show ?thesis using ready body
    by (simp add: listener_send_def client_url_def wire tool_ready_def split: option.split prod.split exec.split)
qed

lemma tool_create_key:
  fixes N :: "('w, 'c, 's, 'r, 'k, 'v) listener"
  assumes ready: "tool_ready N st token" and g: "generate_key (ln_crypto N) (ai_entropy (ln_inputs N)) = Some g"
    and fin: "limit_finite (ck_spend_limit rq)"
    and codec: "codec_ok (ax_json (ln_axum N)) (create_request_json rq)"
      "codec_ok (ax_json (ln_axum N)) (created_json (gk_token g) (key_summary_of (new_virtual_key g rq)))"
  shows "client_create_key (tool_http N ss pr) (tool_client N token) rq st =
    (Inr (gk_token g, key_summary_of (new_virtual_key g rq)), update_keys (\<lambda>ks. keystore_insert ks (new_virtual_key g rq)) st)"
proof -
  obtain b where b: "to_vec (ax_json (ln_axum N)) (create_request_json rq) = Inr b"
    "from_slice (ax_json (ln_axum N)) b = Inr (create_request_json rq)" using codec(1) by (rule codec_okE)
  obtain b' where b': "to_vec (ax_json (ln_axum N)) (created_json (gk_token g) (key_summary_of (new_virtual_key g rq))) = Inr b'"
    "from_slice (ax_json (ln_axum N)) b' = Inr (created_json (gk_token g) (key_summary_of (new_virtual_key g rq)))"
    using codec(2) by (rule codec_okE)
  have "limit_finite (sum_spend_limit (key_summary_of (new_virtual_key g rq)))"
    using fin by (simp add: key_summary_of_def new_virtual_key_def)
  then show ?thesis using b b' g
    by (simp add: client_create_key_def admin_call_def tool_http_def Let_def tool_send_create [OF ready b(2)]
        create_request_roundtrip [OF fin] create_key_def render_reply_def is_success_def decode_with_def created_roundtrip)
qed

lemma tool_create_key_not_finite:
  fixes N :: "('w, 'c, 's, 'r, 'k, 'v) listener"
  assumes ready: "tool_ready N st token" and fin: "\<not> limit_finite (ck_spend_limit rq)"
    and codec: "codec_ok (ax_json (ln_axum N)) (create_request_json rq)"
  shows "\<exists>e. client_create_key (tool_http N ss pr) (tool_client N token) rq st = (Inl e, st)"
proof -
  obtain b where b: "to_vec (ax_json (ln_axum N)) (create_request_json rq) = Inr b"
    "from_slice (ax_json (ln_axum N)) b = Inr (create_request_json rq)" using codec by (rule codec_okE)
  then show ?thesis
    by (simp add: client_create_key_def admin_call_def tool_http_def Let_def tool_send_create [OF ready b(2)]
        create_request_not_finite [OF fin] is_success_def)
qed

section \<open>Revoking a key\<close>

lemma tool_send_delete:
  fixes N :: "('w, 'c, 's, 'r, 'k, 'v) listener"
  assumes ready: "tool_ready N st token" and kid: "kid \<noteq> []" "CHR ''/'' \<notin> set kid" "ax_decode (ln_axum N) kid = Some kid"
  shows "listener_send N ''DELETE'' (client_url (tool_client N token) (''/admin/keys/'' @ kid))
      (client_auth (tool_client N token)) [] st =
    (case delete_key kid st of (r, st', evs) \<Rightarrow> (Inr (render_reply (ln_axum N) r), st'))"
proof -
  have "admin_authorized st ([] @ client_auth (tool_client N token))" by (rule tool_authorized [OF ready]) simp
  then show ?thesis using ready kid
    by (simp add: listener_send_def client_url_def tool_ready_def admin_serve_def admin_route_delete extract_id_def
        admin_dispatch_def split: prod.split del: append_Cons)
qed

lemma tool_revoke_key:
  fixes N :: "('w, 'c, 's, 'r, 'k, 'v) listener"
  assumes "tool_ready N st token" and "kid \<noteq> []" "CHR ''/'' \<notin> set kid" "ax_decode (ln_axum N) kid = Some kid"
  shows "client_revoke_key (tool_http N ss pr) (tool_client N token) kid st =
    (case delete_key kid st of (r, st', evs) \<Rightarrow>
       (if ar_status r = 204 then Inr () else Inl [''no key with id '' @ kid], st'))"
proof -
  have "ar_status (fst (delete_key kid st)) = 204 \<and> body_json (ar_body (fst (delete_key kid st))) = None \<or>
      ar_status (fst (delete_key kid st)) = 404 \<and> body_json (ar_body (fst (delete_key kid st))) = None"
    by (auto simp: delete_key_def split: prod.split bool.split)
  then show ?thesis
    unfolding client_revoke_key_def tool_http_def Let_def ctl_http.select_convs tool_send_delete [OF assms]
    by (auto simp: render_reply_def split: prod.splits)
qed

section \<open>Properties\<close>

lemma generated_hash: "generate_key C entropy = Some g \<Longrightarrow> gk_hash g = hash_token C (gk_token g)"
  by (auto simp: generate_key_def Let_def split: option.splits)

lemma tool_connects:
  "tool_ready N st token \<Longrightarrow> admin_client_new (Inr ()) (ln_base N) (Some token) = Inr (tool_client N token)"
  by (simp add: admin_client_new_def tool_ready_def)

definition requested_key ::
  "string \<Rightarrow> string \<Rightarrow> string \<Rightarrow> string list \<Rightarrow> u32 option \<Rightarrow> spend_limit option \<Rightarrow> string option \<Rightarrow> create_key_request" where
  "requested_key team app env models rps limit expires =
     \<lparr>ck_team = team, ck_app = app, ck_env = env, ck_models = models, ck_rate_limit_rps = rps,
      ck_spend_limit = limit, ck_expires_at = expires\<rparr>"

text \<open>
  C14. The key an operator creates works: run against a gateway with the same admin token, \<open>key create\<close> prints an
  identifier and a token, and that token then authenticates at the gateway as a key with this
  identifier and exactly the scope, limits and expiry given on the command line, after the request
  and its answer have passed through both codecs and the router.
\<close>

theorem operator_creates_working_key:
  fixes N :: "('w, 'c, 's, 'r, 'k, 'v) listener"
  assumes "tool_ready N st token" and "generate_key (ln_crypto N) (ai_entropy (ln_inputs N)) = Some g"
    and "parse_spend_option F spend = Inr limit" and "limit_finite limit"
    and "codec_ok (ax_json (ln_axum N)) (create_request_json (requested_key team app env models rps limit expires))"
    and "codec_ok (ax_json (ln_axum N))
      (created_json (gk_token g) (key_summary_of (new_virtual_key g (requested_key team app env models rps limit expires))))"
  shows "\<exists>out st' key.
    ctl_main F C entropy (Inr ()) (tool_http N ss pr) D ex
      \<lparr>cli_endpoint = Some (ln_base N), cli_token = Some token,
       cli_command = KeyCreate team app env models rps spend expires\<rparr> st = Ret (Inr out, st') \<and>
    ''Issued key '' @ gk_id g \<in> set out \<and> ''Token: '' @ gk_token g \<in> set out \<and>
    keystore_authenticate (ln_crypto N) (ps_keys (ap_proxy st')) (gk_token g) = Some key \<and>
    vk_id key = gk_id g \<and> vk_team key = team \<and> vk_app key = app \<and> vk_env key = env \<and> vk_models key = models \<and>
    vk_rate_limit_rps key = rps \<and> vk_spend_limit key = limit \<and> vk_expires_at key = expires"
proof -
  let ?rq = "requested_key team app env models rps limit expires"
  let ?key = "new_virtual_key g ?rq"
  let ?st = "update_keys (\<lambda>ks. keystore_insert ks ?key) st"
  have call: "client_create_key (tool_http N ss pr) (tool_client N token) ?rq st = (Inr (gk_token g, key_summary_of ?key), ?st)"
    using assms by (intro tool_create_key) (simp_all add: requested_key_def)
  have "ctl_main F C entropy (Inr ()) (tool_http N ss pr) D ex
      \<lparr>cli_endpoint = Some (ln_base N), cli_token = Some token, cli_command = KeyCreate team app env models rps spend expires\<rparr> st =
      Ret (Inr (created_lines F (gk_token g) (key_summary_of ?key)), ?st)"
    using call assms(3) tool_connects [OF assms(1)]
    by (simp add: ctl_main_def run_key_create_def key_create_online_def requested_key_def)
  moreover have "keystore_authenticate (ln_crypto N) (ps_keys (ap_proxy ?st)) (gk_token g) = Some ?key"
    using generated_hash [OF assms(2)] by (simp add: update_keys_def keystore_authenticate_insert new_virtual_key_def)
  moreover have "''Issued key '' @ gk_id g \<in> set (created_lines F (gk_token g) (key_summary_of ?key))"
    "''Token: '' @ gk_token g \<in> set (created_lines F (gk_token g) (key_summary_of ?key))"
    by (simp_all add: created_lines_def key_summary_of_def new_virtual_key_def)
  ultimately show ?thesis by (intro exI conjI) (assumption | simp add: new_virtual_key_def requested_key_def)+
qed

text \<open>A concrete connection for the witnesses: a codec that knows two documents, and the example gateway.\<close>

definition two_docs :: "json \<Rightarrow> json \<Rightarrow> serde_json" where
  "two_docs a b =
     \<lparr>from_slice = (\<lambda>t. if t = ''1'' then Inr a else if t = ''2'' then Inr b else Inl ''expected value''),
      to_vec = (\<lambda>v. if v = a then Inr ''1'' else if v = b then Inr ''2'' else Inl ''unsupported''), display = (\<lambda>_. [])\<rparr>"

lemma two_docs_ok: "codec_ok (two_docs a b) a" "codec_ok (two_docs a b) b"
  by (simp_all add: codec_ok_def two_docs_def)

definition example_generated :: generated_key where
  "example_generated = \<lparr>gk_token = ''vp_abcdefghijklmnop'', gk_id = ''vp_abcdefghijkl'', gk_hash = ''vp_abcdefghijklmnop''\<rparr>"

definition example_axum :: axum where
  "example_axum =
     \<lparr>ax_json = two_docs (create_request_json example_create)
        (created_json (gk_token example_generated) (key_summary_of (new_virtual_key example_generated example_create))),
      ax_decode = (\<lambda>s. Some s), ax_is_json_type = (\<lambda>t. t = JSON_TYPE), ax_unrouted = (\<lambda>_ _. (404, [])),
      ax_bad_segment = [], ax_no_json_type = [], ax_syntax_error = (\<lambda>e. e), ax_data_error = (\<lambda>_. []), ax_metrics = []\<rparr>"

definition example_listener :: "(nat, (string \<times> cached_response) list, unit, unit, unit, unit) listener" where
  "example_listener =
     \<lparr>ln_axum = example_axum, ln_crypto = example_crypto, ln_build = example_build, ln_rustls = pf_rustls example_platform,
      ln_extract = pf_extract example_platform,
      ln_inputs = \<lparr>ai_version = ''0'', ai_now = 0, ai_utc = example_utc, ai_entropy = ''abcdefghijklmnop''\<rparr>,
      ln_base = ''http://gw''\<rparr>"

lemma example_ready: "tool_ready example_listener example_app ''secret''"
proof -
  have "trim_end_matches (CHR ''/'') ''http://gw'' = ''http://gw''" "visible ''secret''" by code_simp+
  then show ?thesis
    by (simp add: tool_ready_def example_listener_def example_axum_def example_app_def app_state_new_def)
qed

lemma example_listener_generates:
  "generate_key (ln_crypto example_listener) (ai_entropy (ln_inputs example_listener)) = Some example_generated"
proof -
  have "generate_key example_crypto ''abcdefghijklmnop'' = Some example_generated" by code_simp
  then show ?thesis by (simp add: example_listener_def)
qed

lemma example_requested: "requested_key ''t'' ''a'' ''prod'' [''m''] (Some 5) None None = example_create"
  by (simp add: requested_key_def example_create_def)

theorem operator_creates_working_key_witness:
  "\<exists>out st' key.
    ctl_main example_f64_text example_crypto [] (Inr ()) (tool_http example_listener (\<lambda>_. []) (\<lambda>_. Inl []))
      \<lparr>df_pretty = (\<lambda>_. Inl []), df_unified = (\<lambda>_ _ _ _ _. [])\<rparr> (\<lambda>d _. Inr d)
      \<lparr>cli_endpoint = Some (ln_base example_listener), cli_token = Some ''secret'',
       cli_command = KeyCreate ''t'' ''a'' ''prod'' [''m''] (Some 5) None None\<rparr> example_app = Ret (Inr out, st') \<and>
    ''Token: '' @ gk_token example_generated \<in> set out \<and>
    keystore_authenticate (ln_crypto example_listener) (ps_keys (ap_proxy st')) (gk_token example_generated) = Some key \<and>
    vk_models key = [''m'']"
proof -
  have docs: "codec_ok (ax_json (ln_axum example_listener)) (create_request_json (requested_key ''t'' ''a'' ''prod'' [''m''] (Some 5) None None))"
    "codec_ok (ax_json (ln_axum example_listener)) (created_json (gk_token example_generated)
      (key_summary_of (new_virtual_key example_generated (requested_key ''t'' ''a'' ''prod'' [''m''] (Some 5) None None))))"
    by (simp_all add: example_requested example_listener_def example_axum_def two_docs_ok)
  have "parse_spend_option example_f64_text None = Inr None" "limit_finite None"
    by (simp_all add: parse_spend_option_def limit_finite_def)
  from operator_creates_working_key [OF example_ready example_listener_generates this docs]
  show ?thesis by blast
qed

text \<open>
  C15. Revocation from the command line: against a gateway with the tool's admin token, for an identifier without
  a slash that survives the URL, \<open>key revoke\<close> reports success exactly when the gateway holds a key with that
  identifier, and afterwards exactly one such key is gone from the store: its token is filed under no key, and
  every other token, also one of another key with the same identifier, under the key it was. Otherwise it
  reports that there is no such key and the store is unchanged.
\<close>

theorem operator_revokes_key:
  fixes N :: "('w, 'c, 's, 'r, 'k, 'v) listener"
  assumes "tool_ready N st token" and "kid \<noteq> []" and "CHR ''/'' \<notin> set kid" and "ax_decode (ln_axum N) kid = Some kid"
    and "keystore_wf (ps_keys (ap_proxy st))"
  shows "\<exists>st'. let ks = ps_keys (ap_proxy st); ks' = ps_keys (ap_proxy st');
      held = (\<exists>k \<in> set (keystore_list ks). vk_id k = kid)
    in ctl_main F C entropy (Inr ()) (tool_http N ss pr) D ex
        \<lparr>cli_endpoint = Some (ln_base N), cli_token = Some token, cli_command = KeyRevoke kid\<rparr> st =
        Ret (if held then Inr [''Revoked '' @ kid] else Inl [''no key with id '' @ kid], st') \<and>
      (if held
       then \<exists>k \<in> set (keystore_list ks). vk_id k = kid \<and> set (keystore_list ks') = set (keystore_list ks) - {k} \<and>
              (\<forall>t. keystore_authenticate (ln_crypto N) ks' t =
                 (if hash_token (ln_crypto N) t = vk_hash k then None else keystore_authenticate (ln_crypto N) ks t))
       else ks' = ks)"
proof -
  obtain ks found where rm: "keystore_remove_by_id (ps_keys (ap_proxy st)) kid = (ks, found)" by fastforce
  note found = remove_by_id_found [OF rm]
  have ks: "ps_keys (ap_proxy (fst (snd (delete_key kid st)))) = ks"
    using rm keystore_remove_FalseD [of "ps_keys (ap_proxy st)" kid ks] by (cases found) (auto simp: delete_key_def)
  have ok: "ar_status (fst (delete_key kid st)) = 204 \<longleftrightarrow> found"
    using rm by (cases found) (simp_all add: delete_key_def)
  have run: "ctl_main F C entropy (Inr ()) (tool_http N ss pr) D ex
      \<lparr>cli_endpoint = Some (ln_base N), cli_token = Some token, cli_command = KeyRevoke kid\<rparr> st =
      Ret (if found then Inr [''Revoked '' @ kid] else Inl [''no key with id '' @ kid], fst (snd (delete_key kid st)))"
    using tool_revoke_key [OF assms(1-4), of ss pr] tool_connects [OF assms(1)] ok
    by (cases "delete_key kid st") (simp add: ctl_main_def with_client_def require_endpoint_def key_revoke_def)
  show ?thesis
  proof (cases found)
    case True
    with rm obtain k where "vk_id k = kid" "key_removed (ps_keys (ap_proxy st)) k ks"
      using remove_by_id_removes [OF assms(5), of kid ks] by auto
    with run ks found True show ?thesis
      by (intro exI [of _ "fst (snd (delete_key kid st))"]) (auto simp: Let_def key_removed_def)
  next
    case False
    with rm have "ks = ps_keys (ap_proxy st)" using keystore_remove_FalseD [of "ps_keys (ap_proxy st)" kid ks] by simp
    with run ks found False show ?thesis
      by (intro exI [of _ "fst (snd (delete_key kid st))"]) (auto simp: Let_def)
  qed
qed

theorem operator_revokes_key_witness:
  "\<exists>st'. ctl_main example_f64_text example_crypto [] (Inr ()) (tool_http example_listener (\<lambda>_. []) (\<lambda>_. Inl []))
      \<lparr>df_pretty = (\<lambda>_. Inl []), df_unified = (\<lambda>_ _ _ _ _. [])\<rparr> (\<lambda>d _. Inr d)
      \<lparr>cli_endpoint = Some (ln_base example_listener), cli_token = Some ''secret'', cli_command = KeyRevoke ''vp_a''\<rparr> twin_app =
      Ret (Inr [''Revoked vp_a''], st') \<and>
    (\<exists>k \<in> {example_key, example_twin}.
       set (keystore_list (ps_keys (ap_proxy st'))) = {example_key, example_twin} - {k})"
proof -
  have wf: "keystore_wf (ps_keys (ap_proxy twin_app))" by (simp add: twin_app_keys keystore_wf_new)
  have ready: "tool_ready example_listener twin_app ''secret''"
    using example_ready by (simp add: tool_ready_def twin_app_def)
  have "ax_decode (ln_axum example_listener) ''vp_a'' = Some ''vp_a''" by (simp add: example_listener_def example_axum_def)
  from operator_revokes_key [OF ready _ _ this wf, where F = example_f64_text and C = example_crypto and entropy = "[]"
      and ss = "\<lambda>_. []" and pr = "\<lambda>_. Inl []" and D = "\<lparr>df_pretty = (\<lambda>_. Inl []), df_unified = (\<lambda>_ _ _ _ _. [])\<rparr>"
      and ex = "\<lambda>d _. Inr d"]
  show ?thesis by (auto simp: twin_app_keys Let_def)
qed

end
