(* ===== verification/RateWindow.thy ===== *)
theory RateWindow
  imports RateLimiter
begin

text \<open>
  The long-run bound of the rate limiter: how many requests of a key pass in a window of time, with
  the floating-point error of every refill accounted for.
\<close>

section \<open>Rounding upwards\<close>

lemma f64_round_upper: "0 \<le> x \<Longrightarrow> f64_round x \<le> x + x / 2 ^ 52 + 1 / 2 ^ 52"
proof (cases "x = 0")
  case False
  assume "0 \<le> x"
  with False have x: "0 < x" by simp
  let ?e = "f64_exponent x"
  have p: "(0 :: rat) < 2 powi ?e" by simp
  have "of_int (round_half_even (x / 2 powi ?e)) \<le> x / 2 powi ?e + 1"
    using round_half_even_bounds(2) [of "x / 2 powi ?e"] by linarith
  then have "f64_round_pos x \<le> (x / 2 powi ?e + 1) * 2 powi ?e"
    unfolding f64_round_pos_def Let_def using p by (intro mult_right_mono) simp_all
  also have "\<dots> = x + 2 powi ?e" using p by (simp add: distrib_right)
  finally have up: "f64_round_pos x \<le> x + 2 powi ?e" .
  have "(2 :: rat) powi (floor_log2 x - 52) = 2 powi floor_log2 x / 2 ^ 52" by (simp add: power_int_diff)
  also have "\<dots> \<le> x / 2 ^ 52" using floor_log2_bounds(1) [OF x] by (intro divide_right_mono) simp_all
  finally have norm: "(2 :: rat) powi (floor_log2 x - 52) \<le> x / 2 ^ 52" .
  have "(2 :: rat) powi - 1074 \<le> 2 powi - int 52" unfolding powi_le_iff by simp
  also have "(2 :: rat) powi - int 52 = 1 / 2 ^ 52" unfolding power_int_minus power_int_of_nat by (simp only: inverse_eq_divide)
  finally have sub: "(2 :: rat) powi - 1074 \<le> 1 / 2 ^ 52" .
  have "(2 :: rat) powi ?e \<le> x / 2 ^ 52 + 1 / 2 ^ 52"
    unfolding f64_exponent_def max_def using norm sub x by (auto intro: order_trans add_increasing2 add_increasing)
  with up x show ?thesis by (simp add: f64_round_def)
qed simp

section \<open>One refill\<close>

text \<open>Within a second the refill exceeds the exact amount by less than \<open>2^-48\<close> of the capacity.\<close>

lemma rounding_chain:
  fixes q N a e m s u :: rat
  assumes "u = 1 / 4503599627370496" "0 \<le> q" "q \<le> 1" "1 \<le> N" "0 \<le> a" "a \<le> N"
    and "e \<le> q + q * u + u" "0 \<le> e" and "m \<le> e * N + (e * N) * u + u" "0 \<le> m" and "s \<le> (a + m) + (a + m) * u + u"
  shows "s \<le> a + N * q + N / 281474976710656"
proof -
  have u: "0 < u" "4503599627370496 * u = 1" using assms(1) by simp_all
  have uN: "u \<le> N * u" using assms(4) u(1) by simp
  have "q * u \<le> u" using assms(3) u(1) by (simp add: mult_left_le_one_le assms(2))
  then have e: "e \<le> q + 2 * u" using assms(7) by linarith
  have "e * N \<le> (q + 2 * u) * N" using e assms(4) by (intro mult_right_mono) simp_all
  then have eN: "e * N \<le> N * q + 2 * (N * u)" by (simp add: algebra_simps)
  have Nq: "N * q \<le> N" using assms(2-4) by (simp add: mult_left_le)
  have small: "N * u \<le> N" using assms(4) u by (intro mult_left_le) linarith+
  have "e * N * u \<le> (3 * N) * u" using mult_right_mono [of "e * N" "3 * N" u] eN Nq small u(1) by linarith
  then have m: "m \<le> N * q + 6 * (N * u)" using assms(9) eN uN by (simp add: algebra_simps)
  have "(a + m) * u \<le> (8 * N) * u" using mult_right_mono [of "a + m" "8 * N" u] m Nq small assms(6) u(1) by linarith
  then have "s \<le> a + N * q + 15 * (N * u)" using assms(11) m uN by (simp add: algebra_simps)
  moreover have "15 * (N * u) \<le> N / 281474976710656" using assms(1,4) by simp
  ultimately show ?thesis by linarith
qed

lemma as_secs_f64_within:
  assumes "d < 10 ^ 9"
  shows "as_secs_f64 d = Fin (f64_round (of_nat d / 10 ^ 9))"
proof -
  have d: "d div 10 ^ 9 = 0" "d mod 10 ^ 9 = d" using assms by simp_all
  have "d \<le> 2 ^ 53" using assms by simp
  then have n: "f64_of_nat d = Fin (of_nat d)" by (rule f64_of_nat_exact)
  have z: "f64_of_nat 0 = Fin 0" by (simp add: f64_of_nat_def)
  have r1: "(of_nat d / 10 ^ 9 :: rat) \<le> 1" using assms by (simp add: divide_le_eq)
  then have big: "\<bar>of_nat d / 10 ^ 9 :: rat\<bar> \<le> f64_big" by (intro le_f64_big) simp
  have "f64_round (of_nat d / 10 ^ 9) \<le> 1" using f64_round_mono [OF r1] by simp
  moreover have "0 \<le> f64_round (of_nat d / 10 ^ 9)" by (intro f64_round_nonneg) simp
  ultimately have "\<bar>f64_round (of_nat d / 10 ^ 9)\<bar> \<le> f64_big" by (intro le_f64_big) simp
  then show ?thesis unfolding as_secs_f64_def d n z f64_billion
    using big by (simp add: f64_of_rat_Fin)
qed

lemma small_le_big: "0 \<le> x \<Longrightarrow> x \<le> 8589934592 \<Longrightarrow> \<bar>x\<bar> \<le> f64_big"
  by (rule le_f64_big) simp

lemma refill_upper:
  assumes b: "bucket_holds n a b"
    and x: "f64_min (f64_add (available b) (f64_mul (as_secs_f64 d) (refill_per_second b))) (capacity b) = Fin a'"
    and cap: "a' \<le> of_nat n"
  shows "a' \<le> a + of_nat n * (of_nat d / 10 ^ 9) + of_nat n / 2 ^ 48"
proof (cases "10 ^ 9 \<le> d \<or> n = 0")
  case True
  have a: "0 \<le> a" using b by (simp add: bucket_holds_def)
  have "of_nat n \<le> of_nat n * (of_nat d / 10 ^ 9 :: rat)"
  proof (cases "n = 0")
    case False
    with True have "(1 :: rat) \<le> of_nat d / 10 ^ 9" by (simp add: le_divide_eq)
    then show ?thesis using mult_left_mono [of 1 "of_nat d / 10 ^ 9 :: rat" "of_nat n"] by simp
  qed simp
  moreover have "(0 :: rat) \<le> of_nat n / 2 ^ 48" by simp
  ultimately show ?thesis using cap a by linarith
next
  case False
  then have n1: "(1 :: rat) \<le> of_nat n" by simp
  define q :: rat where "q = of_nat d / 10 ^ 9"
  define e where "e = f64_round q"
  define m where "m = f64_round (e * of_nat n)"
  have n32: "(of_nat n :: rat) \<le> 4294967296" using b by (simp add: bucket_holds_def)
  have q: "0 \<le> q" "q \<le> 1" using False by (simp_all add: q_def divide_le_eq)
  have e: "0 \<le> e" "e \<le> 1" using f64_round_nonneg [OF q(1)] f64_round_mono [OF q(2)] by (simp_all add: e_def)
  have en: "0 \<le> e * of_nat n" "e * of_nat n \<le> of_nat n" using e by (simp_all add: mult_left_le_one_le)
  have m: "0 \<le> m" using f64_round_nonneg [OF en(1)] by (simp add: m_def)
  have nn: "f64_round (of_nat n) = of_nat n" using b by (intro f64_round_exact dyadic53_of_nat) (simp add: bucket_holds_def)
  have mn: "m \<le> of_nat n" using f64_round_mono [OF en(2)] nn by (simp add: m_def)
  have ab: "0 \<le> a" "a \<le> of_nat n" "available b = Fin a" "refill_per_second b = Fin (of_nat n)" "capacity b = Fin (of_nat n)"
    using b by (simp_all add: bucket_holds_def)
  have "\<bar>e * of_nat n\<bar> \<le> f64_big" using en n32 by (intro small_le_big) linarith+
  then have "f64_of_rat (e * of_nat n) = Fin m" by (simp only: f64_of_rat_Fin m_def)
  then have mul: "f64_mul (as_secs_f64 d) (refill_per_second b) = Fin m"
    using False as_secs_f64_within [of d] by (simp add: ab e_def q_def)
  have "\<bar>a + m\<bar> \<le> f64_big" using m mn ab(1,2) n32 by (intro small_le_big) linarith+
  then have "f64_of_rat (a + m) = Fin (f64_round (a + m))" by (rule f64_of_rat_Fin)
  then have "f64_min (Fin (f64_round (a + m))) (Fin (of_nat n)) = Fin a'"
    using x unfolding mul ab(3,5) by simp
  then have "a' \<le> f64_round (a + m)" by (auto simp: f64_min_def split: if_splits)
  moreover have "f64_round (a + m) \<le> a + of_nat n * q + of_nat n / 281474976710656"
    using f64_round_upper [OF q(1)] f64_round_upper [OF en(1)] f64_round_upper [of "a + m"] m e(1) ab(1)
    by (intro rounding_chain [OF refl q n1 ab(1,2), where e = e and m = m]) (simp_all add: e_def m_def)
  ultimately show ?thesis by (simp add: q_def)
qed

section \<open>Windows\<close>

definition admitted :: "bool list \<Rightarrow> nat" where
  "admitted oks = length (filter (\<lambda>ok. ok) oks)"

lemma admitted_Cons [simp]: "admitted [] = 0" "admitted (ok # oks) = (if ok then Suc (admitted oks) else admitted oks)"
  by (simp_all add: admitted_def)

lemma run_Cons:
  "snd (rate_limiter_run rl k rps (t # ts)) =
     snd (rate_limiter_check rl k rps t t) # snd (rate_limiter_run (fst (rate_limiter_check rl k rps t t)) k rps ts)"
  by (simp add: split_def Let_def)

text \<open>Admissions plus tokens left grow by no more than the elapsed time pays for.\<close>

lemma window_from:
  assumes "tget rl k = Some b" "bucket_holds n a b" "sorted (last_refill b # ts)"
  shows "of_nat (admitted (snd (rate_limiter_run rl k rps ts))) \<le>
    a + of_nat n * (of_nat (last (last_refill b # ts) - last_refill b) / 10 ^ 9) + of_nat (length ts) * (of_nat n / 2 ^ 48)"
  using assms
proof (induction ts arbitrary: rl b a)
  case Nil
  then show ?case by (simp add: bucket_holds_def)
next
  case (Cons t ts)
  let ?rl = "fst (rate_limiter_check rl k rps t t)" and ?b = "fst (try_consume t b)"
  obtain a' where a': "a' \<le> of_nat n" "snd (try_consume t b) \<longleftrightarrow> 1 \<le> a'"
    "bucket_holds n (if 1 \<le> a' then a' - 1 else a') ?b" "last_refill ?b = t"
    "f64_min (f64_add (available b) (f64_mul (as_secs_f64 (t - last_refill b)) (refill_per_second b))) (capacity b) = Fin a'"
    using try_consume_holds [OF Cons.prems(2), of t] by metis
  have e: "tget ?rl k = Some ?b" using Cons.prems(1) by (simp add: rate_limiter_check_entry)
  have ok: "snd (rate_limiter_check rl k rps t t) \<longleftrightarrow> 1 \<le> a'" using Cons.prems(1) a'(2) by (simp add: rate_limiter_check_result)
  have ih: "of_nat (admitted (snd (rate_limiter_run ?rl k rps ts))) \<le>
      (if 1 \<le> a' then a' - 1 else a') + of_nat n * (of_nat (last (t # ts) - t) / 10 ^ 9) + of_nat (length ts) * (of_nat n / 2 ^ 48)"
    using Cons.IH [OF e a'(3)] Cons.prems(3) a'(4) by simp
  have le: "last_refill b \<le> t" "t \<le> last (t # ts)"
    using Cons.prems(3) sorted_nth_mono [of "t # ts" 0 "length ts"] by (simp_all add: last_conv_nth)
  have "of_nat (last (t # ts) - last_refill b) = (of_nat (last (t # ts) - t) + of_nat (t - last_refill b) :: rat)"
    using le by (simp add: of_nat_diff)
  then have split: "of_nat n * (of_nat (last (last_refill b # t # ts) - last_refill b) / 10 ^ 9 :: rat) =
      of_nat n * (of_nat (t - last_refill b) / 10 ^ 9) + of_nat n * (of_nat (last (t # ts) - t) / 10 ^ 9)"
    by (simp add: add_divide_distrib distrib_left)
  show ?case unfolding run_Cons split
    using ih ok refill_upper [OF Cons.prems(2) a'(5,1)] by (simp add: add_divide_distrib distrib_right split: if_splits)
qed

lemma rate_limiter_window_rounded:
  assumes "rate_limiter_ok rl" and "sorted (t # ts)"
    and "case tget rl k of Some b \<Rightarrow> capacity b = Fin (of_nat n) | None \<Rightarrow> n = unat rps"
  shows "of_nat (admitted (snd (rate_limiter_run rl k rps (t # ts)))) \<le>
    (of_nat n + of_nat n * (of_nat (last (t # ts) - t) / 10 ^ 9) + of_nat (length ts) * (of_nat n / 2 ^ 48) :: rat)"
proof -
  define b where "b = (case tget rl k of Some b \<Rightarrow> b | None \<Rightarrow> bucket_new rps t)"
  obtain a where b: "bucket_holds n a b"
  proof (cases "tget rl k")
    case None
    then show thesis using bucket_new_holds [of rps t] assms(3) that by (simp add: b_def)
  next
    case (Some c)
    then obtain n' a' where "bucket_holds n' a' c" using assms(1) unfolding rate_limiter_ok_iff bucket_ok_def by blast
    moreover from this have "n' = n" using assms(3) Some by (simp add: bucket_holds_def)
    ultimately show thesis using that Some by (simp add: b_def)
  qed
  let ?rl = "fst (rate_limiter_check rl k rps t t)" and ?b = "fst (try_consume t b)"
  obtain a' where a': "a' \<le> of_nat n" "snd (try_consume t b) \<longleftrightarrow> 1 \<le> a'"
    "bucket_holds n (if 1 \<le> a' then a' - 1 else a') ?b" "last_refill ?b = t"
    using try_consume_holds [OF b, of t] by metis
  have "tget ?rl k = Some ?b" by (simp add: rate_limiter_check_entry b_def)
  from window_from [OF this a'(3), of ts rps] assms(2) a'(4)
  have "of_nat (admitted (snd (rate_limiter_run ?rl k rps ts))) \<le>
      (if 1 \<le> a' then a' - 1 else a') + of_nat n * (of_nat (last (t # ts) - t) / 10 ^ 9) + of_nat (length ts) * (of_nat n / 2 ^ 48)" by simp
  moreover have "snd (rate_limiter_check rl k rps t t) \<longleftrightarrow> 1 \<le> a'"
    using a'(2) by (simp add: rate_limiter_check_result b_def)
  ultimately show ?thesis unfolding run_Cons using a'(1) by (simp split: if_splits)
qed

lemma whole_requests: "of_nat a < of_nat n + w + (1 :: rat) \<Longrightarrow> int a \<le> int n + \<lceil>w\<rceil>"
proof -
  assume "of_nat a < of_nat n + w + (1 :: rat)"
  then have "(of_int (int a) :: rat) < of_int (int n + \<lceil>w\<rceil> + 1)" using le_of_int_ceiling [of w] by simp linarith
  then show ?thesis by (simp only: of_int_less_iff)
qed

text \<open>
  C23. Rate bound: in any window of time, from any state the limiter reaches, a key whose bucket has capacity \<open>n\<close>
  is admitted at most \<open>n\<close> times plus \<open>n\<close> times per second of the window, the latter rounded up to whole
  requests, as long as \<open>n\<close> times the number of calls in the window is below \<open>2^48\<close>: the floating-point error of
  a refill is at most \<open>2^-48\<close> of the capacity, so that fewer calls do not make up a request between them.
\<close>

theorem rate_limiter_window:
  assumes "rate_limiter_ok rl" and "sorted (t # ts)"
    and "case tget rl k of Some b \<Rightarrow> capacity b = Fin (of_nat n) | None \<Rightarrow> n = unat rps"
    and "n * length ts < 2 ^ 48"
  shows "int (admitted (snd (rate_limiter_run rl k rps (t # ts)))) \<le>
    int n + \<lceil>of_nat n * (of_nat (last (t # ts) - t) / 10 ^ 9 :: rat)\<rceil>"
proof -
  have "(of_nat (n * length ts) :: rat) < of_nat (2 ^ 48)" using assms(4) by (simp only: of_nat_less_iff)
  then have "of_nat (length ts) * (of_nat n / 2 ^ 48) < (1 :: rat)" by (simp add: mult.commute)
  with rate_limiter_window_rounded [OF assms(1-3)] show ?thesis by (intro whole_requests) linarith
qed

text \<open>A thousand calls in one second at one request per second.\<close>

theorem rate_limiter_window_witness:
  "admitted (snd (rate_limiter_run [] ''vp_key'' 1 (0 # map (\<lambda>i. i * 10 ^ 6) [1..<1001]))) \<le> 2"
proof -
  have "sorted (0 # map (\<lambda>i. i * 10 ^ 6) [1..<1001])" by (simp add: sorted_wrt_map)
  moreover have "last (0 # map (\<lambda>i. i * 10 ^ 6) [1..<1001]) = (10 ^ 9 :: nat)" by (simp add: last_map)
  ultimately show ?thesis
    using rate_limiter_window [where rl = "[]" and t = 0 and ts = "map (\<lambda>i. i * 10 ^ 6) [1..<1001]" and k = "''vp_key''"
        and n = 1 and rps = 1]
    by (simp add: rate_limiter_ok_def)
qed

end
