(* ===== verification/Tasks.thy ===== *)
theory Tasks
  imports Gateway
begin

text \<open>
  Concurrent requests (\<open>proxy.rs\<close>). The server runs every request as a task of its own, and two tasks
  interleave wherever one of them takes a lock or awaits. This theory cuts the handlers at those points: a
  stage is what a suspended handler holds, a step is the code up to the next point. The key store, the
  limiter, the ledger and the runtimes are shared. A handler keeps the runtime it loaded: a runtime is an
  object with an identity, its position in the list of the runtimes installed so far.
\<close>

section \<open>State\<close>

record ('w, 'c) shared =
  sh_keys :: key_store
  sh_limiter :: rate_limiter
  sh_ledger :: spend_tracker
  sh_runtimes :: "('w, 'c) runtime list"
  sh_current :: nat
  sh_world :: 'w

record task_request =
  tr_clocks :: clocks
  tr_route :: proxy_route
  tr_headers :: header_map
  tr_body :: bytes

text \<open>
  The points between two accesses to shared state, in the order of the code: before the store is asked
  whether it is empty, before the token is looked up, before the rate limit, before the runtime is loaded,
  before the budget is checked, before the plugins, the cache and the provider, before the ledger is charged,
  before the reply is stored, and after.
\<close>

datatype stage =
    Arrived
  | Guarded
  | Identified virtual_key
  | Authorized virtual_key
  | Loaded virtual_key nat
  | Checked virtual_key nat
  | Screened virtual_key nat bytes
  | Missed virtual_key nat bytes
  | Answered virtual_key nat "string option" chat_response
  | Charged virtual_key nat "string option" chat_response
  | Finished "reply exec"

text \<open>The proxy state a handler that holds runtime \<open>i\<close> works on, and the shared state after it changed it.\<close>

definition view :: "('w, 'c) shared \<Rightarrow> nat \<Rightarrow> ('w, 'c) proxy_state" where
  "view sh i =
     \<lparr>ps_runtime = sh_runtimes sh ! i, ps_keys = sh_keys sh, ps_rate_limiter = sh_limiter sh,
      ps_spend_tracker = sh_ledger sh\<rparr>"

definition put_view :: "('w, 'c) shared \<Rightarrow> nat \<Rightarrow> ('w, 'c) proxy_state \<Rightarrow> ('w, 'c) shared" where
  "put_view sh i st =
     sh\<lparr>sh_runtimes := (sh_runtimes sh)[i := ps_runtime st], sh_keys := ps_keys st,
        sh_limiter := ps_rate_limiter st, sh_ledger := ps_spend_tracker st\<rparr>"

section \<open>Steps\<close>

definition task_model :: "'c proxy_env \<Rightarrow> task_request \<Rightarrow> string" where
  "task_model E rq = unwrap_or (request_model E (tr_route rq) (tr_body rq)) []"

definition step_identified ::
  "'c proxy_env \<Rightarrow> task_request \<Rightarrow> virtual_key \<Rightarrow> ('w, 'c) shared \<Rightarrow> stage \<times> ('w, 'c) shared \<times> effects" where
  "step_identified E rq key sh =
     (let tc = tr_clocks rq
      in if is_expired (px_rfc3339 E) (tc_expiry tc) key
         then (Finished (Ret (error_reply 401 ''virtual key has expired'')), sh, rejection ''expired'')
         else
           (case vk_rate_limit_rps key of
              None \<Rightarrow> (Authorized key, sh, no_effects)
            | Some rps \<Rightarrow>
                (case rate_limiter_check (sh_limiter sh) (key_identifier key) rps (tc_bucket_new tc) (tc_consume tc) of
                   (rl, ok) \<Rightarrow>
                     if ok then (Authorized key, sh\<lparr>sh_limiter := rl\<rparr>, no_effects)
                     else (Finished (Ret (error_reply 429 ''rate limit exceeded'')), sh\<lparr>sh_limiter := rl\<rparr>,
                           rejection ''rate_limit''))))"

definition step_authorized ::
  "'c proxy_env \<Rightarrow> task_request \<Rightarrow> virtual_key \<Rightarrow> ('w, 'c) shared \<Rightarrow> stage \<times> ('w, 'c) shared \<times> effects" where
  "step_authorized E rq key sh =
     (case tr_route rq of
        ListModels \<Rightarrow> (Finished (Ret (proxy_list_models (view sh (sh_current sh)))), sh, no_effects)
      | Fallback \<Rightarrow> (Finished (Ret fallback_reply), sh, no_effects)
      | _ \<Rightarrow> (Loaded key (sh_current sh), sh,
               no_effects\<lparr>fx_spans := key_spans key (task_model E rq) (tr_headers rq)\<rparr>))"

definition step_loaded ::
  "'c proxy_env \<Rightarrow> task_request \<Rightarrow> virtual_key \<Rightarrow> nat \<Rightarrow> ('w, 'c) shared \<Rightarrow> stage \<times> ('w, 'c) shared \<times> effects" where
  "step_loaded E rq key i sh =
     (if \<not> allows_model key (task_model E rq) then
        (Finished (Ret (error_reply 403 ''virtual key is not allowed to use this model'')), sh,
         early_rejection ''forbidden_model'' 403 (tr_clocks rq))
      else if over_budget (view sh i) (tr_clocks rq) key then
        (Finished (Ret (error_reply 402 ''spend limit exceeded for this period'')), sh,
         early_rejection ''spend_limit'' 402 (tr_clocks rq))
      else (Checked key i, sh, no_effects))"

definition step_checked ::
  "'c proxy_env \<Rightarrow> task_request \<Rightarrow> virtual_key \<Rightarrow> nat \<Rightarrow> ('w, 'c) shared \<Rightarrow> stage \<times> ('w, 'c) shared \<times> effects" where
  "step_checked E rq key i sh =
     (case run_plugins (rn_plugins (sh_runtimes sh ! i)) (request_path (tr_route rq)) (task_model E rq) (tr_body rq)
             (sh_world sh) of
        (Inl rej, w) \<Rightarrow>
          (Finished (Ret (plugin_rejection_reply E (rej_info rej))), sh\<lparr>sh_world := w\<rparr>,
           plugin_rejection_effects key rej (tr_clocks rq))
      | (Inr body, w) \<Rightarrow> (Screened key i body, sh\<lparr>sh_world := w\<rparr>, no_effects))"

definition task_cache_key :: "'c proxy_env \<Rightarrow> task_request \<Rightarrow> virtual_key \<Rightarrow> bytes \<Rightarrow> string option" where
  "task_cache_key E rq key body =
     request_cache_key E key (tr_route rq) (task_model E rq) (request_stream E (tr_route rq) (tr_body rq))
       (tr_headers rq) body"

definition step_screened ::
  "'c proxy_env \<Rightarrow> task_request \<Rightarrow> virtual_key \<Rightarrow> nat \<Rightarrow> bytes \<Rightarrow> ('w, 'c) shared \<Rightarrow>
     stage \<times> ('w, 'c) shared \<times> effects" where
  "step_screened E rq key i body sh =
     (case cache_lookup E (view sh i) (task_cache_key E rq key body) of
        (Some cached, st) \<Rightarrow>
          (case serve_from_cache E (rn_pricing (ps_runtime st)) cached (tr_clocks rq) of
             (r, fx) \<Rightarrow> (Finished (Ret r), put_view sh i st, fx))
      | (None, st) \<Rightarrow> (Missed key i body, put_view sh i st, no_effects))"

definition step_missed ::
  "'c proxy_env \<Rightarrow> task_request \<Rightarrow> virtual_key \<Rightarrow> nat \<Rightarrow> bytes \<Rightarrow> ('w, 'c) shared \<Rightarrow>
     stage \<times> ('w, 'c) shared \<times> effects" where
  "step_missed E rq key i body sh =
     (case (if tr_route rq = Embeddings
            then ds_embeddings (rn_connector (sh_runtimes sh ! i)) \<lparr>eq_model = task_model E rq, eq_body = body\<rparr> (sh_world sh)
            else ds_chat (rn_connector (sh_runtimes sh ! i))
                   \<lparr>cq_model = task_model E rq, cq_stream = request_stream E (tr_route rq) (tr_body rq), cq_body = body\<rparr>
                   (sh_world sh)) of
        (result, evs, w) \<Rightarrow>
          let fx0 = no_effects\<lparr>fx_audit := evs\<rparr>; sh' = sh\<lparr>sh_world := w\<rparr>
          in case result of
               Ret (Inr upstream) \<Rightarrow> (Answered key i (task_cache_key E rq key body) upstream, sh', fx0)
             | Ret (Inl err) \<Rightarrow>
                 (case upstream_failure err (tr_clocks rq) of
                    (r, fx) \<Rightarrow> (Finished (Ret r), sh', fx_append fx0 fx))
             | Panic \<Rightarrow> (Finished Panic, sh', fx0))"

definition usage_attributes :: "proxy_route \<Rightarrow> chat_response \<Rightarrow> span_record list" where
  "usage_attributes r upstream =
     (case rs_usage upstream of
        None \<Rightarrow> []
      | Some u \<Rightarrow>
          if r = Embeddings then [(''gen_ai.usage.input_tokens'', SpanNat (unat (prompt_tokens u)))] else usage_spans u)"

definition step_answered ::
  "task_request \<Rightarrow> virtual_key \<Rightarrow> nat \<Rightarrow> string option \<Rightarrow> chat_response \<Rightarrow> ('w, 'c) shared \<Rightarrow>
     stage \<times> ('w, 'c) shared \<times> effects" where
  "step_answered rq key i ck upstream sh =
     (let cost = upstream_cost (view sh i) upstream
      in (Charged key i ck upstream, put_view sh i (charge (view sh i) (tr_clocks rq) key cost),
          completion_effects upstream (usage_attributes (tr_route rq) upstream) cost (tr_clocks rq)))"

definition step_charged ::
  "'c proxy_env \<Rightarrow> task_request \<Rightarrow> virtual_key \<Rightarrow> nat \<Rightarrow> string option \<Rightarrow> chat_response \<Rightarrow> ('w, 'c) shared \<Rightarrow>
     stage \<times> ('w, 'c) shared \<times> effects" where
  "step_charged E rq key i ck upstream sh =
     (let rt = sh_runtimes sh ! i
      in if (tr_route rq = Embeddings \<or> ck \<noteq> None) \<and> rn_cache rt \<noteq> None \<and> rs_status upstream = 200
         then (case store_and_reply E (view sh i) ck upstream of
                 (r, st) \<Rightarrow> (Finished (Ret r), put_view sh i st, no_effects))
         else
           let body =
                 (if request_stream E (tr_route rq) (tr_body rq)
                  then ObservedBody
                         (observer_new (rn_pricing rt) (key_identifier key) (vk_spend_limit key)
                            (rs_provider upstream) (rs_model upstream)) (rs_body upstream)
                  else StreamBody (rs_body upstream))
           in (Finished (Ret (build_response E (rs_status upstream) (rs_content_type upstream) body ''MISS'')), sh,
               no_effects))"

fun task_step ::
  "'c proxy_env \<Rightarrow> task_request \<Rightarrow> stage \<Rightarrow> ('w, 'c) shared \<Rightarrow> stage \<times> ('w, 'c) shared \<times> effects" where
  "task_step E rq Arrived sh =
     (if keystore_is_empty (sh_keys sh) then Identified anonymous else Guarded, sh, no_effects)"
| "task_step E rq Guarded sh =
     (case Option.bind (bearer_token (tr_headers rq)) (keystore_authenticate (px_crypto E) (sh_keys sh)) of
        None \<Rightarrow> (Finished (Ret unauthorized), sh, rejection ''auth'')
      | Some key \<Rightarrow> (Identified key, sh, no_effects))"
| "task_step E rq (Identified key) sh = step_identified E rq key sh"
| "task_step E rq (Authorized key) sh = step_authorized E rq key sh"
| "task_step E rq (Loaded key i) sh = step_loaded E rq key i sh"
| "task_step E rq (Checked key i) sh = step_checked E rq key i sh"
| "task_step E rq (Screened key i body) sh = step_screened E rq key i body sh"
| "task_step E rq (Missed key i body) sh = step_missed E rq key i body sh"
| "task_step E rq (Answered key i ck upstream) sh = step_answered rq key i ck upstream sh"
| "task_step E rq (Charged key i ck upstream) sh = step_charged E rq key i ck upstream sh"
| "task_step E rq (Finished r) sh = (Finished r, sh, no_effects)"

section \<open>A task on its own\<close>

fun run_task ::
  "'c proxy_env \<Rightarrow> task_request \<Rightarrow> nat \<Rightarrow> stage \<Rightarrow> ('w, 'c) shared \<Rightarrow> stage \<times> ('w, 'c) shared \<times> effects" where
  "run_task E rq 0 g sh = (g, sh, no_effects)"
| "run_task E rq (Suc n) g sh =
     (case task_step E rq g sh of
        (g', sh', fx) \<Rightarrow> (case run_task E rq n g' sh' of (g'', sh'', fx') \<Rightarrow> (g'', sh'', fx_append fx fx')))"

lemma fx_append_none [simp]: "fx_append no_effects fx = fx" "fx_append fx no_effects = fx"
  by (simp_all add: fx_append_def no_effects_def)

lemma fx_append_assoc [simp]: "fx_append (fx_append a b) c = fx_append a (fx_append b c)"
  by (simp add: fx_append_def)

lemma run_task_finished [simp]: "run_task E rq n (Finished r) sh = (Finished r, sh, no_effects)"
  by (induction n) simp_all

lemma run_task_numeral:
  "run_task E rq (numeral k) g sh =
     (case task_step E rq g sh of
        (g', sh', fx) \<Rightarrow> (case run_task E rq (pred_numeral k) g' sh' of (g'', sh'', fx') \<Rightarrow> (g'', sh'', fx_append fx fx')))"
  by (simp add: numeral_eq_Suc)

lemma view_simps [simp]:
  "ps_runtime (view sh i) = sh_runtimes sh ! i" "ps_keys (view sh i) = sh_keys sh"
  "ps_rate_limiter (view sh i) = sh_limiter sh" "ps_spend_tracker (view sh i) = sh_ledger sh"
  "view (sh\<lparr>sh_world := w\<rparr>) i = view sh i" "view (sh\<lparr>sh_limiter := rl\<rparr>) i = (view sh i)\<lparr>ps_rate_limiter := rl\<rparr>"
  by (simp_all add: view_def)

lemma put_view_simps [simp]:
  "put_view sh i (view sh i) = sh"
  "put_view (put_view sh i st) i st' = put_view sh i st'"
  "put_view (sh\<lparr>sh_world := w\<rparr>) i st = (put_view sh i st)\<lparr>sh_world := w\<rparr>"
  "(put_view sh i st)\<lparr>sh_world := sh_world sh\<rparr> = put_view sh i st"
  "sh_world (put_view sh i st) = sh_world sh" "sh_current (put_view sh i st) = sh_current sh"
  "length (sh_runtimes (put_view sh i st)) = length (sh_runtimes sh)"
  "i < length (sh_runtimes sh) \<Longrightarrow> view (put_view sh i st) i = st"
  "i < length (sh_runtimes sh) \<Longrightarrow> sh_runtimes (put_view sh i st) ! i = ps_runtime st"
  by (simp_all add: put_view_def view_def)

lemma put_view_limiter: "put_view sh i ((view sh i)\<lparr>ps_rate_limiter := rl\<rparr>) = sh\<lparr>sh_limiter := rl\<rparr>"
  by (simp add: put_view_def view_def)

lemma charge_runtime [simp]: "ps_runtime (charge st tc key cost) = ps_runtime st"
  by (simp add: charge_def split: option.split)

definition outcome :: "('w, 'c) shared \<Rightarrow> nat \<Rightarrow> reply exec \<times> ('w, 'c) proxy_state \<times> effects \<times> 'w \<Rightarrow>
    stage \<times> ('w, 'c) shared \<times> effects" where
  "outcome sh i x = (case x of (r, st, fx, w) \<Rightarrow> (Finished r, (put_view sh i st)\<lparr>sh_world := w\<rparr>, fx))"

lemma outcome_simps [simp]:
  "outcome sh i (r, st, fx, w) = (Finished r, (put_view sh i st)\<lparr>sh_world := w\<rparr>, fx)"
  "outcome (sh\<lparr>sh_limiter := rl\<rparr>) i x = outcome sh i x"
  by (simp_all add: outcome_def put_view_def split: prod.split)

lemma run_answered:
  assumes "i < length (sh_runtimes sh)" "tr_route rq = Embeddings \<Longrightarrow> ck \<noteq> None"
    and "request_stream E (tr_route rq) (tr_body rq) \<Longrightarrow> ck = None"
  shows "run_task E rq 2 (Answered key i ck upstream) sh =
    (case (if tr_route rq = Embeddings then embeddings_success E (view sh i) (tr_clocks rq) key ck upstream
           else chat_success E (view sh i) (tr_clocks rq) key (request_stream E (tr_route rq) (tr_body rq)) ck upstream) of
       (r, st, fx) \<Rightarrow> (Finished (Ret r), put_view sh i st, fx))"
  using assms
  by (auto simp: run_task_numeral step_answered_def step_charged_def embeddings_success_def chat_success_def Let_def
      usage_attributes_def split: prod.split option.split)

definition after :: "effects \<Rightarrow> stage \<times> ('w, 'c) shared \<times> effects \<Rightarrow> stage \<times> ('w, 'c) shared \<times> effects" where
  "after fx x = (case x of (g, sh, fx') \<Rightarrow> (g, sh, fx_append fx fx'))"

lemma after_simps [simp]: "after fx (g, sh, fx') = (g, sh, fx_append fx fx')" "after no_effects x = x"
  by (simp_all add: after_def split: prod.split)

lemma run_task_first:
  "task_step E rq g sh = (g', sh', fx) \<Longrightarrow> run_task E rq (Suc n) g sh = after fx (run_task E rq n g' sh')"
  by (simp add: after_def)

lemma run_task_Suc:
  "run_task E rq (Suc n) g sh = (case task_step E rq g sh of (g', sh', fx) \<Rightarrow> after fx (run_task E rq n g' sh'))"
  by (simp add: after_def)

lemma run_missed:
  assumes "i < length (sh_runtimes sh)"
  shows "run_task E rq 3 (Missed key i body) sh =
    outcome sh i (upstream_of E (view sh i) (tr_clocks rq) key (tr_route rq) (task_model E rq)
      (request_stream E (tr_route rq) (tr_body rq)) (task_cache_key E rq key body) body (sh_world sh))"
proof -
  obtain g sh' fx where s: "task_step E rq (Missed key i body) sh = (g, sh', fx)" by (rule prod_cases3)
  have ck: "tr_route rq = Embeddings \<Longrightarrow> task_cache_key E rq key body \<noteq> None"
    "request_stream E (tr_route rq) (tr_body rq) \<Longrightarrow> task_cache_key E rq key body = None"
    by (auto simp: task_cache_key_def request_cache_key_def request_stream_def)
  have answered: "run_task E rq 2 (Answered key i (task_cache_key E rq key body) up) (sh\<lparr>sh_world := w\<rparr>) =
    (case (if tr_route rq = Embeddings
           then embeddings_success E (view sh i) (tr_clocks rq) key (task_cache_key E rq key body) up
           else chat_success E (view sh i) (tr_clocks rq) key (request_stream E (tr_route rq) (tr_body rq))
                  (task_cache_key E rq key body) up) of
       (r, st, fx) \<Rightarrow> (Finished (Ret r), (put_view sh i st)\<lparr>sh_world := w\<rparr>, fx))" for up w
    using run_answered [of i "sh\<lparr>sh_world := w\<rparr>" rq "task_cache_key E rq key body" E key up] assms ck by simp
  have three: "(3::nat) = Suc 2" by simp
  have "after fx (run_task E rq 2 g sh') =
    outcome sh i (upstream_of E (view sh i) (tr_clocks rq) key (tr_route rq) (task_model E rq)
      (request_stream E (tr_route rq) (tr_body rq)) (task_cache_key E rq key body) body (sh_world sh))"
    using s assms
    by (auto simp: step_missed_def outcome_def upstream_of_def chat_upstream_def embeddings_upstream_def Let_def
        answered split: prod.splits exec.splits sum.splits if_splits)
  then show ?thesis unfolding three by (simp only: run_task_first [OF s])
qed

text \<open>The part of a handler from the gates on, the same for both endpoints.\<close>

definition handler_tail ::
  "'c proxy_env \<Rightarrow> ('w, 'c) proxy_state \<Rightarrow> task_request \<Rightarrow> virtual_key \<Rightarrow> 'w \<Rightarrow>
     reply exec \<times> ('w, 'c) proxy_state \<times> effects \<times> 'w" where
  "handler_tail E st rq key w =
     (case request_gates E st (tr_clocks rq) key (request_path (tr_route rq)) (task_model E rq) (tr_body rq) w of
        (Inl r, fx, w') \<Rightarrow> (Ret r, st, fx, w')
      | (Inr body, fx, w') \<Rightarrow>
          (case cache_lookup E st (task_cache_key E rq key body) of
             (Some cached, st') \<Rightarrow>
               (case serve_from_cache E (rn_pricing (ps_runtime st')) cached (tr_clocks rq) of
                  (r, fx') \<Rightarrow> (Ret r, st', fx', w'))
           | (None, st') \<Rightarrow>
               upstream_of E st' (tr_clocks rq) key (tr_route rq) (task_model E rq)
                 (request_stream E (tr_route rq) (tr_body rq)) (task_cache_key E rq key body) body w'))"

lemma run_screened:
  assumes "i < length (sh_runtimes sh)"
  shows "run_task E rq 4 (Screened key i body) sh =
    outcome sh i (case cache_lookup E (view sh i) (task_cache_key E rq key body) of
       (Some cached, st') \<Rightarrow>
         (case serve_from_cache E (rn_pricing (ps_runtime st')) cached (tr_clocks rq) of
            (r, fx') \<Rightarrow> (Ret r, st', fx', sh_world sh))
     | (None, st') \<Rightarrow>
         upstream_of E st' (tr_clocks rq) key (tr_route rq) (task_model E rq)
           (request_stream E (tr_route rq) (tr_body rq)) (task_cache_key E rq key body) body (sh_world sh))"
proof -
  obtain g sh' fx where s: "task_step E rq (Screened key i body) sh = (g, sh', fx)" by (rule prod_cases3)
  have four: "(4::nat) = Suc 3" by simp
  show ?thesis unfolding four run_task_first [OF s] using s assms
    by (auto simp: step_screened_def outcome_def run_missed split: prod.splits option.splits)
qed

lemma run_loaded:
  assumes "i < length (sh_runtimes sh)"
  shows "run_task E rq 6 (Loaded key i) sh = outcome sh i (handler_tail E (view sh i) rq key (sh_world sh))"
proof -
  obtain g sh' fx where s: "task_step E rq (Loaded key i) sh = (g, sh', fx)" by (rule prod_cases3)
  have six: "(6::nat) = Suc 5" and five: "(5::nat) = Suc 4" by simp_all
  have checked: "run_task E rq 5 (Checked key i) sh =
      outcome sh i (handler_tail E (view sh i) rq key (sh_world sh))"
    if "allows_model key (task_model E rq)" "\<not> over_budget (view sh i) (tr_clocks rq) key"
  proof -
    obtain g sh' fx where s: "task_step E rq (Checked key i) sh = (g, sh', fx)" by (rule prod_cases3)
    show ?thesis unfolding five run_task_first [OF s] using s assms that
      by (auto simp: step_checked_def outcome_def handler_tail_def request_gates_def run_screened
          split: prod.splits sum.splits option.splits)
  qed
  show ?thesis unfolding six run_task_first [OF s] using s assms checked
    by (auto simp: step_loaded_def outcome_def handler_tail_def request_gates_def split: if_splits)
qed

lemma task_of_chat:
  assumes "tr_route rq = ChatCompletions"
  shows "task_model E rq = unwrap_or (meta_model (unwrap_or (px_chat_meta E (tr_body rq)) \<lparr>meta_model = None, meta_stream = False\<rparr>)) []"
    and "request_stream E (tr_route rq) (tr_body rq) =
      meta_stream (unwrap_or (px_chat_meta E (tr_body rq)) \<lparr>meta_model = None, meta_stream = False\<rparr>)"
  using assms by (simp_all add: task_model_def request_model_def chat_model request_stream_def unwrap_or_def split: option.split)

lemma task_of_embeddings:
  assumes "tr_route rq = Embeddings"
  shows "task_model E rq = unwrap_or (emeta_model (unwrap_or (px_embeddings_meta E (tr_body rq)) \<lparr>emeta_model = None\<rparr>)) []"
    and "\<not> request_stream E (tr_route rq) (tr_body rq)"
  using assms by (simp_all add: task_model_def request_model_def embeddings_model request_stream_def unwrap_or_def split: option.split)

definition with_spans ::
  "'c proxy_env \<Rightarrow> task_request \<Rightarrow> virtual_key \<Rightarrow> 'r \<times> 's \<times> effects \<times> 'w \<Rightarrow> 'r \<times> 's \<times> effects \<times> 'w" where
  "with_spans E rq key x = (case x of (r, st, fx, w) \<Rightarrow>
     (r, st, fx_append (no_effects\<lparr>fx_spans := key_spans key (task_model E rq) (tr_headers rq)\<rparr>) fx, w))"

lemma chat_is_tail:
  assumes r: "tr_route rq = ChatCompletions"
  shows "chat_completions E st (tr_clocks rq) key (tr_headers rq) (tr_body rq) w = with_spans E rq key (handler_tail E st rq key w)"
  unfolding chat_completions_def handler_tail_def Let_def task_of_chat [OF r, symmetric]
  by (cases "request_stream E ChatCompletions (tr_body rq)") (simp_all add: r request_path_def task_cache_key_def request_cache_key_def upstream_of_def with_spans_def
      split: prod.split sum.split option.split)

lemma embeddings_is_tail:
  assumes r: "tr_route rq = Embeddings"
  shows "embeddings E st (tr_clocks rq) key (tr_headers rq) (tr_body rq) w = with_spans E rq key (handler_tail E st rq key w)"
  unfolding embeddings_def handler_tail_def Let_def task_of_embeddings(1) [OF r, symmetric]
  by (simp add: r request_stream_def request_path_def task_cache_key_def request_cache_key_def upstream_of_def with_spans_def
      split: prod.split sum.split option.split)

lemma outcome_with_spans:
  "outcome sh i (with_spans E rq key x) =
     after (no_effects\<lparr>fx_spans := key_spans key (task_model E rq) (tr_headers rq)\<rparr>) (outcome sh i x)"
  by (simp add: outcome_def with_spans_def split: prod.split)

lemma run_authorized:
  assumes "sh_current sh < length (sh_runtimes sh)"
  shows "run_task E rq 7 (Authorized key) sh =
    outcome sh (sh_current sh)
      (case tr_route rq of
         ChatCompletions \<Rightarrow>
           chat_completions E (view sh (sh_current sh)) (tr_clocks rq) key (tr_headers rq) (tr_body rq) (sh_world sh)
       | Embeddings \<Rightarrow>
           embeddings E (view sh (sh_current sh)) (tr_clocks rq) key (tr_headers rq) (tr_body rq) (sh_world sh)
       | ListModels \<Rightarrow> (Ret (proxy_list_models (view sh (sh_current sh))), view sh (sh_current sh), no_effects, sh_world sh)
       | Fallback \<Rightarrow> (Ret fallback_reply, view sh (sh_current sh), no_effects, sh_world sh))"
proof -
  obtain g sh' fx where s: "task_step E rq (Authorized key) sh = (g, sh', fx)" by (rule prod_cases3)
  have seven: "(7::nat) = Suc 6" by simp
  show ?thesis unfolding seven run_task_first [OF s] using s assms
    by (cases "tr_route rq")
      (auto simp: step_authorized_def run_loaded chat_is_tail embeddings_is_tail outcome_with_spans)
qed

lemma run_identified:
  assumes "sh_current sh < length (sh_runtimes sh)" and "identify E (sh_keys sh) (tr_headers rq) = Some key"
  shows "run_task E rq 8 (Identified key) sh =
    outcome sh (sh_current sh) (proxy_handle E (view sh (sh_current sh)) (tr_clocks rq) (tr_route rq) (tr_headers rq)
      (tr_body rq) (sh_world sh))"
proof -
  have eight: "(8::nat) = Suc 7" by simp
  have auth: "authenticate E (view sh (sh_current sh)) (tr_clocks rq) (tr_headers rq) =
      (if is_expired (px_rfc3339 E) (tc_expiry (tr_clocks rq)) key
       then (Inl (error_reply 401 ''virtual key has expired''), view sh (sh_current sh), rejection ''expired'')
       else
         case vk_rate_limit_rps key of
           None \<Rightarrow> (Inr key, view sh (sh_current sh), no_effects)
         | Some rps \<Rightarrow>
             (case rate_limiter_check (sh_limiter sh) (key_identifier key) rps (tc_bucket_new (tr_clocks rq))
                     (tc_consume (tr_clocks rq)) of
                (rl, ok) \<Rightarrow>
                  if ok then (Inr key, (view sh (sh_current sh))\<lparr>ps_rate_limiter := rl\<rparr>, no_effects)
                  else (Inl (error_reply 429 ''rate limit exceeded''), (view sh (sh_current sh))\<lparr>ps_rate_limiter := rl\<rparr>,
                        rejection ''rate_limit'')))"
    using assms(2) by (simp add: authenticate_def Let_def split: option.split prod.split)
  show ?thesis
  proof (cases "is_expired (px_rfc3339 E) (tc_expiry (tr_clocks rq)) key")
    case True
    then show ?thesis unfolding eight run_task_Suc proxy_handle_def auth
      by (auto simp: step_identified_def)
  next
    case False
    show ?thesis
    proof (cases "vk_rate_limit_rps key")
      case None
      with False assms(1) show ?thesis unfolding eight run_task_Suc proxy_handle_def auth
        by (simp add: step_identified_def run_authorized split: proxy_route.split)
    next
      case (Some rps)
      obtain rl ok where c: "rate_limiter_check (sh_limiter sh) (key_identifier key) rps (tc_bucket_new (tr_clocks rq))
          (tc_consume (tr_clocks rq)) = (rl, ok)" by fastforce
      let ?sh = "sh\<lparr>sh_limiter := rl\<rparr>"
      have step: "task_step E rq (Identified key) sh =
          (if ok then (Authorized key, ?sh, no_effects)
           else (Finished (Ret (error_reply 429 ''rate limit exceeded'')), ?sh, rejection ''rate_limit''))"
        using False Some c by (simp add: step_identified_def)
      have "sh_current ?sh < length (sh_runtimes ?sh)" using assms(1) by simp
      note authorized = run_authorized [OF this, of E rq key]
      show ?thesis
      proof (cases ok)
        case True
        with False Some c show ?thesis unfolding eight run_task_Suc proxy_handle_def auth step
          by (simp add: authorized del: task_step.simps split: proxy_route.split)
      next
        case False
        with \<open>\<not> is_expired _ _ _\<close> Some c show ?thesis unfolding eight run_task_Suc proxy_handle_def auth step
          by (simp add: put_view_limiter del: task_step.simps)
      qed
    qed
  qed
qed

lemma run_task_more:
  "run_task E rq n g sh = (Finished r, sh', fx) \<Longrightarrow> n \<le> m \<Longrightarrow> run_task E rq m g sh = (Finished r, sh', fx)"
proof (induction n arbitrary: m g sh fx)
  case (Suc n)
  obtain m' where m: "m = Suc m'" "n \<le> m'" using Suc.prems(2) by (cases m) auto
  obtain g1 sh1 fx1 where s: "task_step E rq g sh = (g1, sh1, fx1)" by (rule prod_cases3)
  obtain g2 sh2 fx2 where n: "run_task E rq n g1 sh1 = (g2, sh2, fx2)" by (rule prod_cases3)
  have "g2 = Finished r" "sh2 = sh'" "fx = fx_append fx1 fx2" using Suc.prems(1) by (simp_all add: s n)
  with Suc.IH [of g1 sh1 fx2 m'] n m show ?case by (simp add: s)
qed simp

text \<open>
  A request on its own is the sequential handler: when nothing else runs in between, the at most ten steps of
  a task give the reply, the state, the telemetry and the world of the handler, whatever the route, the key
  and the outcome.
\<close>

theorem task_alone_is_handler:
  assumes "sh_current sh < length (sh_runtimes sh)"
  shows "run_task E rq 10 Arrived sh =
    (case proxy_handle E (view sh (sh_current sh)) (tr_clocks rq) (tr_route rq) (tr_headers rq) (tr_body rq) (sh_world sh) of
       (r, st, fx, w) \<Rightarrow> (Finished r, (put_view sh (sh_current sh) st)\<lparr>sh_world := w\<rparr>, fx))"
proof -
  let ?h = "proxy_handle E (view sh (sh_current sh)) (tr_clocks rq) (tr_route rq) (tr_headers rq) (tr_body rq) (sh_world sh)"
  have ten: "(10::nat) = Suc 9" and nine: "(9::nat) = Suc 8" by simp_all
  have id: "run_task E rq n (Identified key) sh = outcome sh (sh_current sh) ?h"
    if "identify E (sh_keys sh) (tr_headers rq) = Some key" "8 \<le> n" for key n
  proof -
    obtain r st fx w where h: "?h = (r, st, fx, w)" by (rule prod_cases4)
    show ?thesis using run_task_more [OF _ that(2)] run_identified [OF assms that(1)] by (simp add: h)
  qed
  have guarded: "run_task E rq 9 Guarded sh = outcome sh (sh_current sh) ?h" if "\<not> keystore_is_empty (sh_keys sh)"
  proof -
    show ?thesis
    proof (cases "identify E (sh_keys sh) (tr_headers rq)")
      case None
      then show ?thesis unfolding nine run_task_Suc using that
        by (simp add: identify_def proxy_handle_def authenticate_def)
    next
      case (Some key)
      then show ?thesis unfolding nine run_task_Suc using that id [OF Some] by (simp add: identify_def)
    qed
  qed
  have "run_task E rq 10 Arrived sh = outcome sh (sh_current sh) ?h"
    unfolding ten run_task_Suc using guarded id [of anonymous 9]
    by (cases "keystore_is_empty (sh_keys sh)") (simp_all add: identify_def)
  then show ?thesis by (simp add: outcome_def)
qed

definition alone :: "(nat, (string \<times> cached_response) list) shared" where
  "alone = \<lparr>sh_keys = ps_keys example_state, sh_limiter = ps_rate_limiter example_state,
     sh_ledger = ps_spend_tracker example_state, sh_runtimes = [ps_runtime example_state], sh_current = 0, sh_world = 0\<rparr>"

theorem task_alone_is_handler_witness:
  "fst (run_task example_env \<lparr>tr_clocks = example_clocks, tr_route = ChatCompletions, tr_headers = example_headers, tr_body = []\<rparr>
          10 Arrived alone) =
   Finished (fst (proxy_handle example_env example_state example_clocks ChatCompletions example_headers [] 0))"
proof -
  have "view alone 0 = example_state" by (simp add: view_def alone_def)
  moreover have "sh_current alone = 0" "sh_world alone = 0" "sh_current alone < length (sh_runtimes alone)"
    by (simp_all add: alone_def)
  ultimately show ?thesis
    using task_alone_is_handler [of alone example_env
        "\<lparr>tr_clocks = example_clocks, tr_route = ChatCompletions, tr_headers = example_headers, tr_body = []\<rparr>"]
    by (simp split: prod.split)
qed

end
