(* ===== verification/Concurrency.thy ===== *)
theory Concurrency
  imports Tasks
begin

text \<open>
  The proxy under load: any number of requests at any stage, with the events that change the shared state
  under them: a new runtime, other keys, a revoked key's forgotten entries, and the items of streamed replies.
  What the sequential theories show of one handler at a time is shown here of every interleaving.
\<close>

section \<open>The pool of tasks\<close>

text \<open>A task remembers the key it authenticated as and the body its plugins left, the handler's locals.\<close>

record task =
  tk_request :: task_request
  tk_stage :: stage
  tk_key :: "virtual_key option"
  tk_screened :: "bytes option"
  tk_effects :: effects

record ('w, 'c) pool =
  sy_shared :: "('w, 'c) shared"
  sy_tasks :: "task list"

datatype ('w, 'c) pool_event =
    Spawn task_request
  | Advance nat
  | Poll nat utc "string + bytes"
  | Install "('w, 'c) runtime"
  | InsertKey virtual_key
  | RemoveKey string
  | ReplaceKeys "virtual_key list"
  | ForgetRate string
  | ForgetSpend string

fun stage_key :: "stage \<Rightarrow> virtual_key option" where
  "stage_key (Identified key) = Some key"
| "stage_key (Authorized key) = Some key"
| "stage_key (Loaded key i) = Some key"
| "stage_key (Checked key i) = Some key"
| "stage_key (Screened key i body) = Some key"
| "stage_key (Missed key i body) = Some key"
| "stage_key (Answered key i ck upstream) = Some key"
| "stage_key (Charged key i ck upstream) = Some key"
| "stage_key g = None"

fun stage_runtime :: "stage \<Rightarrow> nat option" where
  "stage_runtime (Loaded key i) = Some i"
| "stage_runtime (Checked key i) = Some i"
| "stage_runtime (Screened key i body) = Some i"
| "stage_runtime (Missed key i body) = Some i"
| "stage_runtime (Answered key i ck upstream) = Some i"
| "stage_runtime (Charged key i ck upstream) = Some i"
| "stage_runtime g = None"

definition task_new :: "task_request \<Rightarrow> task" where
  "task_new rq = \<lparr>tk_request = rq, tk_stage = Arrived, tk_key = None, tk_screened = None, tk_effects = no_effects\<rparr>"

definition advance :: "'c proxy_env \<Rightarrow> task \<Rightarrow> ('w, 'c) shared \<Rightarrow> task \<times> ('w, 'c) shared" where
  "advance E tk sh =
     (case task_step E (tk_request tk) (tk_stage tk) sh of
        (g, sh', fx) \<Rightarrow>
          (tk\<lparr>tk_stage := g,
              tk_key := (case stage_key g of Some key \<Rightarrow> Some key | None \<Rightarrow> tk_key tk),
              tk_screened := (case g of Screened key i body \<Rightarrow> Some body | _ \<Rightarrow> tk_screened tk),
              tk_effects := fx_append (tk_effects tk) fx\<rparr>, sh'))"

text \<open>The next item of a streamed reply passes the observer, which may charge the ledger.\<close>

definition poll :: "'c proxy_env \<Rightarrow> utc \<Rightarrow> (string + bytes) \<Rightarrow> task \<Rightarrow> ('w, 'c) shared \<Rightarrow> task \<times> ('w, 'c) shared" where
  "poll E now item tk sh =
     (case tk_stage tk of
        Finished (Ret rep) \<Rightarrow>
          (case rp_body rep of
             ObservedBody ob body \<Rightarrow>
               (case observer_poll (px_json E) now ob (sh_ledger sh) item of
                  (ob', ledger, spans, out) \<Rightarrow>
                    (tk\<lparr>tk_stage := Finished (Ret (rep\<lparr>rp_body := ObservedBody ob' body\<rparr>)),
                        tk_effects := fx_append (tk_effects tk) (no_effects\<lparr>fx_spans := spans\<rparr>)\<rparr>,
                     sh\<lparr>sh_ledger := ledger\<rparr>))
           | _ \<Rightarrow> (tk, sh))
      | _ \<Rightarrow> (tk, sh))"

definition on_task ::
  "(task \<Rightarrow> ('w, 'c) shared \<Rightarrow> task \<times> ('w, 'c) shared) \<Rightarrow> nat \<Rightarrow> ('w, 'c) pool \<Rightarrow> ('w, 'c) pool" where
  "on_task f j s =
     (if j < length (sy_tasks s) then
        (case f (sy_tasks s ! j) (sy_shared s) of
           (tk, sh) \<Rightarrow> \<lparr>sy_shared = sh, sy_tasks = (sy_tasks s)[j := tk]\<rparr>)
      else s)"

definition install :: "('w, 'c) runtime \<Rightarrow> ('w, 'c) shared \<Rightarrow> ('w, 'c) shared" where
  "install rt sh = sh\<lparr>sh_runtimes := sh_runtimes sh @ [rt], sh_current := length (sh_runtimes sh)\<rparr>"

fun pool_step :: "'c proxy_env \<Rightarrow> ('w, 'c) pool \<Rightarrow> ('w, 'c) pool_event \<Rightarrow> ('w, 'c) pool" where
  "pool_step E s (Spawn rq) = s\<lparr>sy_tasks := sy_tasks s @ [task_new rq]\<rparr>"
| "pool_step E s (Advance j) = on_task (advance E) j s"
| "pool_step E s (Poll j now item) = on_task (poll E now item) j s"
| "pool_step E s (Install rt) = s\<lparr>sy_shared := install rt (sy_shared s)\<rparr>"
| "pool_step E s (InsertKey key) =
     s\<lparr>sy_shared := (sy_shared s)\<lparr>sh_keys := keystore_insert (sh_keys (sy_shared s)) key\<rparr>\<rparr>"
| "pool_step E s (RemoveKey kid) =
     s\<lparr>sy_shared := (sy_shared s)\<lparr>sh_keys := fst (keystore_remove_by_id (sh_keys (sy_shared s)) kid)\<rparr>\<rparr>"
| "pool_step E s (ReplaceKeys keys) =
     s\<lparr>sy_shared := (sy_shared s)\<lparr>sh_keys := keystore_replace_all (sh_keys (sy_shared s)) keys\<rparr>\<rparr>"
| "pool_step E s (ForgetRate k) =
     s\<lparr>sy_shared := (sy_shared s)\<lparr>sh_limiter := rate_limiter_forget (sh_limiter (sy_shared s)) k\<rparr>\<rparr>"
| "pool_step E s (ForgetSpend k) =
     s\<lparr>sy_shared := (sy_shared s)\<lparr>sh_ledger := spend_forget (sh_ledger (sy_shared s)) k\<rparr>\<rparr>"

definition pool_run :: "'c proxy_env \<Rightarrow> ('w, 'c) pool \<Rightarrow> ('w, 'c) pool_event list \<Rightarrow> ('w, 'c) pool" where
  "pool_run E s es = fold (\<lambda>e s. pool_step E s e) es s"

lemma pool_run_simps [simp]:
  "pool_run E s [] = s" "pool_run E s (e # es) = pool_run E (pool_step E s e) es"
  by (simp_all add: pool_run_def)

abbreviation stage_at :: "('w, 'c) pool \<Rightarrow> nat \<Rightarrow> stage" where
  "stage_at s j \<equiv> tk_stage (sy_tasks s ! j)"

section \<open>Progress\<close>

text \<open>How many steps a stage is from the end, at most.\<close>

fun steps_left :: "stage \<Rightarrow> nat" where
  "steps_left Arrived = 10"
| "steps_left Guarded = 9"
| "steps_left (Identified key) = 8"
| "steps_left (Authorized key) = 7"
| "steps_left (Loaded key i) = 6"
| "steps_left (Checked key i) = 5"
| "steps_left (Screened key i body) = 4"
| "steps_left (Missed key i body) = 3"
| "steps_left (Answered key i ck upstream) = 2"
| "steps_left (Charged key i ck upstream) = 1"
| "steps_left (Finished r) = 0"

lemma steps_left_zero: "steps_left g = 0 \<longleftrightarrow> (\<exists>r. g = Finished r)"
  by (cases g) simp_all

lemmas step_defs = step_identified_def step_authorized_def step_loaded_def step_checked_def step_screened_def
  step_missed_def step_answered_def step_charged_def

lemma task_step_left:
  assumes "task_step E rq g sh = (g', sh', fx)"
  shows "steps_left g' \<le> steps_left g - 1"
  using assms
  by (cases g) (auto simp: step_defs Let_def split: if_splits option.splits prod.splits sum.splits exec.splits proxy_route.splits)

text \<open>One event at one task.\<close>

lemma on_task_length [simp]: "length (sy_tasks (on_task f j s)) = length (sy_tasks s)"
  by (simp add: on_task_def split: prod.split)

lemma on_task_nth:
  "k < length (sy_tasks s) \<Longrightarrow>
     sy_tasks (on_task f j s) ! k = (if k = j then fst (f (sy_tasks s ! j) (sy_shared s)) else sy_tasks s ! k)"
  by (simp add: on_task_def split: prod.split)

lemma on_task_shared:
  "sy_shared (on_task f j s) = (if j < length (sy_tasks s) then snd (f (sy_tasks s ! j) (sy_shared s)) else sy_shared s)"
  by (simp add: on_task_def split: prod.split)

lemma pool_step_length: "length (sy_tasks s) \<le> length (sy_tasks (pool_step E s e))"
  by (cases e) simp_all

lemma pool_run_length: "length (sy_tasks s) \<le> length (sy_tasks (pool_run E s es))"
  by (induction es arbitrary: s) (auto intro: order_trans [OF pool_step_length])

lemma advance_stage: "tk_stage (fst (advance E tk sh)) = fst (task_step E (tk_request tk) (tk_stage tk) sh)"
  by (simp add: advance_def split: prod.split)

lemma advance_shared: "snd (advance E tk sh) = fst (snd (task_step E (tk_request tk) (tk_stage tk) sh))"
  by (simp add: advance_def split: prod.split)

lemma poll_left [simp]: "steps_left (tk_stage (fst (poll E now item tk sh))) = steps_left (tk_stage tk)"
  by (simp add: poll_def split: stage.split exec.split reply_body.split prod.split)

lemma pool_step_left:
  assumes "j < length (sy_tasks s)"
  shows "steps_left (stage_at (pool_step E s e) j) \<le> steps_left (stage_at s j) - (if e = Advance j then 1 else 0)"
proof (cases e)
  case (Advance k)
  have "steps_left (tk_stage (fst (advance E (sy_tasks s ! j) (sy_shared s)))) \<le> steps_left (stage_at s j) - 1"
    using task_step_left [of E "tk_request (sy_tasks s ! j)" "stage_at s j" "sy_shared s"]
    by (auto simp: advance_stage split: prod.split) (metis fst_conv prod_cases3)
  with Advance assms show ?thesis by (simp add: on_task_nth)
qed (use assms in \<open>simp_all add: on_task_nth nth_append\<close>)

lemma pool_run_left:
  "j < length (sy_tasks s) \<Longrightarrow>
     steps_left (stage_at (pool_run E s es) j) \<le> steps_left (stage_at s j) - count_list es (Advance j)"
proof (induction es arbitrary: s)
  case (Cons e es)
  have "j < length (sy_tasks (pool_step E s e))" using Cons.prems pool_step_length order_less_le_trans by blast
  from Cons.IH [OF this] pool_step_left [OF Cons.prems, of E e] show ?case by (auto split: if_splits)
qed simp

lemma steps_left_bound: "steps_left g \<le> 10"
  by (cases g) simp_all

text \<open>
  A handler takes at most ten steps: whatever the other tasks do, and whatever is reloaded or revoked meanwhile, a
  request has its reply once it has been given ten steps of its own.
\<close>

theorem every_request_finishes:
  assumes "j < length (sy_tasks s)" and "10 \<le> count_list es (Advance j)"
  shows "\<exists>r. stage_at (pool_run E s es) j = Finished r"
proof -
  have "steps_left (stage_at (pool_run E s es) j) \<le> steps_left (stage_at s j) - count_list es (Advance j)"
    by (rule pool_run_left [OF assms(1)])
  with steps_left_bound [of "stage_at s j"] assms(2) have "steps_left (stage_at (pool_run E s es) j) = 0" by linarith
  then show ?thesis by (simp add: steps_left_zero)
qed

section \<open>The runtime a request holds\<close>

definition same_bundle :: "('w, 'c) runtime \<Rightarrow> ('w, 'c) runtime \<Rightarrow> bool" where
  "same_bundle a b \<longleftrightarrow> rn_connector b = rn_connector a \<and> rn_pricing b = rn_pricing a \<and> rn_plugins b = rn_plugins a \<and>
     rn_models b = rn_models a \<and> (rn_cache b = None \<longleftrightarrow> rn_cache a = None)"

lemma same_bundle_refl [simp]: "same_bundle a a"
  by (simp add: same_bundle_def)

lemma same_bundle_trans: "same_bundle a b \<Longrightarrow> same_bundle b c \<Longrightarrow> same_bundle a c"
  by (simp add: same_bundle_def)

lemma cache_lookup_bundle:
  "cache_lookup E st ck = (r, st') \<Longrightarrow> same_bundle (ps_runtime st) (ps_runtime st') \<and> ps_keys st' = ps_keys st \<and>
     ps_rate_limiter st' = ps_rate_limiter st \<and> ps_spend_tracker st' = ps_spend_tracker st"
  by (auto simp: cache_lookup_def same_bundle_def split: option.splits prod.splits)

lemma store_and_reply_bundle:
  "store_and_reply E st ck up = (r, st') \<Longrightarrow> same_bundle (ps_runtime st) (ps_runtime st') \<and> ps_keys st' = ps_keys st \<and>
     ps_rate_limiter st' = ps_rate_limiter st \<and> ps_spend_tracker st' = ps_spend_tracker st"
  by (auto simp: store_and_reply_def cache_store_def same_bundle_def Let_def split: option.splits sum.splits)

text \<open>What no step of a task changes: the keys, which runtime is current, and anything of a runtime but its cache.\<close>

definition shared_frame :: "('w, 'c) shared \<Rightarrow> ('w, 'c) shared \<Rightarrow> bool" where
  "shared_frame sh sh' \<longleftrightarrow> sh_keys sh' = sh_keys sh \<and> sh_current sh' = sh_current sh \<and>
     length (sh_runtimes sh') = length (sh_runtimes sh) \<and>
     (\<forall>k < length (sh_runtimes sh). same_bundle (sh_runtimes sh ! k) (sh_runtimes sh' ! k))"

lemma shared_frame_same [simp]:
  "shared_frame sh sh" "shared_frame sh (sh\<lparr>sh_limiter := rl\<rparr>)" "shared_frame sh (sh\<lparr>sh_world := w\<rparr>)"
  "shared_frame sh (sh\<lparr>sh_ledger := st\<rparr>)"
  by (simp_all add: shared_frame_def)

lemma shared_frame_put_view:
  "same_bundle (sh_runtimes sh ! i) (ps_runtime st) \<Longrightarrow> ps_keys st = sh_keys sh \<Longrightarrow> shared_frame sh (put_view sh i st)"
  by (auto simp: shared_frame_def put_view_def)
    (metis nth_list_update_eq nth_list_update_neq same_bundle_refl)

lemma charge_keys [simp]: "ps_keys (charge st tc key cost) = ps_keys st"
  by (simp add: charge_def split: option.split)

lemma step_screened_frame: "step_screened E rq key i body sh = (g', sh', fx) \<Longrightarrow> shared_frame sh sh'"
  by (auto simp: step_screened_def split: prod.splits option.splits
      dest!: cache_lookup_bundle intro!: shared_frame_put_view)

lemma step_charged_frame: "step_charged E rq key i ck up sh = (g', sh', fx) \<Longrightarrow> shared_frame sh sh'"
  by (auto simp: step_charged_def Let_def split: prod.splits if_splits
      dest!: store_and_reply_bundle intro!: shared_frame_put_view)

lemma step_answered_frame: "step_answered rq key i ck up sh = (g', sh', fx) \<Longrightarrow> shared_frame sh sh'"
  by (auto simp: step_answered_def Let_def intro!: shared_frame_put_view)

lemma task_step_frame:
  assumes "task_step E rq g sh = (g', sh', fx)"
  shows "shared_frame sh sh'"
proof (cases g)
  case (Identified key)
  with assms show ?thesis by (auto simp: step_identified_def Let_def split: if_splits option.splits prod.splits)
next
  case (Authorized key)
  with assms show ?thesis by (auto simp: step_authorized_def split: proxy_route.splits)
next
  case (Checked key i)
  with assms show ?thesis by (auto simp: step_checked_def split: sum.splits prod.splits)
next
  case (Missed key i body)
  with assms show ?thesis by (auto simp: step_missed_def Let_def split: prod.splits exec.splits sum.splits)
qed (use assms in \<open>auto simp: step_loaded_def split: if_splits option.splits
    dest: step_screened_frame step_charged_frame step_answered_frame\<close>)

lemma task_step_runtime:
  assumes "task_step E rq g sh = (g', sh', fx)"
  shows "stage_runtime g' = None \<or> stage_runtime g' = stage_runtime g \<or>
    stage_runtime g = None \<and> stage_runtime g' = Some (sh_current sh)"
  using assms
  by (cases g) (auto simp: step_defs Let_def split: if_splits option.splits prod.splits sum.splits exec.splits proxy_route.splits)

lemma task_step_key:
  assumes "task_step E rq g sh = (g', sh', fx)"
  shows "stage_key g = None \<or> stage_key g' = None \<or> stage_key g' = stage_key g"
  using assms
  by (cases g) (auto simp: step_defs Let_def split: if_splits option.splits prod.splits sum.splits exec.splits proxy_route.splits)

lemma poll_frame: "shared_frame sh (snd (poll E now item tk sh))"
  by (simp add: poll_def split: stage.split exec.split reply_body.split prod.split)

lemma poll_runtime: "stage_runtime (tk_stage (fst (poll E now item tk sh))) = stage_runtime (tk_stage tk)"
  by (simp add: poll_def split: stage.split exec.split reply_body.split prod.split)

lemma advance_frame: "shared_frame sh (snd (advance E tk sh))"
  by (simp add: advance_def split: prod.split) (use task_step_frame in blast)

text \<open>Over any event the runtimes installed so far stay, up to their caches, and keep their positions.\<close>

lemma pool_step_runtimes:
  assumes "i < length (sh_runtimes (sy_shared s))"
  shows "i < length (sh_runtimes (sy_shared (pool_step E s e))) \<and>
    same_bundle (sh_runtimes (sy_shared s) ! i) (sh_runtimes (sy_shared (pool_step E s e)) ! i)"
  using assms advance_frame [of "sy_shared s" E] poll_frame [of "sy_shared s" E]
  by (cases e) (auto simp: on_task_shared install_def nth_append shared_frame_def)

lemma pool_step_held:
  assumes "j < length (sy_tasks s)" and "stage_runtime (stage_at s j) = Some i"
  shows "stage_runtime (stage_at (pool_step E s e) j) = Some i \<or> stage_runtime (stage_at (pool_step E s e) j) = None \<and>
    steps_left (stage_at (pool_step E s e) j) = 0"
proof (cases "e = Advance j")
  case True
  have "stage_runtime g' = Some i \<or> stage_runtime g' = None \<and> steps_left g' = 0"
    if "task_step E (tk_request (sy_tasks s ! j)) (stage_at s j) (sy_shared s) = (g', sh', fx)" for g' sh' fx
    using that assms(2)
    by (cases "stage_at s j") (auto simp: step_defs Let_def
        split: if_splits option.splits prod.splits sum.splits exec.splits proxy_route.splits)
  with True assms(1) show ?thesis by (simp add: on_task_nth advance_stage) (metis prod_cases3 fst_conv)
next
  case False
  with assms show ?thesis by (cases e) (auto simp: on_task_nth nth_append poll_runtime)
qed

lemma pool_run_runtimes:
  "i < length (sh_runtimes (sy_shared s)) \<Longrightarrow>
     i < length (sh_runtimes (sy_shared (pool_run E s es))) \<and>
     same_bundle (sh_runtimes (sy_shared s) ! i) (sh_runtimes (sy_shared (pool_run E s es)) ! i)"
proof (induction es arbitrary: s)
  case (Cons e es)
  from pool_step_runtimes [OF Cons.prems, of E e] Cons.IH [of "pool_step E s e"] show ?case
    by (auto intro: same_bundle_trans)
qed simp

lemma pool_run_held:
  "j < length (sy_tasks s) \<Longrightarrow> stage_runtime (stage_at s j) = Some i \<Longrightarrow>
     stage_runtime (stage_at (pool_run E s es) j) = Some i \<or> (\<exists>r. stage_at (pool_run E s es) j = Finished r)"
proof (induction es arbitrary: s)
  case (Cons e es)
  have j: "j < length (sy_tasks (pool_step E s e))" using Cons.prems(1) pool_step_length order_less_le_trans by blast
  show ?case
  proof (cases "stage_runtime (stage_at (pool_step E s e) j) = Some i")
    case True
    with Cons.IH [OF j] show ?thesis by simp
  next
    case False
    with pool_step_held [OF Cons.prems, of E e] have "steps_left (stage_at (pool_step E s e) j) = 0" by simp
    with pool_run_left [OF j, of E es] have "steps_left (stage_at (pool_run E (pool_step E s e) es) j) = 0" by simp
    then show ?thesis by (simp add: steps_left_zero)
  qed
qed simp

text \<open>The shared state as it would be with other runtimes, of which another one is current.\<close>

definition with_runtimes :: "('w, 'c) runtime list \<Rightarrow> nat \<Rightarrow> ('w, 'c) shared \<Rightarrow> ('w, 'c) shared" where
  "with_runtimes rs c sh = sh\<lparr>sh_runtimes := rs, sh_current := c\<rparr>"

lemma with_runtimes_simps [simp]:
  "sh_keys (with_runtimes rs c sh) = sh_keys sh" "sh_limiter (with_runtimes rs c sh) = sh_limiter sh"
  "sh_ledger (with_runtimes rs c sh) = sh_ledger sh" "sh_world (with_runtimes rs c sh) = sh_world sh"
  "sh_runtimes (with_runtimes rs c sh) = rs" "with_runtimes rs c (sh\<lparr>sh_world := w\<rparr>) = (with_runtimes rs c sh)\<lparr>sh_world := w\<rparr>"
  by (simp_all add: with_runtimes_def)

lemma view_with_runtimes: "rs ! i = sh_runtimes sh ! i \<Longrightarrow> view (with_runtimes rs c sh) i = view sh i"
  by (simp add: view_def)

lemma put_view_with_runtimes:
  "i < length (sh_runtimes sh) \<Longrightarrow>
     put_view (with_runtimes rs c sh) i st = with_runtimes (rs[i := sh_runtimes (put_view sh i st) ! i]) c (put_view sh i st)"
  by (simp add: put_view_def with_runtimes_def)

lemma with_runtimes_same: "rs ! i = sh_runtimes sh ! i \<Longrightarrow> rs[i := sh_runtimes sh ! i] = rs"
  by (metis list_update_id)

text \<open>A handler that holds runtime \<open>i\<close> reads no other, and its step does the same whatever the others are.\<close>

lemma task_step_reads_held:
  assumes "stage_runtime g = Some i" "i < length (sh_runtimes sh)" "rs ! i = sh_runtimes sh ! i"
    and "task_step E rq g sh = (g', sh', fx)"
  shows "task_step E rq g (with_runtimes rs c sh) = (g', with_runtimes (rs[i := sh_runtimes sh' ! i]) c sh', fx)"
  using assms
  by (cases g) (auto simp: step_loaded_def step_checked_def step_screened_def step_missed_def step_answered_def
      step_charged_def Let_def with_runtimes_same view_with_runtimes put_view_with_runtimes
      split: if_splits option.splits prod.splits sum.splits exec.splits)

lemma advance_reads_held:
  assumes "stage_runtime (tk_stage tk) = Some i \<or> (\<exists>r. tk_stage tk = Finished r)"
    and "i < length (sh_runtimes sh)" "rs ! i = sh_runtimes sh ! i" "advance E tk sh = (tk', sh')"
  shows "advance E tk (with_runtimes rs c sh) = (tk', with_runtimes (rs[i := sh_runtimes sh' ! i]) c sh')"
  using assms(1)
proof
  assume g: "stage_runtime (tk_stage tk) = Some i"
  obtain g' sh1 fx where "task_step E (tk_request tk) (tk_stage tk) sh = (g', sh1, fx)" by (rule prod_cases3)
  with task_step_reads_held [OF g assms(2,3) this, of c] assms(4) show ?thesis by (simp add: advance_def)
next
  assume "\<exists>r. tk_stage tk = Finished r"
  with assms(3,4) with_runtimes_same [of rs i sh] show ?thesis by (auto simp: advance_def)
qed

text \<open>
  C9. A reload does not reach a request in flight: from the moment a handler has loaded its runtime until it replies
  it holds that runtime, no event changes the connectors, prices, plugins or models of it, and at every point
  of every interleaving the handler's next step - its plugins, its lookup, its call upstream, its charge, its
  reply - is the one it would take if the other runtimes, the one now current among them, were any others.
\<close>

theorem request_keeps_its_runtime:
  assumes "j < length (sy_tasks s)" and "stage_runtime (stage_at s j) = Some i"
    and "i < length (sh_runtimes (sy_shared s))"
  shows "let s' = pool_run E s es; sh = sy_shared s'; rt = sh_runtimes (sy_shared s) ! i; rt' = sh_runtimes sh ! i
    in (stage_runtime (stage_at s' j) = Some i \<or> (\<exists>r. stage_at s' j = Finished r)) \<and>
       rn_connector rt' = rn_connector rt \<and> rn_pricing rt' = rn_pricing rt \<and> rn_plugins rt' = rn_plugins rt \<and>
       rn_models rt' = rn_models rt \<and>
       (\<forall>rs c tk sh'. rs ! i = rt' \<longrightarrow> advance E (sy_tasks s' ! j) sh = (tk, sh') \<longrightarrow>
          advance E (sy_tasks s' ! j) (sh\<lparr>sh_runtimes := rs, sh_current := c\<rparr>) =
            (tk, sh'\<lparr>sh_runtimes := rs[i := sh_runtimes sh' ! i], sh_current := c\<rparr>))"
proof -
  note held = pool_run_held [OF assms(1,2), of E es] and rts = pool_run_runtimes [OF assms(3), of E es]
  with advance_reads_held [OF held, of "sy_shared (pool_run E s es)" _ E] show ?thesis
    by (simp add: same_bundle_def with_runtimes_def Let_def)
qed

section \<open>The invariant of the pool\<close>

text \<open>As for the process, totals are amounts under the condition \<open>b\<close> that the prices in use are.\<close>

definition shared_ok :: "bool \<Rightarrow> ('w, 'c) shared \<Rightarrow> bool" where
  "shared_ok b sh \<longleftrightarrow> keystore_wf (sh_keys sh) \<and> rate_limiter_ok (sh_limiter sh) \<and> table_wf (sh_ledger sh) \<and>
     sh_current sh < length (sh_runtimes sh) \<and>
     (b \<longrightarrow> spend_tracker_ok (sh_ledger sh) \<and> (\<forall>i < length (sh_runtimes sh). pricing_ok (rn_pricing (sh_runtimes sh ! i))))"

fun observer_of :: "stage \<Rightarrow> usage_observer option" where
  "observer_of (Finished (Ret rep)) = (case rp_body rep of ObservedBody ob body \<Rightarrow> Some ob | _ \<Rightarrow> None)"
| "observer_of g = None"

definition stage_ok :: "bool \<Rightarrow> ('w, 'c) shared \<Rightarrow> stage \<Rightarrow> bool" where
  "stage_ok b sh g \<longleftrightarrow> (\<forall>i. stage_runtime g = Some i \<longrightarrow> i < length (sh_runtimes sh)) \<and>
     (b \<longrightarrow> (\<forall>ob. observer_of g = Some ob \<longrightarrow> pricing_ok (ob_pricing ob)))"

definition pool_ok :: "bool \<Rightarrow> ('w, 'c) pool \<Rightarrow> bool" where
  "pool_ok b s \<longleftrightarrow> shared_ok b (sy_shared s) \<and> (\<forall>tk \<in> set (sy_tasks s). stage_ok b (sy_shared s) (tk_stage tk))"

text \<open>An installed runtime states finite non-negative prices.\<close>

fun event_priced :: "('w, 'c) pool_event \<Rightarrow> bool" where
  "event_priced (Install rt) = pricing_ok (rn_pricing rt)"
| "event_priced e = True"

lemma view_ok: "shared_ok b sh \<Longrightarrow> i < length (sh_runtimes sh) \<Longrightarrow> proxy_ok b (view sh i)"
  by (simp add: shared_ok_def proxy_ok_def)

lemma shared_ok_frame:
  "shared_ok b sh \<Longrightarrow> shared_frame sh sh' \<Longrightarrow> rate_limiter_ok (sh_limiter sh') \<Longrightarrow> table_wf (sh_ledger sh') \<Longrightarrow>
     (b \<Longrightarrow> spend_tracker_ok (sh_ledger sh')) \<Longrightarrow> shared_ok b sh'"
  by (simp add: shared_ok_def shared_frame_def same_bundle_def)

text \<open>Only the rate limit changes the limiter and only the charge the ledger.\<close>

lemma task_step_limiter:
  assumes "task_step E rq g sh = (g', sh', fx)" "rate_limiter_ok (sh_limiter sh)"
  shows "rate_limiter_ok (sh_limiter sh')"
proof (cases g)
  case (Identified key)
  have "rate_limiter_ok rl" if "rate_limiter_check (sh_limiter sh) k rps a b = (rl, ok)" for k rps a b rl ok
    using rate_limiter_ok_check [OF assms(2), of k rps a b] that by simp
  with Identified assms show ?thesis
    by (auto simp: step_identified_def Let_def split: if_splits option.splits prod.splits)
next
  case (Screened key i body)
  with assms show ?thesis
    by (auto simp: step_screened_def put_view_def split: option.splits prod.splits dest!: cache_lookup_bundle)
next
  case (Charged key i ck up)
  with assms show ?thesis
    by (auto simp: step_charged_def put_view_def Let_def split: if_splits prod.splits dest!: store_and_reply_bundle)
next
  case (Answered key i ck up)
  with assms show ?thesis by (auto simp: step_answered_def put_view_def charge_def Let_def split: option.splits)
qed (use assms in \<open>auto simp: step_authorized_def step_loaded_def step_checked_def step_missed_def Let_def
    split: if_splits option.splits prod.splits sum.splits exec.splits proxy_route.splits\<close>)

lemma task_step_ledger:
  assumes "task_step E rq g sh = (g', sh', fx)"
  shows "sh_ledger sh' =
    (case g of
       Answered key i ck up \<Rightarrow>
         ps_spend_tracker (charge (view sh i) (tr_clocks rq) key (upstream_cost (view sh i) up))
     | _ \<Rightarrow> sh_ledger sh)"
proof (cases g)
  case (Screened key i body)
  with assms show ?thesis
    by (auto simp: step_screened_def put_view_def split: option.splits prod.splits dest!: cache_lookup_bundle)
next
  case (Charged key i ck up)
  with assms show ?thesis
    by (auto simp: step_charged_def put_view_def Let_def split: if_splits prod.splits dest!: store_and_reply_bundle)
next
  case (Answered key i ck up)
  with assms show ?thesis by (auto simp: step_answered_def put_view_def Let_def)
qed (use assms in \<open>auto simp: step_identified_def step_authorized_def step_loaded_def step_checked_def step_missed_def Let_def
    split: if_splits option.splits prod.splits sum.splits exec.splits proxy_route.splits\<close>)

lemma task_step_observer:
  assumes "task_step E rq g sh = (g', sh', fx)" and "observer_of g' = Some ob"
  shows "observer_of g = Some ob \<or>
    (\<exists>key i ck up. g = Charged key i ck up \<and> ob = observer_new (rn_pricing (sh_runtimes sh ! i)) (key_identifier key)
       (vk_spend_limit key) (rs_provider up) (rs_model up))"
  using assms
  by (cases g) (auto simp: step_defs Let_def error_reply_def unauthorized_def build_response_def upstream_failure_def
      upstream_error_response_def proxy_list_models_def fallback_reply_def plugin_rejection_reply_def serve_from_cache_def
      store_and_reply_def
      split: if_splits option.splits prod.splits sum.splits exec.splits proxy_route.splits)

lemma task_step_ok:
  assumes "task_step E rq g sh = (g', sh', fx)" and ok: "shared_ok b sh" "stage_ok b sh g"
  shows "shared_ok b sh' \<and> stage_ok b sh' g'"
proof
  note frame = task_step_frame [OF assms(1)]
  have "table_wf (sh_ledger sh') \<and> (b \<longrightarrow> spend_tracker_ok (sh_ledger sh'))"
  proof (cases "\<exists>key i ck up. g = Answered key i ck up")
    case True
    then obtain key i ck up where g: "g = Answered key i ck up" by blast
    with ok have "proxy_ok b (view sh i)" by (auto intro!: view_ok simp: stage_ok_def)
    from charge_upstream_ok [OF this] task_step_ledger [OF assms(1)] show ?thesis
      by (simp add: g proxy_ok_def)
  next
    case False
    with task_step_ledger [OF assms(1)] ok(1) show ?thesis by (cases g) (auto simp: shared_ok_def)
  qed
  then show "shared_ok b sh'"
    using shared_ok_frame [OF ok(1) frame] task_step_limiter [OF assms(1)] ok(1) by (simp add: shared_ok_def)
  have "pricing_ok (ob_pricing ob)" if "observer_of g' = Some ob" b for ob
    using task_step_observer [OF assms(1) that(1)] ok that(2) by (auto simp: stage_ok_def shared_ok_def observer_new_def)
  with task_step_runtime [OF assms(1)] ok frame show "stage_ok b sh' g'"
    by (auto simp: stage_ok_def shared_ok_def shared_frame_def)
qed

lemma poll_ok:
  assumes "shared_ok b sh" "stage_ok b sh (tk_stage tk)" "poll E now item tk sh = (tk', sh')"
  shows "shared_ok b sh' \<and> stage_ok b sh' (tk_stage tk')"
  using assms
  by (auto simp: poll_def shared_ok_def stage_ok_def split: stage.splits exec.splits reply_body.splits prod.splits
      dest: observer_poll_wf observer_poll_ok)

lemma stage_ok_frame: "shared_frame sh sh' \<Longrightarrow> stage_ok b sh g \<Longrightarrow> stage_ok b sh' g"
  by (simp add: stage_ok_def shared_frame_def)

lemma on_task_ok:
  assumes ok: "pool_ok b s"
    and f: "\<And>tk tk' sh'. tk \<in> set (sy_tasks s) \<Longrightarrow> f tk (sy_shared s) = (tk', sh') \<Longrightarrow>
        shared_ok b sh' \<and> stage_ok b sh' (tk_stage tk') \<and> shared_frame (sy_shared s) sh'"
  shows "pool_ok b (on_task f j s)"
proof (cases "j < length (sy_tasks s)")
  case True
  obtain tk' sh' where t: "f (sy_tasks s ! j) (sy_shared s) = (tk', sh')" by fastforce
  from f [OF nth_mem [OF True] t] ok show ?thesis
    by (auto simp: on_task_def True t pool_ok_def stage_ok_frame dest!: subsetD [OF set_update_subset_insert])
qed (use ok in \<open>simp add: on_task_def\<close>)

lemma pool_step_ok:
  assumes ok: "pool_ok b s" and "b \<Longrightarrow> event_priced e"
  shows "pool_ok b (pool_step E s e)"
proof (cases e)
  case (Advance j)
  show ?thesis unfolding Advance pool_step.simps
  proof (rule on_task_ok [OF ok])
    fix tk tk' sh'
    assume "tk \<in> set (sy_tasks s)" and a: "advance E tk (sy_shared s) = (tk', sh')"
    then have "shared_ok b (sy_shared s)" "stage_ok b (sy_shared s) (tk_stage tk)" using ok by (simp_all add: pool_ok_def)
    then show "shared_ok b sh' \<and> stage_ok b sh' (tk_stage tk') \<and> shared_frame (sy_shared s) sh'"
      using a by (auto simp: advance_def split: prod.splits dest: task_step_ok task_step_frame)
  qed
next
  case (Poll j now item)
  show ?thesis unfolding Poll pool_step.simps
  proof (rule on_task_ok [OF ok])
    fix tk tk' sh'
    assume "tk \<in> set (sy_tasks s)" and a: "poll E now item tk (sy_shared s) = (tk', sh')"
    then have "shared_ok b (sy_shared s)" "stage_ok b (sy_shared s) (tk_stage tk)" using ok by (simp_all add: pool_ok_def)
    from poll_ok [OF this a] poll_frame [of "sy_shared s" E now item tk] a
    show "shared_ok b sh' \<and> stage_ok b sh' (tk_stage tk') \<and> shared_frame (sy_shared s) sh'" by simp
  qed
next
  case (Install rt)
  with assms show ?thesis
    by (auto simp: pool_ok_def shared_ok_def stage_ok_def install_def nth_append less_Suc_eq)
qed (use assms in \<open>auto simp: pool_ok_def shared_ok_def stage_ok_def task_new_def rate_limiter_ok_forget
    spend_tracker_ok_forget keystore_wf_intros\<close>)

lemma pool_run_ok: "pool_ok b s \<Longrightarrow> (b \<Longrightarrow> list_all event_priced es) \<Longrightarrow> pool_ok b (pool_run E s es)"
  by (induction es arbitrary: s) (simp_all add: pool_step_ok)

text \<open>The state in which the process begins to serve (\<open>main.rs\<close>): the configured keys, nothing recorded, one runtime.\<close>

definition pool_start :: "('w, 'c) runtime \<Rightarrow> config \<Rightarrow> 'w \<Rightarrow> ('w, 'c) pool" where
  "pool_start rt cfg w =
     (let st = initial_proxy rt cfg
      in \<lparr>sy_shared = \<lparr>sh_keys = ps_keys st, sh_limiter = ps_rate_limiter st, sh_ledger = ps_spend_tracker st,
                        sh_runtimes = [ps_runtime st], sh_current = 0, sh_world = w\<rparr>,
          sy_tasks = []\<rparr>)"

lemma pool_start_ok: "(b \<Longrightarrow> pricing_ok (rn_pricing rt)) \<Longrightarrow> pool_ok b (pool_start rt cfg w)"
  by (simp add: pool_start_def initial_proxy_def pool_ok_def shared_ok_def keystore_wf_new rate_limiter_ok_def
      spend_tracker_ok_def Let_def)

text \<open>
  C10. Locking is enough: from the start of the process, under every interleaving of requests, streams, reloads,
  created, revoked and replaced keys, however the handlers overlap, the key store files every key under its hash
  and none twice, every bucket holds between zero and its capacity, the ledger has one total per key, and every
  runtime a request holds exists; when all the runtimes installed state finite non-negative prices, every total
  of the ledger is an amount.
\<close>

theorem pool_invariant:
  "let s = pool_run E (pool_start rt cfg w) es; sh = sy_shared s
   in keystore_wf (sh_keys sh) \<and> rate_limiter_ok (sh_limiter sh) \<and> table_wf (sh_ledger sh) \<and>
      (\<forall>j i. j < length (sy_tasks s) \<longrightarrow> stage_runtime (stage_at s j) = Some i \<longrightarrow> i < length (sh_runtimes sh)) \<and>
      (pricing_ok (rn_pricing rt) \<and> (\<forall>rt'. Install rt' \<in> set es \<longrightarrow> pricing_ok (rn_pricing rt')) \<longrightarrow>
         spend_tracker_ok (sh_ledger sh))"
proof -
  let ?s = "pool_run E (pool_start rt cfg w) es"
  have "pool_ok False ?s" by (intro pool_run_ok pool_start_ok) simp_all
  moreover have "pool_ok True ?s"
    if "pricing_ok (rn_pricing rt)" "\<forall>rt'. Install rt' \<in> set es \<longrightarrow> pricing_ok (rn_pricing rt')"
  proof (intro pool_run_ok pool_start_ok)
    have "event_priced e" if "e \<in> set es" for e
      by (cases e) (use that(1) \<open>\<forall>rt'. Install rt' \<in> set es \<longrightarrow> pricing_ok (rn_pricing rt')\<close> in simp_all)
    then show "list_all event_priced es" by (simp add: list_all_iff)
  qed (rule that)
  ultimately show ?thesis by (auto simp: pool_ok_def shared_ok_def stage_ok_def Let_def)
qed

section \<open>Budgets under concurrency\<close>

text \<open>
  The budget is checked before the provider is called and charged after: requests in flight together may all pass
  a check that the sum of their costs does not. What holds is that the overshoot stops at them.
\<close>

fun past_check :: "stage \<Rightarrow> virtual_key option" where
  "past_check (Checked key i) = Some key"
| "past_check (Screened key i body) = Some key"
| "past_check (Missed key i body) = Some key"
| "past_check (Answered key i ck up) = Some key"
| "past_check (Charged key i ck up) = Some key"
| "past_check g = None"

text \<open>A request that may still charge the account \<open>k\<close>: past its check, or streaming.\<close>

definition owes :: "string \<Rightarrow> stage \<Rightarrow> bool" where
  "owes k g \<longleftrightarrow>
     (\<exists>key. past_check g = Some key \<and> key_identifier key = k \<and> vk_spend_limit key \<noteq> None) \<or>
     (\<exists>ob. observer_of g = Some ob \<and> ob_key_id ob = k \<and> ob_spend_limit ob \<noteq> None)"

definition may_charge :: "usage_observer \<Rightarrow> utc \<Rightarrow> spend_tracker \<Rightarrow> spend_tracker \<Rightarrow> bool" where
  "may_charge ob now st st' \<longleftrightarrow>
     st' = st \<or> (\<exists>u c limit. cost_compute (ob_pricing ob) (ob_provider ob) (ob_model ob) u = Some c \<and>
        ob_spend_limit ob = Some limit \<and> st' = spend_record st (ob_key_id ob) (sl_period limit) c now)"

lemma may_charge_same [simp]: "may_charge ob now st st" "may_charge (ob\<lparr>ob_parser := p\<rparr>) now st st' = may_charge ob now st st'"
  by (simp_all add: may_charge_def)

lemma observer_loop_ledger:
  "observer_loop J now ob st = (ob', st', spans) \<Longrightarrow>
     ob_key_id ob' = ob_key_id ob \<and> ob_spend_limit ob' = ob_spend_limit ob \<and>
     may_charge ob now st st'"
proof (induction J now ob st arbitrary: ob' st' spans rule: observer_loop.induct)
  case (1 J now ob st)
  obtain p r where e: "sse_next_event (ob_parser ob) = (p, r)" by fastforce
  show ?case
  proof (cases r)
    case None
    with e "1.prems" show ?thesis by (auto simp: observer_loop.simps [of J now ob])
  next
    case (Some ev)
    show ?thesis
    proof (cases "parse_chunk_usage J (ev_data ev)")
      case None
      with e Some "1.prems"(1) have "observer_loop J now (ob\<lparr>ob_parser := p\<rparr>) st = (ob', st', spans)"
        by (simp add: observer_loop.simps [of J now ob])
      with "1.IH" [OF e [symmetric] Some None] show ?thesis by simp
    next
      case (Some u)
      with e \<open>r = Some ev\<close> "1.prems" show ?thesis
        by (auto simp: observer_loop.simps [of J now ob] observer_charge_def may_charge_def split: prod.splits option.splits)
    qed
  qed
qed

lemma observer_poll_ledger:
  assumes "observer_poll J now ob st item = (ob', st', spans, out)"
  shows "ob_key_id ob' = ob_key_id ob \<and> ob_spend_limit ob' = ob_spend_limit ob \<and>
     may_charge ob now st st'"
  using assms by (auto simp: observer_poll_def split: sum.splits if_splits prod.splits dest!: observer_loop_ledger)

text \<open>A ledger that differs from another by at most a charge of account \<open>a\<close>, of a finite non-negative amount.\<close>

definition charged :: "string \<Rightarrow> spend_limit \<Rightarrow> utc \<Rightarrow> spend_tracker \<Rightarrow> spend_tracker \<Rightarrow> bool" where
  "charged a limit now st st' \<longleftrightarrow> (\<exists>c. f64_amount c \<and> st' = spend_record st a (sl_period limit) c now)"

lemma task_step_charged:
  assumes "task_step E rq g sh = (g', sh', fx)" and "shared_ok True sh" "stage_ok True sh g"
  shows "sh_ledger sh' = sh_ledger sh \<or>
    (\<exists>key i ck up limit. g = Answered key i ck up \<and> vk_spend_limit key = Some limit \<and>
       charged (key_identifier key) limit (tc_record (tr_clocks rq)) (sh_ledger sh) (sh_ledger sh'))"
proof (cases "\<exists>key i ck up. g = Answered key i ck up")
  case True
  then obtain key i ck up where g: "g = Answered key i ck up" by blast
  have "proxy_ok True (view sh i)" using assms g by (auto intro!: view_ok simp: stage_ok_def)
  with task_step_ledger [OF assms(1)] show ?thesis
    by (auto simp: g charge_def charged_def split: option.splits intro: upstream_cost_amount)
next
  case False
  with task_step_ledger [OF assms(1)] show ?thesis by (cases g) auto
qed

lemma may_charge_charged:
  "may_charge ob now st st' \<Longrightarrow> pricing_ok (ob_pricing ob) \<Longrightarrow>
     st' = st \<or> (\<exists>limit. ob_spend_limit ob = Some limit \<and> charged (ob_key_id ob) limit now st st')"
  by (auto simp: may_charge_def charged_def intro: cost_compute_amount)

definition account :: "stage \<Rightarrow> (string \<times> spend_limit option) option" where
  "account g = map_option (\<lambda>ob. (ob_key_id ob, ob_spend_limit ob)) (observer_of g)"

lemma poll_cases:
  obtains "poll E now item tk sh = (tk, sh)"
  | rep ob body ob' ledger spans out where "tk_stage tk = Finished (Ret rep)" "rp_body rep = ObservedBody ob body"
      "observer_poll (px_json E) now ob (sh_ledger sh) item = (ob', ledger, spans, out)"
      "poll E now item tk sh = (tk\<lparr>tk_stage := Finished (Ret (rep\<lparr>rp_body := ObservedBody ob' body\<rparr>)),
          tk_effects := fx_append (tk_effects tk) (no_effects\<lparr>fx_spans := spans\<rparr>)\<rparr>, sh\<lparr>sh_ledger := ledger\<rparr>)"
proof (cases "observer_of (tk_stage tk)")
  case None
  then have "poll E now item tk sh = (tk, sh)"
    by (auto simp: poll_def split: stage.split exec.split reply_body.splits)
  with that show thesis by blast
next
  case (Some ob)
  then obtain rep body where g: "tk_stage tk = Finished (Ret rep)" "rp_body rep = ObservedBody ob body"
    by (auto elim!: observer_of.elims split: reply_body.splits)
  obtain ob' ledger spans out where "observer_poll (px_json E) now ob (sh_ledger sh) item = (ob', ledger, spans, out)"
    by (rule prod_cases4)
  with g that show thesis by (auto simp: poll_def)
qed

lemma poll_keeps:
  assumes "poll E now item tk sh = (tk', sh')"
  shows "past_check (tk_stage tk') = past_check (tk_stage tk)" "stage_key (tk_stage tk') = stage_key (tk_stage tk)"
    "account (tk_stage tk') = account (tk_stage tk)" "tk_request tk' = tk_request tk"
  by (rule poll_cases [of E now item tk sh]; use assms in \<open>auto simp: account_def dest!: observer_poll_ledger\<close>)+

lemma poll_charged:
  assumes "poll E now item tk sh = (tk', sh')" and "stage_ok True sh (tk_stage tk)"
  shows "sh_ledger sh' = sh_ledger sh \<or>
    (\<exists>ob limit. observer_of (tk_stage tk) = Some ob \<and> ob_spend_limit ob = Some limit \<and>
       charged (ob_key_id ob) limit now (sh_ledger sh) (sh_ledger sh'))"
proof (rule poll_cases [of E now item tk sh])
  fix rep ob body ob' ledger spans out
  assume g: "tk_stage tk = Finished (Ret rep)" "rp_body rep = ObservedBody ob body"
    and o: "observer_poll (px_json E) now ob (sh_ledger sh) item = (ob', ledger, spans, out)"
    and p: "poll E now item tk sh = (tk\<lparr>tk_stage := Finished (Ret (rep\<lparr>rp_body := ObservedBody ob' body\<rparr>)),
          tk_effects := fx_append (tk_effects tk) (no_effects\<lparr>fx_spans := spans\<rparr>)\<rparr>, sh\<lparr>sh_ledger := ledger\<rparr>)"
  have "pricing_ok (ob_pricing ob)" using assms(2) g by (simp add: stage_ok_def)
  with may_charge_charged [of ob now "sh_ledger sh" ledger] observer_poll_ledger [OF o] g assms(1) p show ?thesis by auto
qed (use assms(1) in simp)

text \<open>Every key of the account has the limit, or none; a poll or a request reads its clocks in the period.\<close>

definition limited_key :: "string \<Rightarrow> spend_limit \<Rightarrow> virtual_key \<Rightarrow> bool" where
  "limited_key k limit key \<longleftrightarrow> key_identifier key = k \<longrightarrow> vk_spend_limit key = Some limit \<or> vk_spend_limit key = None"

definition limited_keys :: "string \<Rightarrow> spend_limit \<Rightarrow> key_store \<Rightarrow> bool" where
  "limited_keys k limit keys \<longleftrightarrow> (\<forall>(h, key) \<in> set (by_hash keys). limited_key k limit key)"

definition limited_stage :: "string \<Rightarrow> spend_limit \<Rightarrow> stage \<Rightarrow> bool" where
  "limited_stage k limit g \<longleftrightarrow> (\<forall>key. stage_key g = Some key \<longrightarrow> limited_key k limit key) \<and>
     (\<forall>l. account g = Some (k, l) \<longrightarrow> l = Some limit \<or> l = None)"

definition in_period :: "spend_limit \<Rightarrow> utc \<Rightarrow> utc \<Rightarrow> bool" where
  "in_period limit now t \<longleftrightarrow> current_period_token t (sl_period limit) = current_period_token now (sl_period limit)"

definition timely :: "spend_limit \<Rightarrow> utc \<Rightarrow> task_request \<Rightarrow> bool" where
  "timely limit now rq \<longleftrightarrow> in_period limit now (tc_pre_check (tr_clocks rq)) \<and> in_period limit now (tc_record (tr_clocks rq))"

fun within_period :: "string \<Rightarrow> spend_limit \<Rightarrow> utc \<Rightarrow> ('w, 'c) pool_event \<Rightarrow> bool" where
  "within_period k limit now (Spawn rq) = timely limit now rq"
| "within_period k limit now (Poll j t item) = in_period limit now t"
| "within_period k limit now (InsertKey key) = limited_key k limit key"
| "within_period k limit now (ReplaceKeys keys) = list_all (limited_key k limit) keys"
| "within_period k limit now (ForgetSpend a) = (a \<noteq> k)"
| "within_period k limit now e = True"

lemma limited_keys_intros:
  "limited_keys k limit keys \<Longrightarrow> limited_key k limit key \<Longrightarrow> limited_keys k limit (keystore_insert keys key)"
  "limited_keys k limit keys \<Longrightarrow> limited_keys k limit (fst (keystore_remove_by_id keys kid))"
  "list_all (limited_key k limit) new \<Longrightarrow> limited_keys k limit (keystore_replace_all keys new)"
proof -
  show "limited_keys k limit (keystore_insert keys key)" if "limited_keys k limit keys" "limited_key k limit key"
    using that set_tput_subset [of "vk_hash key" key "by_hash keys"] by (auto simp: limited_keys_def keystore_insert_def)
  show "limited_keys k limit (fst (keystore_remove_by_id keys kid))" if "limited_keys k limit keys"
    using that by (auto simp: limited_keys_def keystore_remove_by_id_def set_tdel split: option.split)
  have "key \<in> set new" if "(h, key) \<in> set (tcollect (map (\<lambda>key. (vk_hash key, key)) new))" for h key
  proof -
    from that have "tget (tcollect (map (\<lambda>key. (vk_hash key, key)) new)) h = Some key" by (simp add: tget_in_set)
    then show ?thesis by (auto simp: tget_tcollect dest!: map_of_SomeD)
  qed
  then show "limited_keys k limit (keystore_replace_all keys new)" if "list_all (limited_key k limit) new"
    using that by (auto simp: limited_keys_def keystore_replace_all_def list_all_iff)
qed

lemma pre_check_in_period:
  "in_period limit now t \<Longrightarrow> spend_pre_check st k limit t = spend_pre_check st k limit now"
  by (simp add: in_period_def spend_pre_check_def)

lemma charged_exhausted:
  assumes "charged a limit' t st st'" "spend_tracker_ok st" "\<not> spend_pre_check st k limit now"
    and "a = k \<Longrightarrow> limit' = limit \<and> in_period limit now t"
  shows "\<not> spend_pre_check st' k limit now"
proof (cases "a = k")
  case True
  with assms show ?thesis by (auto simp: charged_def in_period_def exhausted_after_record)
next
  case False
  with assms(1) have "tget st' k = tget st k" by (auto simp: charged_def tget_spend_record)
  with assms(3) show ?thesis using pre_check_entry by blast
qed

lemma owes_account:
  "owes k g \<longleftrightarrow> (\<exists>key. past_check g = Some key \<and> key_identifier key = k \<and> vk_spend_limit key \<noteq> None) \<or>
     (\<exists>l. account g = Some (k, l) \<and> l \<noteq> None)"
  by (auto simp: owes_def account_def)

lemma authenticated_limited:
  "limited_keys k limit keys \<Longrightarrow> Option.bind t (keystore_authenticate C keys) = Some key \<Longrightarrow> limited_key k limit key"
  by (auto simp: limited_keys_def keystore_authenticate_def tget_def bind_eq_Some_conv dest!: map_of_SomeD)

lemma task_step_account:
  assumes "task_step E rq g sh = (g', sh', fx)" "account g' = Some (a, l)"
  shows "account g = Some (a, l) \<or> (\<exists>key. past_check g = Some key \<and> a = key_identifier key \<and> l = vk_spend_limit key)"
proof -
  obtain ob where ob: "observer_of g' = Some ob" "a = ob_key_id ob" "l = ob_spend_limit ob"
    using assms(2) by (auto simp: account_def)
  from task_step_observer [OF assms(1) ob(1)] ob show ?thesis by (auto simp: account_def observer_new_def)
qed

lemma past_check_key: "past_check g = Some key \<Longrightarrow> stage_key g = Some key"
  by (cases g) simp_all

lemma task_step_limited:
  assumes s: "task_step E rq g sh = (g', sh', fx)" and "limited_keys k limit (sh_keys sh)" "limited_stage k limit g"
  shows "limited_stage k limit g'"
proof -
  have "limited_key k limit key" if key: "stage_key g' = Some key" for key
  proof (cases "stage_key g")
    case None
    have "limited_key k limit anonymous" by (simp add: limited_key_def anonymous_def)
    with None show ?thesis using s key assms(2)
      by (cases g) (auto split: if_splits option.splits dest: authenticated_limited)
  next
    case (Some key')
    with task_step_key [OF s] key assms(3) show ?thesis by (auto simp: limited_stage_def)
  qed
  moreover have "l = Some limit \<or> l = None" if "account g' = Some (k, l)" for l
    using task_step_account [OF s that] assms(3) by (auto simp: limited_stage_def limited_key_def dest!: past_check_key)
  ultimately show ?thesis by (simp add: limited_stage_def)
qed

lemma task_step_past_check:
  assumes "task_step E rq g sh = (g', sh', fx)" "past_check g' = Some key"
  shows "past_check g = Some key \<or> (\<exists>i. g = Loaded key i \<and> \<not> over_budget (view sh i) (tr_clocks rq) key)"
  using assms
  by (cases g) (auto simp: step_defs Let_def split: if_splits option.splits prod.splits sum.splits exec.splits proxy_route.splits)

lemma task_step_owes:
  assumes s: "task_step E rq g sh = (g', sh', fx)" and "owes k g'" and lim: "limited_stage k limit g"
    and "\<not> spend_pre_check (sh_ledger sh) k limit now" "timely limit now rq"
  shows "owes k g"
proof -
  have "past_check g = Some key" if p: "past_check g' = Some key" "key_identifier key = k" "vk_spend_limit key \<noteq> None" for key
    using task_step_past_check [OF s p(1)]
  proof
    assume "\<exists>i. g = Loaded key i \<and> \<not> over_budget (view sh i) (tr_clocks rq) key"
    then obtain i where g: "g = Loaded key i" and ob: "\<not> over_budget (view sh i) (tr_clocks rq) key" by blast
    have "vk_spend_limit key = Some limit" using lim p g by (auto simp: limited_stage_def limited_key_def)
    with ob p(2) assms(4,5) pre_check_in_period [of limit now "tc_pre_check (tr_clocks rq)"] have False
      by (auto simp: over_budget_def timely_def)
    then show ?thesis ..
  qed
  note past = this
  from assms(2) consider key where "past_check g' = Some key" "key_identifier key = k" "vk_spend_limit key \<noteq> None"
    | l where "account g' = Some (k, l)" "l \<noteq> None"
    unfolding owes_account by blast
  then show ?thesis
  proof cases
    case 1
    with past show ?thesis by (auto simp: owes_account)
  next
    case 2
    with task_step_account [OF s 2(1)] show ?thesis by (auto simp: owes_account)
  qed
qed

definition task_within :: "string \<Rightarrow> spend_limit \<Rightarrow> utc \<Rightarrow> task \<Rightarrow> bool" where
  "task_within k limit now tk \<longleftrightarrow> limited_stage k limit (tk_stage tk) \<and> timely limit now (tk_request tk)"

definition spent_out :: "string \<Rightarrow> spend_limit \<Rightarrow> utc \<Rightarrow> ('w, 'c) pool \<Rightarrow> bool" where
  "spent_out k limit now s \<longleftrightarrow> pool_ok True s \<and> limited_keys k limit (sh_keys (sy_shared s)) \<and>
     (\<forall>tk \<in> set (sy_tasks s). task_within k limit now tk) \<and> \<not> spend_pre_check (sh_ledger (sy_shared s)) k limit now"

text \<open>What one step of a task keeps when the budget is spent: the budget stays spent and nobody new owes.\<close>

lemma advance_spent:
  assumes "spent_out k limit now s" "tk \<in> set (sy_tasks s)" "advance E tk (sy_shared s) = (tk', sh')"
  shows "task_within k limit now tk' \<and> \<not> spend_pre_check (sh_ledger sh') k limit now \<and>
    (owes k (tk_stage tk') \<longrightarrow> owes k (tk_stage tk)) \<and> shared_frame (sy_shared s) sh'"
proof -
  obtain g' fx where s: "task_step E (tk_request tk) (tk_stage tk) (sy_shared s) = (g', sh', fx)"
    and tk': "tk_stage tk' = g'" "tk_request tk' = tk_request tk"
    using assms(3) by (auto simp: advance_def split: prod.splits)
  have ok: "shared_ok True (sy_shared s)" "stage_ok True (sy_shared s) (tk_stage tk)" "spend_tracker_ok (sh_ledger (sy_shared s))"
    and lim: "limited_keys k limit (sh_keys (sy_shared s))" "limited_stage k limit (tk_stage tk)" "timely limit now (tk_request tk)"
    and out: "\<not> spend_pre_check (sh_ledger (sy_shared s)) k limit now"
    using assms(1,2) by (auto simp: spent_out_def pool_ok_def task_within_def shared_ok_def)
  have "\<not> spend_pre_check (sh_ledger sh') k limit now"
    using task_step_charged [OF s ok(1,2)]
  proof
    assume "\<exists>key i ck up limit. tk_stage tk = Answered key i ck up \<and> vk_spend_limit key = Some limit \<and>
      charged (key_identifier key) limit (tc_record (tr_clocks (tk_request tk))) (sh_ledger (sy_shared s)) (sh_ledger sh')"
    then obtain key i ck up limit' where a: "tk_stage tk = Answered key i ck up" "vk_spend_limit key = Some limit'"
      and c: "charged (key_identifier key) limit' (tc_record (tr_clocks (tk_request tk))) (sh_ledger (sy_shared s)) (sh_ledger sh')"
      by blast
    show ?thesis
      by (rule charged_exhausted [OF c ok(3) out]) (use a lim in \<open>auto simp: limited_stage_def limited_key_def timely_def\<close>)
  qed (use out in simp)
  with task_step_limited [OF s lim(1,2)] task_step_owes [OF s _ lim(2) out lim(3)] task_step_frame [OF s] lim(3) tk'
  show ?thesis by (simp add: task_within_def)
qed

lemma poll_spent:
  assumes "spent_out k limit now s" "tk \<in> set (sy_tasks s)" "poll E t item tk (sy_shared s) = (tk', sh')" "in_period limit now t"
  shows "task_within k limit now tk' \<and> \<not> spend_pre_check (sh_ledger sh') k limit now \<and>
    (owes k (tk_stage tk') \<longrightarrow> owes k (tk_stage tk)) \<and> shared_frame (sy_shared s) sh'"
proof -
  have ok: "stage_ok True (sy_shared s) (tk_stage tk)" "spend_tracker_ok (sh_ledger (sy_shared s))"
    and lim: "limited_stage k limit (tk_stage tk)" "timely limit now (tk_request tk)"
    and out: "\<not> spend_pre_check (sh_ledger (sy_shared s)) k limit now"
    using assms(1,2) by (auto simp: spent_out_def pool_ok_def task_within_def shared_ok_def)
  note keeps = poll_keeps [OF assms(3)]
  have "\<not> spend_pre_check (sh_ledger sh') k limit now"
    using poll_charged [OF assms(3) ok(1)]
  proof
    assume "\<exists>ob limit. observer_of (tk_stage tk) = Some ob \<and> ob_spend_limit ob = Some limit \<and>
       charged (ob_key_id ob) limit t (sh_ledger (sy_shared s)) (sh_ledger sh')"
    then obtain ob limit' where a: "observer_of (tk_stage tk) = Some ob" "ob_spend_limit ob = Some limit'"
      and c: "charged (ob_key_id ob) limit' t (sh_ledger (sy_shared s)) (sh_ledger sh')" by blast
    show ?thesis
      by (rule charged_exhausted [OF c ok(2) out]) (use a lim assms(4) in \<open>auto simp: limited_stage_def account_def\<close>)
  qed (use out in simp)
  moreover have "shared_frame (sy_shared s) sh'" using poll_frame [of "sy_shared s" E t item tk] assms(3) by simp
  ultimately show ?thesis using keeps lim by (simp add: task_within_def limited_stage_def owes_account)
qed

lemma on_task_spent:
  assumes out: "spent_out k limit now s" and ok: "pool_ok True (on_task f j s)"
    and f: "\<And>tk tk' sh'. tk \<in> set (sy_tasks s) \<Longrightarrow> f tk (sy_shared s) = (tk', sh') \<Longrightarrow>
        task_within k limit now tk' \<and> \<not> spend_pre_check (sh_ledger sh') k limit now \<and>
        (owes k (tk_stage tk') \<longrightarrow> owes k (tk_stage tk)) \<and> shared_frame (sy_shared s) sh'"
  shows "spent_out k limit now (on_task f j s) \<and>
    (\<forall>i < length (sy_tasks s). owes k (stage_at (on_task f j s) i) \<longrightarrow> owes k (stage_at s i))"
proof (cases "j < length (sy_tasks s)")
  case True
  obtain tk' sh' where t: "f (sy_tasks s ! j) (sy_shared s) = (tk', sh')" by fastforce
  from f [OF nth_mem [OF True] t] out ok show ?thesis
    by (auto simp: on_task_def True t spent_out_def shared_frame_def nth_list_update
        dest!: subsetD [OF set_update_subset_insert])
qed (use out in \<open>simp add: on_task_def\<close>)

lemma pool_step_spent:
  assumes out: "spent_out k limit now s" and e: "event_priced e" "within_period k limit now e"
  shows "spent_out k limit now (pool_step E s e) \<and>
    (\<forall>i < length (sy_tasks (pool_step E s e)). owes k (stage_at (pool_step E s e) i) \<longrightarrow>
       i < length (sy_tasks s) \<and> owes k (stage_at s i))"
proof -
  have ok: "pool_ok True (pool_step E s e)" using out e(1) pool_step_ok by (auto simp: spent_out_def)
  show ?thesis
  proof (cases e)
    case (Advance j)
    with on_task_spent [OF out, of "advance E" j] ok advance_spent [OF out] show ?thesis by simp
  next
    case (Poll j t item)
    with on_task_spent [OF out, of "poll E t item" j] ok poll_spent [OF out] e(2) show ?thesis by simp
  next
    case (Spawn rq)
    have "\<not> owes k Arrived" by (simp add: owes_def)
    with Spawn out ok e(2) show ?thesis
      by (auto simp: spent_out_def task_within_def limited_stage_def account_def task_new_def nth_append less_Suc_eq)
  next
    case (ForgetSpend a)
    with out ok e(2) pre_check_entry [of "spend_forget (sh_ledger (sy_shared s)) a" k "sh_ledger (sy_shared s)"]
    show ?thesis by (auto simp: spent_out_def spend_forget_def)
  qed (use out ok e(2) in \<open>auto simp: spent_out_def install_def intro: limited_keys_intros\<close>)
qed

lemma pool_run_spent:
  "spent_out k limit now s \<Longrightarrow> list_all (\<lambda>e. event_priced e \<and> within_period k limit now e) es \<Longrightarrow>
     spent_out k limit now (pool_run E s es) \<and>
     (\<forall>i < length (sy_tasks (pool_run E s es)). owes k (stage_at (pool_run E s es) i) \<longrightarrow>
        i < length (sy_tasks s) \<and> owes k (stage_at s i))"
proof (induction es arbitrary: s)
  case (Cons e es)
  then have "spent_out k limit now (pool_step E s e) \<and>
    (\<forall>i < length (sy_tasks (pool_step E s e)). owes k (stage_at (pool_step E s e) i) \<longrightarrow>
       i < length (sy_tasks s) \<and> owes k (stage_at s i))" by (intro pool_step_spent) simp_all
  with Cons.IH [of "pool_step E s e"] Cons.prems(2) show ?case by simp
qed simp

text \<open>Only a request that owes an account charges it.\<close>

lemma ledger_change_owes:
  assumes ok: "pool_ok True s" and e: "e \<noteq> ForgetSpend k"
    and change: "tget (sh_ledger (sy_shared (pool_step E s e))) k \<noteq> tget (sh_ledger (sy_shared s)) k"
  shows "\<exists>j < length (sy_tasks s). owes k (stage_at s j) \<and> (e = Advance j \<or> (\<exists>t item. e = Poll j t item))"
proof -
  have other: "a = k" if "charged a limit t st st'" "tget st' k \<noteq> tget st k" for a limit t st st'
    using that by (auto simp: charged_def tget_spend_record split: if_splits)
  have task: "shared_ok True (sy_shared s)" "stage_ok True (sy_shared s) (stage_at s j)" if "j < length (sy_tasks s)" for j
    using ok that by (simp_all add: pool_ok_def)
  show ?thesis
  proof (cases e)
    case (Advance j)
    then have j: "j < length (sy_tasks s)" using change by (auto simp: on_task_shared split: if_splits)
    obtain g' sh' fx where s: "task_step E (tk_request (sy_tasks s ! j)) (stage_at s j) (sy_shared s) = (g', sh', fx)"
      by (rule prod_cases3)
    have c: "tget (sh_ledger sh') k \<noteq> tget (sh_ledger (sy_shared s)) k"
      using change j by (simp add: Advance on_task_shared advance_shared s)
    then obtain key i ck up limit where "stage_at s j = Answered key i ck up" "vk_spend_limit key = Some limit"
        "charged (key_identifier key) limit (tc_record (tr_clocks (tk_request (sy_tasks s ! j)))) (sh_ledger (sy_shared s)) (sh_ledger sh')"
      using task_step_charged [OF s task [OF j]] by auto
    with other [OF _ c] have "owes k (stage_at s j)" by (auto simp: owes_def)
    with j Advance show ?thesis by blast
  next
    case (Poll j t item)
    then have j: "j < length (sy_tasks s)" using change by (auto simp: on_task_shared split: if_splits)
    obtain tk' sh' where s: "poll E t item (sy_tasks s ! j) (sy_shared s) = (tk', sh')" by fastforce
    have c: "tget (sh_ledger sh') k \<noteq> tget (sh_ledger (sy_shared s)) k"
      using change j by (simp add: Poll on_task_shared s)
    then obtain ob limit where "observer_of (stage_at s j) = Some ob" "ob_spend_limit ob = Some limit"
        "charged (ob_key_id ob) limit t (sh_ledger (sy_shared s)) (sh_ledger sh')"
      using poll_charged [OF s task(2) [OF j]] by auto
    with other [OF _ c] have "owes k (stage_at s j)" by (auto simp: owes_def)
    with j Poll show ?thesis by blast
  qed (use change e in \<open>auto simp: install_def spend_forget_def split: if_splits\<close>)
qed

text \<open>
  C8. A budget is overshot only by what was already in flight: once the ledger shows a key's budget as spent, then for
  the rest of the period, under every interleaving and whatever is reloaded meanwhile, each further
  change of that key's total is made by a request that had passed its budget check, or was streaming its
  reply, at that moment; every later request is refused, and the budget stays spent. The account keeps its limit,
  its ledger entry is not forgotten by a revocation, and the prices are finite and not negative.
\<close>

theorem overshoot_is_in_flight:
  assumes "spent_out k limit now s"
    and "list_all (\<lambda>e. event_priced e \<and> within_period k limit now e) es"
    and "n < length es"
    and "tget (sh_ledger (sy_shared (pool_run E s (take (Suc n) es)))) k \<noteq>
         tget (sh_ledger (sy_shared (pool_run E s (take n es)))) k"
  shows "\<not> spend_pre_check (sh_ledger (sy_shared (pool_run E s es))) k limit now \<and>
    (\<exists>j < length (sy_tasks s). owes k (stage_at s j) \<and> (es ! n = Advance j \<or> (\<exists>t item. es ! n = Poll j t item)))"
proof
  let ?s = "pool_run E s (take n es)"
  have "list_all (\<lambda>e. event_priced e \<and> within_period k limit now e) (take n es)"
    using assms(2) by (auto simp: list_all_iff dest: in_set_takeD)
  from pool_run_spent [OF assms(1) this, of E]
  have out: "spent_out k limit now ?s"
    and before: "\<forall>i < length (sy_tasks ?s). owes k (stage_at ?s i) \<longrightarrow> i < length (sy_tasks s) \<and> owes k (stage_at s i)"
    by simp_all
  have "pool_run E s (take (Suc n) es) = pool_step E ?s (es ! n)"
    using assms(3) by (simp add: pool_run_def take_Suc_conv_app_nth)
  moreover have "within_period k limit now (es ! n)" using assms(2,3) by (simp add: list_all_length)
  then have "es ! n \<noteq> ForgetSpend k" by auto
  ultimately show "\<exists>j < length (sy_tasks s). owes k (stage_at s j) \<and> (es ! n = Advance j \<or> (\<exists>t item. es ! n = Poll j t item))"
    using ledger_change_owes [of ?s "es ! n" k E] out before assms(4) by (auto simp: spent_out_def)
  show "\<not> spend_pre_check (sh_ledger (sy_shared (pool_run E s es))) k limit now"
    using pool_run_spent [OF assms(1,2), of E] by (simp add: spent_out_def)
qed

section \<open>Examples\<close>

text \<open>One request of a key whose budget of five dollars is spent, with an answer worth one dollar on its way.\<close>

definition example_request :: task_request where
  "example_request = \<lparr>tr_clocks = example_clocks, tr_route = ChatCompletions, tr_headers = example_headers, tr_body = []\<rparr>"

definition example_prices :: pricing where
  "example_prices = \<lparr>pricing_providers =
     [(''openai'', [(''m'', \<lparr>input_per_1k_tokens_usd = Fin 1, output_per_1k_tokens_usd = Fin 1\<rparr>)])]\<rparr>"

definition example_limit :: spend_limit where
  "example_limit = \<lparr>amount_usd = Fin 5, sl_period = Day\<rparr>"

definition example_spender :: virtual_key where
  "example_spender = example_key\<lparr>vk_spend_limit := Some example_limit\<rparr>"

definition example_shared :: "(nat, (string \<times> cached_response) list) shared" where
  "example_shared = \<lparr>sh_keys = keystore_new [example_spender], sh_limiter = [],
     sh_ledger = [(''vp_a'', \<lparr>period_token = current_period_token example_utc Day, cumulative_usd = Fin 5\<rparr>)],
     sh_runtimes = [(ps_runtime example_state)\<lparr>rn_pricing := example_prices\<rparr>], sh_current = 0, sh_world = 0\<rparr>"

definition example_pool :: "(nat, (string \<times> cached_response) list) pool" where
  "example_pool = \<lparr>sy_shared = example_shared,
     sy_tasks = [(task_new example_request)\<lparr>tk_stage := Answered example_spender 0 None
       (example_upstream\<lparr>rs_usage := Some \<lparr>prompt_tokens = 1000, completion_tokens = 0\<rparr>\<rparr>)\<rparr>]\<rparr>"

lemma example_spender_id: "key_identifier example_spender = ''vp_a''" "vk_spend_limit example_spender = Some example_limit"
  by (simp_all add: example_spender_def key_identifier_def example_key_def anonymous_def)

lemma example_spender_keys: "by_hash (keystore_new [example_spender]) = [(''t'', example_spender)]"
  by (simp add: keystore_new_def example_spender_def example_key_def tcollect_def tput_def)

lemma example_prices_ok: "pricing_ok example_prices"
  by (auto simp: pricing_ok_def price_of_def example_prices_def tget_def split: option.splits if_splits)

lemma example_pool_ok: "pool_ok True example_pool"
  by (simp add: pool_ok_def shared_ok_def stage_ok_def example_pool_def example_shared_def keystore_wf_new rate_limiter_ok_def
      spend_tracker_ok_def table_wf_def example_prices_ok example_amounts)

lemma example_spent: "spent_out ''vp_a'' example_limit example_utc example_pool"
proof -
  have "limited_keys ''vp_a'' example_limit (keystore_new [example_spender])"
    by (simp add: limited_keys_def example_spender_keys limited_key_def example_spender_id)
  then show ?thesis
    using example_pool_ok
    by (simp add: spent_out_def task_within_def limited_stage_def limited_key_def example_pool_def example_shared_def
        task_new_def example_spender_id account_def timely_def in_period_def example_request_def example_clocks_def
        spend_pre_check_def example_limit_def tget_def)
qed

lemma example_cost:
  "cost_compute example_prices ''openai'' ''m'' \<lparr>prompt_tokens = 1000, completion_tokens = 0\<rparr> = Some (Fin 1)"
proof -
  have "f64_of_nat 1000 = Fin 1000" "f64_of_nat 0 = Fin 0" using f64_of_nat_exact [of 1000] f64_of_nat_exact [of 0] by simp_all
  moreover have "f64_of_rat 1 = Fin 1" "f64_of_rat 0 = Fin 0"
    using f64_of_nat_exact [of 1] f64_of_nat_exact [of 0] by (simp_all add: f64_of_nat_def)
  ultimately show ?thesis by (simp add: cost_compute_def example_prices_def tget_def)
qed

lemma example_charge:
  "tget (sh_ledger (sy_shared (pool_step example_env example_pool (Advance 0)))) ''vp_a'' =
     Some \<lparr>period_token = current_period_token example_utc Day, cumulative_usd = Fin 6\<rparr>"
proof -
  have single: "tget [(k, v)] k = Some v" for k and v :: spend_state by (simp add: tget_def)
  have "f64_of_rat 6 = Fin 6" using f64_of_nat_exact [of 6] by (simp add: f64_of_nat_def)
  moreover have "rs_provider example_upstream = ''openai''" "rs_model example_upstream = ''m''"
    by (simp_all add: example_upstream_def)
  ultimately show ?thesis
    by (simp add: on_task_def example_pool_def advance_def step_answered_def task_new_def upstream_cost_def example_shared_def
        example_cost charge_def example_spender_id put_view_def tget_spend_record spend_entry_def example_limit_def
        example_request_def example_clocks_def single Let_def)
qed

theorem overshoot_is_in_flight_witness:
  "\<not> spend_pre_check (sh_ledger (sy_shared (pool_run example_env example_pool [Advance 0]))) ''vp_a'' example_limit example_utc \<and>
   (\<exists>j < length (sy_tasks example_pool). owes ''vp_a'' (stage_at example_pool j) \<and> [Advance 0] ! 0 = (Advance j :: (nat, (string \<times> cached_response) list) pool_event))"
proof -
  have "tget (sh_ledger (sy_shared (pool_run example_env example_pool (take (Suc 0) [Advance 0])))) ''vp_a'' \<noteq>
        tget (sh_ledger (sy_shared (pool_run example_env example_pool (take 0 [Advance 0])))) ''vp_a''"
    using example_charge by (simp add: example_pool_def example_shared_def tget_def)
  from overshoot_is_in_flight [OF example_spent _ _ this] show ?thesis by simp
qed

theorem pool_invariant_witness:
  "spend_tracker_ok (sh_ledger (sy_shared (pool_run example_env
      (pool_start (sh_runtimes example_shared ! 0) config_default 0)
      [InsertKey example_spender, Spawn example_request, Advance 0, Advance 0, ReplaceKeys [], Advance 0])))"
  using pool_invariant [of example_env "sh_runtimes example_shared ! 0" config_default 0
      "[InsertKey example_spender, Spawn example_request, Advance 0, Advance 0, ReplaceKeys [], Advance 0]"]
  by (simp add: Let_def example_shared_def example_prices_ok)

theorem every_request_finishes_witness:
  "\<exists>r. stage_at (pool_run example_env example_pool (replicate 10 (Advance 0))) 0 = Finished r"
  by (rule every_request_finishes) (simp_all add: example_pool_def numeral_eq_Suc)

text \<open>A reload while the answer is on its way: the charge is the one of the runtime the request holds.\<close>

theorem request_keeps_its_runtime_witness:
  "let sh = sy_shared (pool_run example_env example_pool [Install (ps_runtime example_state)]);
       tk = sy_tasks (pool_run example_env example_pool [Install (ps_runtime example_state)]) ! 0
   in sh_current sh = 1 \<and> rn_pricing (sh_runtimes sh ! 0) = example_prices \<and>
      fst (advance example_env tk sh) =
      fst (advance example_env tk (sh\<lparr>sh_runtimes := [sh_runtimes sh ! 0], sh_current := 0\<rparr>))"
proof -
  let ?s = "pool_run example_env example_pool [Install (ps_runtime example_state)]"
  have "0 < length (sy_tasks example_pool)" "stage_runtime (stage_at example_pool 0) = Some 0"
    "0 < length (sh_runtimes (sy_shared example_pool))"
    by (simp_all add: example_pool_def example_shared_def)
  note keeps = request_keeps_its_runtime [OF this, of example_env "[Install (ps_runtime example_state)]", unfolded Let_def]
  obtain tk sh' where a: "advance example_env (sy_tasks ?s ! 0) (sy_shared ?s) = (tk, sh')" by fastforce
  have "advance example_env (sy_tasks ?s ! 0) ((sy_shared ?s)\<lparr>sh_runtimes := [sh_runtimes (sy_shared ?s) ! 0], sh_current := 0\<rparr>) =
      (tk, sh'\<lparr>sh_runtimes := [sh_runtimes (sy_shared ?s) ! 0][0 := sh_runtimes sh' ! 0], sh_current := 0\<rparr>)"
    using keeps a by (metis nth_Cons_0)
  moreover have "rn_pricing (sh_runtimes (sy_shared ?s) ! 0) = rn_pricing (sh_runtimes (sy_shared example_pool) ! 0)" using keeps by blast
  then have "rn_pricing (sh_runtimes (sy_shared ?s) ! 0) = example_prices" by (simp add: example_pool_def example_shared_def)
  moreover have "sh_current (sy_shared ?s) = 1" by (simp add: install_def example_pool_def example_shared_def)
  ultimately show ?thesis using a by (simp only: Let_def fst_conv)
qed

end
