(* ===== verification/Concurrent_Cache.thy ===== *)
theory Concurrent_Cache
  imports Concurrency
begin

text \<open>
  Tenants and the response cache under concurrency: lookups and stores of overlapping requests interleave in any
  order, on the caches of any number of runtimes, and a cached reply still reaches the tenant it was stored for
  only.
\<close>

section \<open>Where an entry comes from\<close>

definition held_in :: "('c \<Rightarrow> (string \<times> cached_response) set) \<Rightarrow> ('w, 'c) runtime \<Rightarrow> (string \<times> cached_response) set" where
  "held_in held rt = (case rn_cache rt of None \<Rightarrow> {} | Some c \<Rightarrow> held c)"

lemma held_in_view: "held_in held (ps_runtime st) = cache_holds held st"
  by (simp add: held_in_def cache_holds_def)

text \<open>The bytes whose digest is the cache key of a request.\<close>

definition task_material :: "'c proxy_env \<Rightarrow> task_request \<Rightarrow> virtual_key \<Rightarrow> bytes \<Rightarrow> bytes" where
  "task_material E rq key body =
     cache_material (key_identifier key) (task_model E rq)
       (case header_str (tr_headers rq) IDEMPOTENCY_HEADER of Some k \<Rightarrow> ''idempotency:'' @ k | None \<Rightarrow> body)"

lemma task_cache_key_material:
  "task_cache_key E rq key body = Some k \<Longrightarrow>
     k = hex_encode (px_crypto E) (sha256 (px_crypto E) (task_material E rq key body))"
  by (auto simp: task_cache_key_def request_cache_key_def task_material_def cache_key_for_material split: if_splits)

text \<open>What a task remembers agrees with its stage.\<close>

fun remembers :: "'c proxy_env \<Rightarrow> task_request \<Rightarrow> bytes option \<Rightarrow> stage \<Rightarrow> bool" where
  "remembers E rq b (Screened key i body) = (b = Some body)"
| "remembers E rq b (Missed key i body) = (b = Some body)"
| "remembers E rq b (Answered key i ck up) = (\<exists>body. b = Some body \<and> ck = task_cache_key E rq key body)"
| "remembers E rq b (Charged key i ck up) = (\<exists>body. b = Some body \<and> ck = task_cache_key E rq key body)"
| "remembers E rq b g = True"

definition coherent :: "'c proxy_env \<Rightarrow> task \<Rightarrow> bool" where
  "coherent E tk \<longleftrightarrow> (\<forall>key. stage_key (tk_stage tk) = Some key \<longrightarrow> tk_key tk = Some key) \<and>
     remembers E (tk_request tk) (tk_screened tk) (tk_stage tk)"

text \<open>A finished request that was answered with a miss and whose reply went into the cache under \<open>k\<close>.\<close>

definition filed :: "'c proxy_env \<Rightarrow> task \<Rightarrow> string \<Rightarrow> cached_response \<Rightarrow> bool" where
  "filed E tk k v \<longleftrightarrow> (\<exists>key body. tk_key tk = Some key \<and> tk_screened tk = Some body \<and>
     task_cache_key E (tk_request tk) key body = Some k) \<and> tk_stage tk = Finished (Ret (reply_of E v ''MISS''))"

lemma task_step_cached:
  assumes law: "moka_law (px_moka E) held" and s: "task_step E rq g sh = (g', sh', fx)" and "n < length (sh_runtimes sh)"
    and new: "(k, v) \<in> held_in held (sh_runtimes sh' ! n)"
  shows "(k, v) \<in> held_in held (sh_runtimes sh ! n) \<or>
    (\<exists>key i up. g = Charged key i (Some k) up \<and> g' = Finished (Ret (reply_of E v ''MISS'')))"
proof (cases g)
  case (Screened key i body)
  obtain x st where c: "cache_lookup E (view sh i) (task_cache_key E rq key body) = (x, st)" by fastforce
  with Screened s have "sh' = put_view sh i st" by (auto simp: step_screened_def split: option.splits prod.splits)
  with new assms(3) subsetD [OF cache_lookup_cache(1) [OF law c]] show ?thesis
    by (cases "n = i") (auto simp: put_view_def held_in_view [symmetric])
next
  case (Charged key i ck up)
  show ?thesis
  proof (cases "sh' = sh")
    case False
    obtain r st where c: "store_and_reply E (view sh i) ck up = (r, st)" by fastforce
    with Charged s False have "sh' = put_view sh i st" "g' = Finished (Ret r)"
      by (auto simp: step_charged_def Let_def split: if_splits)
    with new assms(3) store_and_reply_cache [OF law c, of k v] Charged show ?thesis
      by (cases "n = i") (auto simp: put_view_def held_in_view [symmetric])
  qed (use new in simp)
next
  case (Answered key i ck up)
  with s new assms(3) show ?thesis
    by (cases "n = i") (auto simp: step_answered_def Let_def put_view_def)
qed (use s new in \<open>auto simp: step_identified_def step_authorized_def step_loaded_def step_checked_def step_missed_def Let_def
    split: if_splits option.splits prod.splits sum.splits exec.splits proxy_route.splits\<close>)

lemma task_step_remembers:
  assumes "task_step E rq g sh = (g', sh', fx)" "remembers E rq b g"
  shows "remembers E rq (case g' of Screened key i body \<Rightarrow> Some body | _ \<Rightarrow> b) g'"
  using assms
  by (cases g) (auto simp: step_defs Let_def split: if_splits option.splits prod.splits sum.splits exec.splits proxy_route.splits)

lemma advance_coherent: "coherent E tk \<Longrightarrow> advance E tk sh = (tk', sh') \<Longrightarrow> coherent E tk'"
  by (auto simp: coherent_def advance_def split: prod.splits dest: task_step_remembers)

lemma advance_filed: "filed E tk k v \<Longrightarrow> advance E tk sh = (tk', sh') \<Longrightarrow> filed E tk' k v"
  by (auto simp: filed_def advance_def)

lemma poll_filed: "filed E tk k v \<Longrightarrow> poll E now item tk sh = (tk', sh') \<Longrightarrow> tk' = tk \<and> sh' = sh"
  by (auto simp: filed_def poll_def reply_of_def build_response_def error_reply_def split: if_splits)

lemma poll_coherent: "coherent E tk \<Longrightarrow> poll E now item tk sh = (tk', sh') \<Longrightarrow> coherent E tk' \<and> sh_runtimes sh' = sh_runtimes sh"
  by (rule poll_cases [of E now item tk sh]) (auto simp: coherent_def)

section \<open>The pool\<close>

definition pool_cached :: "'c proxy_env \<Rightarrow> ('c \<Rightarrow> (string \<times> cached_response) set) \<Rightarrow> ('w, 'c) pool \<Rightarrow> bool" where
  "pool_cached E held s \<longleftrightarrow> list_all (coherent E) (sy_tasks s) \<and>
     (\<forall>n < length (sh_runtimes (sy_shared s)). \<forall>(k, v) \<in> held_in held (sh_runtimes (sy_shared s) ! n).
        \<exists>tk \<in> set (sy_tasks s). filed E tk k v)"

text \<open>A runtime is installed without a cache or with the new one its builder made.\<close>

definition fresh_cache :: "'c proxy_env \<Rightarrow> ('w, 'c) runtime \<Rightarrow> bool" where
  "fresh_cache E rt \<longleftrightarrow> rn_cache rt = None \<or> (\<exists>n t. rn_cache rt = Some (cache_new (px_moka E) n t))"

fun fresh_event :: "'c proxy_env \<Rightarrow> ('w, 'c) pool_event \<Rightarrow> bool" where
  "fresh_event E (Install rt) = fresh_cache E rt"
| "fresh_event E e = True"

lemma fresh_cache_empty: "moka_law (px_moka E) held \<Longrightarrow> fresh_cache E rt \<Longrightarrow> held_in held rt = {}"
  using moka_lawD(1) by (fastforce simp: fresh_cache_def held_in_def cache_new_def)

lemma on_task_cached:
  assumes ok: "pool_cached E held s"
    and f: "\<And>tk tk' sh'. tk \<in> set (sy_tasks s) \<Longrightarrow> f tk (sy_shared s) = (tk', sh') \<Longrightarrow>
        coherent E tk' \<and> (\<forall>k v. filed E tk k v \<longrightarrow> filed E tk' k v) \<and>
        length (sh_runtimes sh') = length (sh_runtimes (sy_shared s)) \<and>
        (\<forall>n < length (sh_runtimes (sy_shared s)). \<forall>k v. (k, v) \<in> held_in held (sh_runtimes sh' ! n) \<longrightarrow>
           (k, v) \<in> held_in held (sh_runtimes (sy_shared s) ! n) \<or> filed E tk' k v)"
  shows "pool_cached E held (on_task f j s)"
proof (cases "j < length (sy_tasks s)")
  case True
  obtain tk' sh' where t: "f (sy_tasks s ! j) (sy_shared s) = (tk', sh')" by fastforce
  note j = f [OF nth_mem [OF True] t]
  have mem: "tk' \<in> set ((sy_tasks s)[j := tk'])" using True by (rule set_update_memI)
  have old: "\<exists>tk \<in> set ((sy_tasks s)[j := tk']). filed E tk k v" if tk: "tk \<in> set (sy_tasks s)" "filed E tk k v" for tk k v
  proof (cases "tk = sy_tasks s ! j")
    case True
    with j tk mem show ?thesis by blast
  next
    case False
    from tk(1) obtain i where "i < length (sy_tasks s)" "tk = sy_tasks s ! i" by (metis in_set_conv_nth)
    with False have "tk \<in> set ((sy_tasks s)[j := tk'])"
      by (metis length_list_update nth_list_update_neq nth_mem)
    with tk(2) show ?thesis by blast
  qed
  have "list_all (coherent E) ((sy_tasks s)[j := tk'])"
    using ok j by (auto simp: pool_cached_def list_all_iff dest!: subsetD [OF set_update_subset_insert])
  moreover have "\<exists>tk \<in> set ((sy_tasks s)[j := tk']). filed E tk k v"
    if "n < length (sh_runtimes (sy_shared s))" "(k, v) \<in> held_in held (sh_runtimes sh' ! n)" for n k v
  proof (cases "filed E tk' k v")
    case False
    with j that have "(k, v) \<in> held_in held (sh_runtimes (sy_shared s) ! n)" by blast
    with ok that(1) obtain tk where "tk \<in> set (sy_tasks s)" "filed E tk k v" unfolding pool_cached_def by blast
    then show ?thesis by (rule old)
  qed (use mem in blast)
  ultimately show ?thesis using j by (auto simp: on_task_def True t pool_cached_def)
qed (use ok in \<open>simp add: on_task_def\<close>)

lemma pool_step_cached:
  assumes law: "moka_law (px_moka E) held" and ok: "pool_cached E held s" and "fresh_event E e"
  shows "pool_cached E held (pool_step E s e)"
proof (cases e)
  case (Advance j)
  show ?thesis unfolding Advance pool_step.simps
  proof (rule on_task_cached [OF ok])
    fix tk tk' sh'
    assume tk: "tk \<in> set (sy_tasks s)" and a: "advance E tk (sy_shared s) = (tk', sh')"
    have coh: "coherent E tk" using tk ok by (simp add: pool_cached_def list_all_iff)
    obtain g' fx where s: "task_step E (tk_request tk) (tk_stage tk) (sy_shared s) = (g', sh', fx)"
      using a by (auto simp: advance_def split: prod.splits)
    have "filed E tk' k v" if "tk_stage tk = Charged key i (Some k) up" "g' = Finished (Ret (reply_of E v ''MISS''))" for k v key i up
      using that a s coh by (auto simp: advance_def filed_def coherent_def)
    then show "coherent E tk' \<and> (\<forall>k v. filed E tk k v \<longrightarrow> filed E tk' k v) \<and>
        length (sh_runtimes sh') = length (sh_runtimes (sy_shared s)) \<and>
        (\<forall>n < length (sh_runtimes (sy_shared s)). \<forall>k v. (k, v) \<in> held_in held (sh_runtimes sh' ! n) \<longrightarrow>
           (k, v) \<in> held_in held (sh_runtimes (sy_shared s) ! n) \<or> filed E tk' k v)"
      using advance_coherent [OF coh a] advance_filed [OF _ a] task_step_frame [OF s] task_step_cached [OF law s]
      by (auto simp: shared_frame_def) blast
  qed
next
  case (Poll j now item)
  show ?thesis unfolding Poll pool_step.simps
  proof (rule on_task_cached [OF ok])
    fix tk tk' sh'
    assume tk: "tk \<in> set (sy_tasks s)" and a: "poll E now item tk (sy_shared s) = (tk', sh')"
    have "coherent E tk" using tk ok by (simp add: pool_cached_def list_all_iff)
    then show "coherent E tk' \<and> (\<forall>k v. filed E tk k v \<longrightarrow> filed E tk' k v) \<and>
        length (sh_runtimes sh') = length (sh_runtimes (sy_shared s)) \<and>
        (\<forall>n < length (sh_runtimes (sy_shared s)). \<forall>k v. (k, v) \<in> held_in held (sh_runtimes sh' ! n) \<longrightarrow>
           (k, v) \<in> held_in held (sh_runtimes (sy_shared s) ! n) \<or> filed E tk' k v)"
      using poll_coherent [OF _ a] poll_filed [OF _ a] by auto
  qed
next
  case (Install rt)
  with assms fresh_cache_empty [OF law, of rt] show ?thesis
    by (auto simp: pool_cached_def install_def nth_append less_Suc_eq)
next
  case (Spawn rq)
  have "coherent E (task_new rq)" by (simp add: coherent_def task_new_def)
  with Spawn ok show ?thesis by (fastforce simp: pool_cached_def)
qed (use ok in \<open>simp_all add: pool_cached_def\<close>)

lemma pool_run_cached:
  "moka_law (px_moka E) held \<Longrightarrow> pool_cached E held s \<Longrightarrow> list_all (fresh_event E) es \<Longrightarrow> pool_cached E held (pool_run E s es)"
  by (induction es arbitrary: s) (simp_all add: pool_step_cached)

section \<open>Isolation\<close>

text \<open>The materials of the requests made so far, of which the digest is assumed to have no collision.\<close>

definition materials :: "'c proxy_env \<Rightarrow> ('w, 'c) pool \<Rightarrow> bytes set" where
  "materials E s = {task_material E (tk_request tk) key body | tk key body.
     tk \<in> set (sy_tasks s) \<and> tk_key tk = Some key \<and> tk_screened tk = Some body}"

lemma lookup_hit:
  assumes law: "moka_law (px_moka E) held" and s: "step_screened E rq key i body sh = (Finished (Ret rep), sh', fx)"
  shows "\<exists>k v. task_cache_key E rq key body = Some k \<and> (k, v) \<in> held_in held (sh_runtimes sh ! i) \<and> rep = reply_of E v ''HIT''"
proof -
  obtain x st where c: "cache_lookup E (view sh i) (task_cache_key E rq key body) = (x, st)" by fastforce
  with s obtain v where "x = Some v" "rep = reply_of E v ''HIT''"
    by (auto simp: step_screened_def serve_from_cache_def reply_of_def split: option.splits)
  with cache_lookup_cache(2) [OF law c] show ?thesis by (auto simp: held_in_view [symmetric])
qed

text \<open>
  C7. Tenants never share cached replies, however their requests overlap: a request answered from the cache gets a
  reply that an earlier request of the same tenant received as a miss, under every interleaving of lookups, stores,
  reloads and key changes. It rests on the digest having no collision among the requests made and on
  tenant identifiers without NUL bytes.
\<close>

theorem concurrent_hit_from_same_tenant:
  assumes law: "moka_law (px_moka E) held"
    and start: "pool_ok False s0" "sy_tasks s0 = []" "list_all (fresh_cache E) (sh_runtimes (sy_shared s0))"
    and es: "list_all (fresh_event E) es"
    and s: "s = pool_run E s0 es" and j: "j < length (sy_tasks s)" "stage_at s j = Screened key i body"
    and hit: "stage_at (pool_step E s (Advance j)) j = Finished (Ret rep)"
    and free: "collision_free (px_crypto E) (materials E s)"
    and nul: "\<forall>tk \<in> set (sy_tasks s). \<forall>key. tk_key tk = Some key \<longrightarrow> NUL \<notin> set (key_identifier key)"
  shows "\<exists>tk \<in> set (sy_tasks s). \<exists>key' v. tk_key tk = Some key' \<and> key_identifier key' = key_identifier key \<and>
    tk_stage tk = Finished (Ret (reply_of E v ''MISS'')) \<and> rep = reply_of E v ''HIT''"
proof -
  let ?j = "sy_tasks s ! j"
  have "pool_cached E held s0"
    using start fresh_cache_empty [OF law] by (auto simp: pool_cached_def list_all_length)
  then have cached: "pool_cached E held s" and ok: "pool_ok False s"
    using pool_run_cached [OF law _ es] pool_run_ok [OF start(1)] by (simp_all add: s)
  have jin: "?j \<in> set (sy_tasks s)" using j(1) by simp
  have coh: "tk_key ?j = Some key" "tk_screened ?j = Some body"
    using cached jin j(2) by (auto simp: pool_cached_def list_all_iff coherent_def)
  have i: "i < length (sh_runtimes (sy_shared s))" using ok jin j(2) by (auto simp: pool_ok_def stage_ok_def)
  have "fst (step_screened E (tk_request ?j) key i body (sy_shared s)) = Finished (Ret rep)"
    using hit j by (simp add: on_task_nth advance_stage)
  then obtain sh' fx where "step_screened E (tk_request ?j) key i body (sy_shared s) = (Finished (Ret rep), sh', fx)"
    by (metis fst_conv prod_cases3)
  from lookup_hit [OF law this] obtain k v where k: "task_cache_key E (tk_request ?j) key body = Some k"
    and v: "(k, v) \<in> held_in held (sh_runtimes (sy_shared s) ! i)" and rep: "rep = reply_of E v ''HIT''" by blast
  from cached i v obtain tk where tk: "tk \<in> set (sy_tasks s)" and "filed E tk k v" unfolding pool_cached_def by blast
  then obtain key' body' where t: "tk_key tk = Some key'" "tk_screened tk = Some body'"
      "task_cache_key E (tk_request tk) key' body' = Some k" "tk_stage tk = Finished (Ret (reply_of E v ''MISS''))"
    by (auto simp: filed_def)
  have "task_material E (tk_request ?j) key body \<in> materials E s" "task_material E (tk_request tk) key' body' \<in> materials E s"
    using jin coh tk t by (auto simp: materials_def)
  with free task_cache_key_material [OF k] task_cache_key_material [OF t(3)]
  have "task_material E (tk_request ?j) key body = task_material E (tk_request tk) key' body'"
    by (auto simp: collision_free_def inj_on_def)
  moreover have "NUL \<notin> set (key_identifier key)" "NUL \<notin> set (key_identifier key')"
    using nul jin coh(1) tk t(1) by auto
  ultimately have "key_identifier key = key_identifier key'"
    by (auto simp: task_material_def dest: cache_material_scope)
  with tk t rep show ?thesis by auto
qed

section \<open>Two requests of one tenant\<close>

text \<open>
  A run of two requests that are open at the same time: the first is answered by the provider and its reply is
  stored, the second is answered from the cache.
\<close>

definition example_start :: "(nat, (string \<times> cached_response) list) pool" where
  "example_start = \<lparr>sy_shared = alone, sy_tasks = []\<rparr>"

definition example_plain :: task_request where
  "example_plain = \<lparr>tr_clocks = example_clocks, tr_route = ChatCompletions, tr_headers = example_headers, tr_body = []\<rparr>"

lemma plain_key: "vk_rate_limit_rps example_key = None" "vk_spend_limit example_key = None" "vk_expires_at example_key = None"
  "vk_models example_key = []"
  by (simp_all add: example_key_def anonymous_def)

lemma plain_fields: "tr_clocks example_plain = example_clocks" "tr_route example_plain = ChatCompletions" "tr_headers example_plain = example_headers"
  "tr_body example_plain = []" "task_model example_env example_plain = ''m''" "\<not> request_stream example_env ChatCompletions []"
  by (simp_all add: example_plain_def task_model_def request_model_def example_env_def unwrap_or_def request_stream_def)

definition plain_ck :: string where "plain_ck = cache_key_for example_crypto (key_identifier example_key) ''m'' None []"

lemma plain_ck: "task_cache_key example_env example_plain example_key [] = Some plain_ck"
  by (simp add: task_cache_key_def request_cache_key_def plain_fields plain_ck_def example_fields)

lemma plain_auth:
  "keystore_is_empty (ps_keys example_state) = False"
  "Option.bind (bearer_token example_headers) (keystore_authenticate (px_crypto example_env) (ps_keys example_state)) = Some example_key"
  by code_simp+

lemma plain_steps:
  assumes "sh_keys sh = ps_keys example_state"
  shows "task_step example_env example_plain Arrived sh = (Guarded, sh, no_effects)"
    "task_step example_env example_plain Guarded sh = (Identified example_key, sh, no_effects)"
    "task_step example_env example_plain (Identified example_key) sh = (Authorized example_key, sh, no_effects)"
    "task_step example_env example_plain (Authorized example_key) sh = (Loaded example_key (sh_current sh), sh,
       no_effects\<lparr>fx_spans := key_spans example_key ''m'' example_headers\<rparr>)"
    "task_step example_env example_plain (Loaded example_key i) sh = (Checked example_key i, sh, no_effects)"
    "rn_plugins (sh_runtimes sh ! i) = [] \<Longrightarrow>
       task_step example_env example_plain (Checked example_key i) sh = (Screened example_key i [], sh, no_effects)"
  using assms plain_auth
  by (simp_all add: step_identified_def is_expired_def plain_key plain_fields step_authorized_def step_loaded_def
      allows_model_def over_budget_def step_checked_def)

definition warm :: "(nat, (string \<times> cached_response) list) shared" where
  "warm = alone\<lparr>sh_runtimes := [(ps_runtime example_state)\<lparr>rn_cache := Some [(plain_ck, example_cached)]\<rparr>], sh_world := 1\<rparr>"

lemma alone_fields: "sh_keys alone = ps_keys example_state" "sh_current alone = 0" "sh_runtimes alone = [ps_runtime example_state]"
  "sh_world alone = 0" "sh_keys warm = ps_keys example_state" "sh_current warm = 0"
  "sh_runtimes warm = [(ps_runtime example_state)\<lparr>rn_cache := Some [(plain_ck, example_cached)]\<rparr>]"
  by (simp_all add: alone_def warm_def)

lemma plain_miss:
  "task_step example_env example_plain (Screened example_key 0 []) alone = (Missed example_key 0 [], alone, no_effects)"
proof -
  have "cache_lookup example_env (view alone 0) (Some plain_ck) = (None, view alone 0)"
    by (simp add: cache_lookup_def cache_get_def example_fields alone_fields view_def) (simp add: example_defs)
  then show ?thesis by (simp add: step_screened_def plain_ck)
qed

definition dispatched :: "(nat, (string \<times> cached_response) list) shared" where
  "dispatched = alone\<lparr>sh_world := 1\<rparr>"

lemma plain_last:
  "\<exists>fx. task_step example_env example_plain (Missed example_key 0 []) alone =
     (Answered example_key 0 (Some plain_ck) example_upstream, dispatched, fx)"
  "\<exists>fx. task_step example_env example_plain (Answered example_key 0 (Some plain_ck) example_upstream) dispatched =
     (Charged example_key 0 (Some plain_ck) example_upstream, dispatched, fx)"
  "\<exists>fx. task_step example_env example_plain (Charged example_key 0 (Some plain_ck) example_upstream) dispatched =
     (Finished (Ret (reply_of example_env example_cached ''MISS'')), warm, fx)"
proof -
  have c: "charge st tc example_key c = st" for st :: "(nat, (string \<times> cached_response) list) proxy_state" and tc c
    by (simp add: charge_def plain_key split: option.split)
  have r: "store_and_reply example_env st ck example_upstream =
      (reply_of example_env example_cached ''MISS'', cache_store example_env st ck example_cached)"
    for st :: "(nat, (string \<times> cached_response) list) proxy_state" and ck
    by (simp add: store_and_reply_def reply_of_def example_upstream_def example_cached_def)
  have "rs_status example_upstream = 200" by (simp add: example_upstream_def)
  moreover have "moka_insert example_moka [] k v = [(k, v)]" for k v by (simp add: example_moka_def)
  ultimately show "\<exists>fx. task_step example_env example_plain (Charged example_key 0 (Some plain_ck) example_upstream) dispatched =
     (Finished (Ret (reply_of example_env example_cached ''MISS'')), warm, fx)"
    by (simp add: step_charged_def r dispatched_def alone_fields example_fields cache_store_def cache_insert_def put_view_def view_def
        warm_def Let_def)
qed (simp_all add: dispatched_def step_missed_def step_answered_def alone_fields example_fields plain_fields plain_ck Let_def charge_def
    plain_key split: option.split)

lemma plain_hit:
  "\<exists>sh fx. task_step example_env example_plain (Screened example_key 0 []) warm =
     (Finished (Ret (reply_of example_env example_cached ''HIT'')), sh, fx)"
proof -
  have "\<exists>st'. cache_lookup example_env (view warm 0) (Some plain_ck) = (Some example_cached, st')"
    by (simp add: cache_lookup_def cache_get_def example_fields alone_fields view_def) (simp add: example_moka_def)
  then show ?thesis by (auto simp: step_screened_def plain_ck serve_from_cache_def reply_of_def)
qed

definition example_events :: "(nat, (string \<times> cached_response) list) pool_event list" where
  "example_events =
     [Spawn example_plain, Spawn example_plain,
      Advance 0, Advance 0, Advance 0, Advance 0, Advance 0, Advance 0, Advance 0, Advance 0, Advance 0, Advance 0,
      Advance 1, Advance 1, Advance 1, Advance 1, Advance 1, Advance 1]"

lemma on_task_advance:
  "j < length ts \<Longrightarrow>
     on_task (advance E) j \<lparr>sy_shared = sh, sy_tasks = ts\<rparr> =
       (case task_step E (tk_request (ts ! j)) (tk_stage (ts ! j)) sh of
          (g, sh', fx) \<Rightarrow> \<lparr>sy_shared = sh', sy_tasks = ts[j := (ts ! j)\<lparr>tk_stage := g,
             tk_key := (case stage_key g of Some key \<Rightarrow> Some key | None \<Rightarrow> tk_key (ts ! j)),
             tk_screened := (case g of Screened key i body \<Rightarrow> Some body | _ \<Rightarrow> tk_screened (ts ! j)),
             tk_effects := fx_append (tk_effects (ts ! j)) fx\<rparr>]\<rparr>)"
  by (simp add: on_task_def advance_def split: prod.split)

lemma example_events_run:
  "\<exists>fx fx'. pool_run example_env example_start example_events = \<lparr>sy_shared = warm, sy_tasks =
     [\<lparr>tk_request = example_plain, tk_stage = Finished (Ret (reply_of example_env example_cached ''MISS'')),
       tk_key = Some example_key, tk_screened = Some [], tk_effects = fx\<rparr>,
      \<lparr>tk_request = example_plain, tk_stage = Screened example_key 0 [], tk_key = Some example_key, tk_screened = Some [],
       tk_effects = fx'\<rparr>]\<rparr>"
proof -
  obtain fx8 where f8: "task_step example_env example_plain (Missed example_key 0 []) alone =
     (Answered example_key 0 (Some plain_ck) example_upstream, dispatched, fx8)" using plain_last(1) ..
  obtain fx9 where f9: "task_step example_env example_plain (Answered example_key 0 (Some plain_ck) example_upstream) dispatched =
     (Charged example_key 0 (Some plain_ck) example_upstream, dispatched, fx9)" using plain_last(2) ..
  obtain fx10 where f10: "task_step example_env example_plain (Charged example_key 0 (Some plain_ck) example_upstream) dispatched =
     (Finished (Ret (reply_of example_env example_cached ''MISS'')), warm, fx10)" using plain_last(3) ..
  have plugins: "rn_plugins (ps_runtime example_state) = []" by (simp add: example_fields)
  note steps = plain_steps [OF alone_fields(1)] plain_steps [OF alone_fields(5)] plain_miss f8 f9 f10
  show ?thesis unfolding example_events_def example_start_def
    by (simp add: task_new_def on_task_advance steps alone_fields plugins del: task_step.simps)
qed

theorem concurrent_hit_from_same_tenant_witness:
  "\<exists>tk \<in> set (sy_tasks (pool_run example_env example_start example_events)). \<exists>key' v.
     tk_key tk = Some key' \<and> key_identifier key' = key_identifier example_key \<and>
     tk_stage tk = Finished (Ret (reply_of example_env v ''MISS'')) \<and>
     reply_of example_env example_cached ''HIT'' = reply_of example_env v ''HIT''"
proof -
  obtain fx fx' where run: "pool_run example_env example_start example_events = \<lparr>sy_shared = warm, sy_tasks =
     [\<lparr>tk_request = example_plain, tk_stage = Finished (Ret (reply_of example_env example_cached ''MISS'')),
       tk_key = Some example_key, tk_screened = Some [], tk_effects = fx\<rparr>,
      \<lparr>tk_request = example_plain, tk_stage = Screened example_key 0 [], tk_key = Some example_key, tk_screened = Some [],
       tk_effects = fx'\<rparr>]\<rparr>" using example_events_run by blast
  obtain sh fx'' where hit: "task_step example_env example_plain (Screened example_key 0 []) warm =
     (Finished (Ret (reply_of example_env example_cached ''HIT'')), sh, fx'')" using plain_hit by blast
  have law: "moka_law (px_moka example_env) set" by (simp add: example_fields example_moka_law)
  have ok: "pool_ok False example_start"
    by (simp add: pool_ok_def shared_ok_def example_start_def alone_fields example_fields keystore_wf_new)
      (simp add: alone_def example_state_def rate_limiter_ok_def)
  have fresh: "list_all (fresh_cache example_env) (sh_runtimes (sy_shared example_start))"
    by (simp add: example_start_def alone_fields fresh_cache_def cache_new_def example_fields) (simp add: example_moka_def)
  show ?thesis
  proof (rule concurrent_hit_from_same_tenant [OF law ok _ fresh _ refl, where j = 1 and i = 0 and body = "[]"])
    show "collision_free (px_crypto example_env) (materials example_env (pool_run example_env example_start example_events))"
      by (simp add: collision_free_def inj_on_def example_fields) (simp add: example_crypto_def)
    show "stage_at (pool_step example_env (pool_run example_env example_start example_events) (Advance 1)) 1 =
       Finished (Ret (reply_of example_env example_cached ''HIT''))"
      unfolding run using hit by (simp add: on_task_def advance_def del: task_step.simps)
    show "list_all (fresh_event example_env) example_events"
      by (simp add: example_events_def)
    show "sy_tasks example_start = []" by (simp add: example_start_def)
  qed (simp_all add: run example_fields)
qed

end
