(* ===== verification/Periods.thy ===== *)
theory Periods
  imports SpendTracker Bedrock_Dates
begin

text \<open>
  The periods a budget is kept for, against the calendar: what days, ISO weeks and months are is stated here from
  the step-by-step calendar of \<open>Bedrock_Dates\<close>, apart from the tokens of \<open>auth.rs\<close>, and the ledger's report is shown
  to be the bill of such a period.
\<close>

section \<open>The calendar of a timestamp\<close>

text \<open>Days are counted from 1 January 1970, a Thursday; weeks begin on Monday.\<close>

definition utc_day :: "utc \<Rightarrow> nat" where
  "utc_day t = nat (unix_timestamp t div 86400)"

definition date_of_day :: "nat \<Rightarrow> int \<times> nat \<times> nat" where
  "date_of_day d = (next_date ^^ d) (1970, 1, 1)"

definition day_year :: "nat \<Rightarrow> int" where
  "day_year d = fst (date_of_day d)"

definition day_month :: "nat \<Rightarrow> nat" where
  "day_month d = fst (snd (date_of_day d))"

definition day_week :: "nat \<Rightarrow> nat" where
  "day_week d = (d + 3) div 7"

text \<open>The ISO year of a week is that of its Thursday, and its number how many Thursdays of that year it has seen.\<close>

definition iso_year :: "nat \<Rightarrow> int" where
  "iso_year w = day_year (7 * w)"

definition iso_week :: "nat \<Rightarrow> nat" where
  "iso_week w = length (filter (\<lambda>v. iso_year v = iso_year w) [0..<Suc w])"

text \<open>What the \<open>time\<close> crate documents of a reading: a 64-bit timestamp, the date of its day, years up to 9999.\<close>

definition utc_ok :: "utc \<Rightarrow> bool" where
  "utc_ok t \<longleftrightarrow> 0 \<le> unix_timestamp t \<and> unix_timestamp t < 2 ^ 63 \<and> utc_year t \<le> 9999 \<and> utc_iso_week t \<le> 53 \<and>
     utc_year t = day_year (utc_day t) \<and> utc_month t = day_month (utc_day t) \<and> utc_iso_week t = iso_week (day_week (utc_day t))"

text \<open>The reading does not lie in the days around New Year that belong to a week of the other year.\<close>

definition in_iso_year :: "utc \<Rightarrow> bool" where
  "in_iso_year t \<longleftrightarrow> iso_year (day_week (utc_day t)) = day_year (utc_day t)"

fun same_period :: "period \<Rightarrow> utc \<Rightarrow> utc \<Rightarrow> bool" where
  "same_period Day a b = (utc_day a = utc_day b)"
| "same_period Week a b = (day_week (utc_day a) = day_week (utc_day b))"
| "same_period Month a b = (day_year (utc_day a) = day_year (utc_day b) \<and> day_month (utc_day a) = day_month (utc_day b))"

section \<open>Dates advance\<close>

lemma date_of_Suc: "date_of_day (Suc d) = next_date (date_of_day d)"
  by (simp add: date_of_day_def)

lemma month_range: "1 \<le> day_month d \<and> day_month d \<le> 12"
proof (induction d)
  case (Suc d)
  obtain y m k where "date_of_day d = (y, m, k)" by (rule prod_cases3)
  with Suc show ?case by (simp add: day_month_def date_of_Suc)
qed (simp add: day_month_def date_of_day_def)

lemma year_from_1970: "1970 \<le> day_year d"
proof (induction d)
  case (Suc d)
  obtain y m k where "date_of_day d = (y, m, k)" by (rule prod_cases3)
  with Suc show ?case by (simp add: day_year_def date_of_Suc)
qed (simp add: day_year_def date_of_day_def)

text \<open>Months counted through the years.\<close>

definition month_index :: "nat \<Rightarrow> int" where
  "month_index d = 12 * day_year d + int (day_month d)"

lemma month_index_step: "month_index d \<le> month_index (Suc d)"
proof -
  obtain y m k where "date_of_day d = (y, m, k)" by (rule prod_cases3)
  with month_range [of d] show ?thesis by (simp add: month_index_def day_year_def day_month_def date_of_Suc)
qed

lemma month_index_mono: "a \<le> b \<Longrightarrow> month_index a \<le> month_index b"
  by (rule lift_Suc_mono_le [of month_index]) (rule month_index_step)

lemma month_index_eq:
  "month_index a = month_index b \<longleftrightarrow> day_year a = day_year b \<and> day_month a = day_month b"
  using month_range [of a] month_range [of b] by (auto simp: month_index_def) presburger+

lemma iso_week_less: "iso_year v = iso_year w \<Longrightarrow> v < w \<Longrightarrow> iso_week v < iso_week w"
proof -
  assume y: "iso_year v = iso_year w" and "v < w"
  then obtain n where "Suc w = Suc v + n" "w \<in> set [Suc v..<Suc v + n]" by (metis Suc_leI atLeastLessThan_iff le_Suc_ex lessI less_imp_le_nat not_less_eq set_upt)
  moreover from this(1) have "[0..<Suc w] = [0..<Suc v] @ [Suc v..<Suc v + n]" by (simp only: upt_add_eq_append [of 0 "Suc v" n])
  moreover from calculation(2) have "filter (\<lambda>u. iso_year u = iso_year w) [Suc v..<Suc v + n] \<noteq> []"
    by (auto simp: filter_empty_conv)
  ultimately show ?thesis unfolding iso_week_def y by (simp del: upt_Suc)
qed

lemma iso_week_inject: "iso_year v = iso_year w \<Longrightarrow> iso_week v = iso_week w \<Longrightarrow> v = w"
  using iso_week_less [of v w] iso_week_less [of w v] by (metis less_irrefl linorder_neqE_nat)

section \<open>Tokens and periods\<close>

lemma u64_inject: "0 \<le> x \<Longrightarrow> x < 2 ^ 64 \<Longrightarrow> 0 \<le> y \<Longrightarrow> y < 2 ^ 64 \<Longrightarrow> (word_of_int x :: u64) = word_of_int y \<longleftrightarrow> x = y"
  by (simp add: word_of_int_eq_iff take_bit_int_eq_self)

lemma token_word:
  assumes "0 \<le> x" "x \<le> 9999" "0 \<le> y" "y \<le> 9999" "m < 100" "n < 100"
  shows "(word_of_int x * 100 + of_nat m :: u64) = word_of_int y * 100 + of_nat n \<longleftrightarrow> x = y \<and> m = n"
proof -
  have w: "(word_of_int z * 100 + of_nat k :: u64) = word_of_int (z * 100 + int k)" for z k
    by (simp add: of_int_add)
  have "(word_of_int (x * 100 + int m) :: u64) = word_of_int (y * 100 + int n) \<longleftrightarrow> x * 100 + int m = y * 100 + int n"
    using assms by (intro u64_inject) simp_all
  moreover have "(z * 100 + int k) div 100 = z" "(z * 100 + int k) mod 100 = int k" if "k < 100" for z k
    using that by simp_all
  then have "x * 100 + int m = y * 100 + int n \<longleftrightarrow> x = y \<and> m = n" using assms(5,6) by (metis of_nat_eq_iff)
  ultimately show ?thesis unfolding w by (simp only:)
qed

lemma token_same_period:
  assumes a: "utc_ok a" "p = Week \<Longrightarrow> in_iso_year a" and b: "utc_ok b" "p = Week \<Longrightarrow> in_iso_year b"
  shows "current_period_token a p = current_period_token b p \<longleftrightarrow> same_period p a b"
proof (cases p)
  case Day
  have "i64_div (unix_timestamp t) 86400 = int (utc_day t) \<and> int (utc_day t) < 2 ^ 63" if "utc_ok t" for t
  proof -
    have t: "0 \<le> unix_timestamp t" "unix_timestamp t < 2 ^ 63" using that by (simp_all add: utc_ok_def)
    then have "unix_timestamp t div 86400 \<le> unix_timestamp t" using zdiv_mono2 [of "unix_timestamp t" 1 86400] by simp
    with t show ?thesis by (simp add: i64_div_def utc_day_def sgn_if)
  qed
  note d = this
  have "(word_of_int (int (utc_day a)) :: u64) = word_of_int (int (utc_day b)) \<longleftrightarrow> utc_day a = utc_day b"
    using u64_inject [of "int (utc_day a)" "int (utc_day b)"] d [OF a(1)] d [OF b(1)] by simp
  with Day d [OF a(1)] d [OF b(1)] show ?thesis by (simp add: current_period_token_def)
next
  case Week
  have y: "0 \<le> utc_year t \<and> utc_year t \<le> 9999 \<and> utc_iso_week t < 100 \<and> utc_year t = iso_year (day_week (utc_day t)) \<and>
      utc_iso_week t = iso_week (day_week (utc_day t))" if "utc_ok t" "in_iso_year t" for t
    using that year_from_1970 [of "utc_day t"] by (simp add: utc_ok_def in_iso_year_def)
  note wa = y [OF a(1) a(2) [OF Week]] and wb = y [OF b(1) b(2) [OF Week]]
  have "current_period_token a Week = current_period_token b Week \<longleftrightarrow> utc_year a = utc_year b \<and> utc_iso_week a = utc_iso_week b"
    unfolding current_period_token_def period.case using wa wb by (intro token_word) simp_all
  also have "\<dots> \<longleftrightarrow> day_week (utc_day a) = day_week (utc_day b)"
    using wa wb iso_week_inject [of "day_week (utc_day a)" "day_week (utc_day b)"] by auto
  finally show ?thesis by (simp add: Week)
next
  case Month
  have y: "0 \<le> utc_year t \<and> utc_year t \<le> 9999 \<and> utc_month t < 100 \<and> utc_year t = day_year (utc_day t) \<and>
      utc_month t = day_month (utc_day t)" if "utc_ok t" for t
    using that year_from_1970 [of "utc_day t"] month_range [of "utc_day t"] by (simp add: utc_ok_def)
  note ma = y [OF a(1)] and mb = y [OF b(1)]
  have "current_period_token a Month = current_period_token b Month \<longleftrightarrow> utc_year a = utc_year b \<and> utc_month a = utc_month b"
    unfolding current_period_token_def period.case using ma mb by (intro token_word) simp_all
  with ma mb show ?thesis by (simp add: Month)
qed

lemma same_period_convex:
  assumes "unix_timestamp a \<le> unix_timestamp b" "unix_timestamp b \<le> unix_timestamp c" "same_period p a c"
  shows "same_period p b c"
proof -
  have d: "utc_day a \<le> utc_day b" "utc_day b \<le> utc_day c"
    using assms(1,2) by (simp_all add: utc_day_def nat_mono zdiv_mono1)
  have w: "day_week (utc_day a) \<le> day_week (utc_day b)" "day_week (utc_day b) \<le> day_week (utc_day c)"
    using d by (simp_all add: day_week_def div_le_mono)
  show ?thesis using assms(3) d w month_index_mono [OF d(1)] month_index_mono [OF d(2)]
    by (cases p) (simp_all add: month_index_eq [symmetric])
qed

section \<open>The bill of a period\<close>

definition period_total :: "(f64 \<times> utc) list \<Rightarrow> period \<Rightarrow> utc \<Rightarrow> f64" where
  "period_total cs p now = foldl f64_add (Fin 0) (map fst (filter (\<lambda>(c, t). same_period p t now) cs))"

text \<open>
  C20. The ledger is the period's bill: under any interleaving with other keys, for a key charged under one kind of
  period and not revoked meanwhile, what the ledger reports is the sum of the charges recorded for that key on the
  same calendar day, in the same ISO week or in the same calendar month as the reading, in the order they
  were made, and nothing older. The clock does not go back, and for weekly budgets neither the charges nor
  the reading fall on the days around New Year whose ISO week belongs to the other year, where the week
  token of the code is wrong.
\<close>

theorem ledger_reports_period_total:
  assumes "filter (\<lambda>e. event_key e = k) es = charge_events k p cs"
    and "sorted (map unix_timestamp (map snd cs @ [now]))"
    and "\<forall>t \<in> set (now # map snd cs). utc_ok t \<and> (p = Week \<longrightarrow> in_iso_year t)"
  shows "spend_current_usd (ledger_run [] es) k p now = period_total cs p now"
proof -
  let ?S = "set (now # map snd cs)"
  have token: "current_period_token a p = current_period_token b p \<longleftrightarrow> same_period p a b" if "a \<in> ?S" "b \<in> ?S" for a b
    using that assms(3) by (intro token_same_period) blast+
  have "token_convex p ?S"
    unfolding token_convex_def
  proof (intro ballI impI)
    fix a b c
    assume in_S: "a \<in> ?S" "b \<in> ?S" "c \<in> ?S" and le: "unix_timestamp a \<le> unix_timestamp b" "unix_timestamp b \<le> unix_timestamp c"
      and "current_period_token a p = current_period_token c p"
    then have "same_period p a c" by (simp only: token [OF in_S(1,3)])
    with le have "same_period p b c" by (rule same_period_convex)
    then show "current_period_token b p = current_period_token c p" by (simp only: token [OF in_S(2,3)])
  qed
  from ledger_total [OF this assms(2)] have "spend_current_usd (ledger_run [] (charge_events k p cs)) k p now =
      charges_total cs p (current_period_token now p)" by auto
  moreover have "filter (\<lambda>(c, t). current_period_token t p = current_period_token now p) cs =
      filter (\<lambda>(c, t). same_period p t now) cs"
  proof (rule filter_cong [OF refl])
    fix x assume "x \<in> set cs"
    then have "snd x \<in> ?S" by simp
    from token [OF this, of now] show "(case x of (c, t) \<Rightarrow> current_period_token t p = current_period_token now p) =
        (case x of (c, t) \<Rightarrow> same_period p t now)" by (cases x) simp
  qed
  ultimately show ?thesis using assms(1) current_usd_entry [OF ledger_run_isolated [of "[]" es k], of p now]
    by (simp add: charges_total_def period_total_def)
qed

text \<open>Monday 5 January 1970 is the first day of its week and Monday 12 January that of the next.\<close>

definition january :: "nat \<Rightarrow> utc" where
  "january d = \<lparr>utc_instant = (int d - 1) * 86400 * 10 ^ 9, unix_timestamp = (int d - 1) * 86400, utc_year = 1970,
     utc_month = 1, utc_iso_week = iso_week (day_week (d - 1))\<rparr>"

lemma january_dates: "date_of_day 0 = (1970, 1, 1)" "date_of_day 7 = (1970, 1, 8)" "date_of_day 14 = (1970, 1, 15)"
  "date_of_day 4 = (1970, 1, 5)" "date_of_day 11 = (1970, 1, 12)" "date_of_day 12 = (1970, 1, 13)"
  by code_simp+

lemma january_ok: "d \<in> {5, 12, 13} \<Longrightarrow> utc_ok (january d) \<and> in_iso_year (january d)"
  by (auto simp: january_def utc_ok_def in_iso_year_def utc_day_def day_year_def day_month_def day_week_def iso_year_def iso_week_def
      january_dates numeral_2_eq_2)

theorem ledger_reports_period_total_witness:
  "spend_current_usd (ledger_run []
      [KStep ''a'' (Week, Fin 2, january 5), KStep ''b'' (Week, Fin 9, january 12),
       KStep ''a'' (Week, Fin 3, january 12), KStep ''a'' (Week, Fin 4, january 13)]) ''a'' Week (january 13) =
   foldl f64_add (Fin 0) [Fin 3, Fin 4]"
proof -
  have "period_total [(Fin 2, january 5), (Fin 3, january 12), (Fin 4, january 13)] Week (january 13) =
      foldl f64_add (Fin 0) [Fin 3, Fin 4]"
    by (simp add: period_total_def january_def utc_day_def day_week_def)
  moreover have "sorted (map unix_timestamp (map snd [(Fin 2, january 5), (Fin 3, january 12), (Fin 4, january 13)] @ [january 13]))"
    by (simp add: january_def)
  ultimately show ?thesis using january_ok
    by (subst ledger_reports_period_total [where cs = "[(Fin 2, january 5), (Fin 3, january 12), (Fin 4, january 13)]"])
      (simp_all add: charge_events_def)
qed

end
