(* ===== verification/Spec2Isabelle.thy ===== *)
theory Spec2Isabelle
  imports Prelude F64 Auth Keyed RateLimiter SpendTracker Rust_Str Json Sse Config AuditLog Provider OpenAi Registry
    Anthropic Bedrock Bedrock_Dates Cost Cache StreamObserver Anthropic_Billing Plugin Tls Runtime Proxy Proxy_Safety ControlStatus
    Admin ControlMap ControlClient Transition Gateway ControlLoop Ctl Telemetry Metrics Wire Operator RateWindow
    Tasks Concurrency Concurrent_Cache Periods
begin

text \<open>
  VaultPlane Gateway: a verification library for the data plane.

  The program. The gateway is a proxy in front of large-language-model providers. A client sends an
  OpenAI-shaped request with a virtual key; the proxy (\<open>vaultplane/src/proxy.rs\<close>) authenticates it,
  applies the key's expiry, rate limit, model scope and budget, runs the inline plugins, looks the
  request up in the response cache, and dispatches it through the model registry
  (\<open>vaultplane-core/src/provider/registry.rs\<close>) to a provider connector, failing over between the
  configured routes. The response is accounted (cost, ledger, metrics, spans) and returned; a
  streamed response is accounted while it passes (\<open>stream_observer.rs\<close>). The admin API (\<open>admin.rs\<close>)
  manages keys and reloads the configuration; a Control Node client (\<open>control_plane/\<close>) keeps
  configuration and keys in sync with a central node; \<open>main.rs\<close> starts and stops the process;
  \<open>vaultplane-ctl\<close> is the operator's command-line tool.

  Theories and the sources they model.
  \<^item> \<open>Prelude\<close>: words as machine integers, byte strings, string helpers, hash tables as association
    lists with distinct keys (\<open>tget\<close>, \<open>tput\<close>, \<open>tdel\<close>, \<open>tcollect\<close>), outcomes that may panic. \<open>Rust_Str\<close>: UTF-8
    validity, \<open>str::lines\<close>, \<open>str::trim\<close>. \<open>Json\<close>: \<open>serde_json::Value\<close> with sorted objects.
  \<^item> \<open>F64\<close>: binary64 arithmetic as exact rationals rounded to nearest even, with infinities and NaN.
    Signed zeros are identified; no comparison of the program distinguishes them.
  \<^item> \<open>Auth\<close>, \<open>RateLimiter\<close>, \<open>SpendTracker\<close>: \<open>auth.rs\<close>. Key store, token buckets, spend ledger. \<open>RateWindow\<close>: the limiter
    over a window of time. \<open>Periods\<close>: the ledger's periods against the calendar.
  \<^item> \<open>Keyed\<close>: the locale \<open>keyed_state\<close>, state held per key with steps that touch one key;
    interpreted on the limiter (\<open>rl\<close>) and the ledger (\<open>sp\<close>).
  \<^item> \<open>Config\<close>: \<open>config.rs\<close>. \<open>AuditLog\<close>: \<open>audit.rs\<close>. \<open>Cost\<close>: \<open>cost.rs\<close>. \<open>Cache\<close>: \<open>cache.rs\<close>.
  \<^item> \<open>Sse\<close>: \<open>sse.rs\<close>. \<open>StreamObserver\<close>: \<open>stream_observer.rs\<close>. \<open>Anthropic_Billing\<close>: the two composed with the
    Anthropic adapter.
  \<^item> \<open>Provider\<close>, \<open>OpenAi\<close>, \<open>Anthropic\<close>, \<open>Bedrock\<close>: \<open>provider.rs\<close>, \<open>provider/openai.rs\<close>, \<open>azure.rs\<close>, \<open>anthropic.rs\<close>,
    \<open>bedrock.rs\<close>, \<open>sigv4.rs\<close>. \<open>Bedrock_Dates\<close>: the calendar and the percent encoding of the signer against their
    specifications.
  \<^item> \<open>Registry\<close>: \<open>provider/registry.rs\<close>, with the locale \<open>failover_dispatch\<close>, interpreted on the chat loop (\<open>chat\<close>)
    and the embeddings loop (\<open>emb\<close>).
  \<^item> \<open>Plugin\<close>: \<open>plugin.rs\<close>, \<open>plugin/wasm.rs\<close> and the guest \<open>plugins/pii-redaction\<close>.
  \<^item> \<open>Tls\<close>: \<open>tls.rs\<close>. \<open>Runtime\<close>: \<open>runtime.rs\<close>. \<open>Proxy\<close>: \<open>proxy.rs\<close>; \<open>Proxy_Safety\<close>: its guarantees.
  \<^item> \<open>ControlStatus\<close>, \<open>ControlMap\<close>, \<open>ControlClient\<close>: \<open>control_plane/status.rs\<close>, \<open>dto.rs\<close> and \<open>map.rs\<close>, \<open>client.rs\<close> and
    \<open>control_plane.rs\<close>. \<open>Admin\<close>: \<open>admin.rs\<close>.
  \<^item> \<open>Transition\<close>: the locales \<open>event_system\<close> and \<open>observed_system\<close>. \<open>Gateway\<close>: \<open>main.rs\<close>, the process as a system of
    events, with their interpretations: the process invariant (\<open>gw\<close>), what changes a tenant's state
    (\<open>tenant\<close>), what changes the key store (\<open>key_store\<close>), the shutdown phases (\<open>drain\<close>, \<open>exited\<close>).
  \<^item> \<open>ControlLoop\<close>: the poll loop of \<open>control_plane/client.rs\<close>, through outages and beside a local reload.
  \<^item> \<open>Ctl\<close>: \<open>vaultplane-ctl/src/main.rs\<close>. \<open>Wire\<close>: the JSON bodies of the admin API at both ends, its routing table and
    extractors. \<open>Operator\<close>: the tool composed with the gateway over that wire.
  \<^item> \<open>Telemetry\<close>: \<open>telemetry.rs\<close> and \<open>prom.rs\<close>. \<open>Metrics\<close>: the labels the metrics carry, with the locale
    \<open>labelled_connector\<close>, interpreted on the four connectors (\<open>openai_lab\<close>, \<open>azure_lab\<close>, \<open>anthropic_lab\<close>, \<open>bedrock_lab\<close>).
    The hooks of \<open>vaultplane-plugin-sdk\<close> are in \<open>Plugin\<close>.
  \<^item> \<open>Tasks\<close>: the handlers of \<open>proxy.rs\<close> cut at every lock and await, a stage for what a suspended handler holds and a
    step to the next point; the runtimes are objects with an identity, so that a handler keeps the one it
    loaded. \<open>Concurrency\<close>: a pool of such tasks beside streamed replies, reloads and key changes in any order.
    \<open>Concurrent_Cache\<close>: the response cache under that interleaving.

  How the model reads. Structs are records and enums datatypes with the source's fields and
  constructors. A function that touches shared state takes and returns it. Errors are the left
  side of a sum, with the context chain of \<open>anyhow\<close> as a list of messages; a panic is \<open>Panic\<close> or
  \<open>None\<close>. Integers keep their width as words, and \<open>as u32\<close> truncates. Every clock, entropy or
  environment reading is an argument. The outside (providers, network, file system) is a world
  passed through the calls that reach it, so that \<open>the world is unchanged\<close> says that nothing
  outside was called. Locks make each operation on the key store, the limiter and the ledger one
  step. In \<open>Proxy\<close> and \<open>Gateway\<close> a handler is one step of the process, while streamed bodies, polls, reloads and
  signals interleave freely; in \<open>Tasks\<close> and \<open>Concurrency\<close> a handler is a sequence of steps between which every other
  request, stream and reload may run, and \<open>task_alone_is_handler\<close> shows that the two readings of a handler
  agree when nothing does.

  Parameters. Code of other crates is an argument with the documented behaviour as a named
  hypothesis where a theorem needs it: the digests and encodings (\<open>crypto\<close>, with \<open>collision_free\<close> on
  the inputs at hand), the cache (\<open>moka\<close>, with \<open>moka_law\<close>), the JSON codec (\<open>serde_json\<close>, with
  \<open>display_roundtrip\<close>), \<open>reqwest\<close>, \<open>tokio\<close>'s timeout, \<open>rustls\<close>, \<open>wasmtime\<close>, \<open>regex\<close>, \<open>figment\<close>, the derived decoders,
  the RFC 3339 parser and number formatting, socket addresses and listeners, the HTTP framework of the admin
  API (\<open>axum\<close>), the OpenTelemetry exporters (\<open>otel\<close>) and the text diff (\<open>diff_crate\<close>).

  What is shown. The gates refuse in the order and with the status of the code and reach nothing
  outside (\<open>proxy_refuses\<close>); a request touches its own tenant only (\<open>proxy_confined\<close>,
  \<open>tenant_change_has_cause\<close>), also in the cache (\<open>cache_hit_from_same_tenant\<close>); only filtered bodies leave
  (\<open>proxy_forwards_filtered_body\<close>); dispatch refines the failover contract; the limiter admits exact
  bursts and recovers; the ledger is the bill of the calendar's day, ISO week or month
  (\<open>ledger_reports_period_total\<close>) and an exhausted budget stays exhausted;
  streams are reassembled, translated and billed once for every chunking; reloads and polls are
  all or nothing; keys change by authority only and live from creation to revocation; the process
  invariant holds through every interleaving (\<open>gateway_invariant\<close>; that totals are amounts is conditional on the
  prices served with, which the decoders do not check) and shutdown is bounded. Over any window of time the
  limiter admits at most its capacity and what the window refills, binary64 rounding included (\<open>rate_limiter_window\<close>);
  the WebAssembly PII plugin decides as the native one or is cut off (\<open>pii_guest_equivalent\<close>); revocation takes out
  exactly one key of the identifier given (\<open>deleted_key_revoked\<close>); a Control Node outage
  changes nothing that is served (\<open>data_plane_survives_outage\<close>); a key issued or revoked with the command-line
  tool is issued or revoked at the gateway (\<open>operator_creates_working_key\<close>, \<open>operator_revokes_key\<close>); every metric
  sample has its labels from known sets (\<open>metric_labels_bounded\<close>); a configured client CA is enforced
  (\<open>mtls_requires_client_certificates\<close>); the signer's dates and paths are right for every input
  (\<open>civil_from_days_is_calendar\<close>, \<open>uri_encode_segment_roundtrip\<close>). With requests overlapping at every lock and await, the
  invariant holds (\<open>pool_invariant\<close>), a handler takes at most ten steps (\<open>every_request_finishes\<close>) and reads no runtime but the
  one it loaded (\<open>request_keeps_its_runtime\<close>), tenants never share cached replies (\<open>concurrent_hit_from_same_tenant\<close>),
  and a spent budget is charged further only by what was in flight (\<open>overshoot_is_in_flight\<close>).

  Bounds and fuel. No definition uses fuel as an approximation: \<open>trim_rounds\<close> runs as many rounds as
  the string has bytes, which \<open>trim_rounds_done\<close> shows is enough, and the loops of the parser, the
  observer and the adapter are total by measures on their buffers.

  Where the code departs from its intent, the theorem states what it does: the week token at New
  Year (\<open>week_budget_reopens_at_new_year\<close>) and at the end of December (\<open>january_total_in_december\<close>), charges at negative
  prices (\<open>negative_charge_reopens_budget\<close>), the stall on invalid UTF-8 (\<open>sse_invalid_utf8_stalls\<close>), the
  panic on a long error text (\<open>to_openai_error_panics_iff\<close>), the unchanged bucket after a limit change
  (\<open>rate_limiter_existing_bucket_ignores_limit\<close>), the lost expiry of offline keys
  (\<open>offline_create_ignores_expiry\<close>), the open proxy after the last deletion
  (\<open>last_key_deletion_opens_proxy\<close>), the reply an idempotency key carries from one endpoint to the other
  (\<open>idempotency_key_crosses_endpoints\<close>), the failover an empty \<open>retry_on\<close> does not prevent
  (\<open>empty_retry_on_still_fails_over\<close>), the applied bundle lost to a local reload (\<open>local_reload_shadows_bundle\<close>),
  the client's text as a metric label (\<open>unconfigured_model_is_label\<close>), the fields a spend report leaves out
  (\<open>spend_report_omits_unlimited\<close>).

  Not modelled. Log lines, the text rendering of metrics, argument parsing, the accept loops and signal
  plumbing of the async runtime, the ticker thread of the WebAssembly engine (its deadline is an argument of the
  component), the place of the telemetry setup in the startup sequence, benchmarks and tests.
\<close>

end
